(* ===== verification/Prelude.thy ===== *)
theory Prelude
  imports Complex_Main "HOL-Library.AList" "HOL-Library.Multiset"
begin

text \<open>
  Shared vocabulary of the development: the theorem collections, Python's
  ordered dictionaries as association lists, slices, and the bounded logs that
  several components keep (a list that is appended to and trimmed at the front).

  A Python \<open>str\<close> is modelled by a HOL \<open>string\<close>, one \<open>char\<close> per code
  point, so text is restricted to the code points U+0000 to U+00FF.  A Python
  \<open>bytes\<close> value is a \<open>string\<close> too, one \<open>char\<close> per byte.  Integers are
  \<open>int\<close> (unbounded, as in Python); wall-clock and monotonic times are \<open>rat\<close>.
\<close>

named_theorems py_simps \<open>computation rules of the Python library model\<close>
named_theorems wp_simps \<open>weakest-precondition equations of the effect combinators\<close>
named_theorems keeps_rules \<open>introduction rules for parts of the state that an effect keeps\<close>
named_theorems op_defs \<open>definitions of the modelled operations\<close>

type_synonym bytes = string
type_synonym pid = int
type_synonym ('k, 'v) dict = "('k \<times> 'v) list"

section \<open>Ordered dictionaries\<close>

text \<open>
  A \<open>dict\<close> keeps insertion order: assigning to a new key appends, assigning to
  a present key keeps its place, which is \<^const>\<open>AList.update\<close>.  A well-formed
  dictionary has distinct keys; every operation keeps that.
\<close>

definition dget :: "('k, 'v) dict \<Rightarrow> 'k \<Rightarrow> 'v \<Rightarrow> 'v" where
  "dget d k v = (case map_of d k of None \<Rightarrow> v | Some x \<Rightarrow> x)"

definition dmem :: "('k, 'v) dict \<Rightarrow> 'k \<Rightarrow> bool" where
  "dmem d k \<longleftrightarrow> k \<in> fst ` set d"

abbreviation dset :: "'k \<Rightarrow> 'v \<Rightarrow> ('k, 'v) dict \<Rightarrow> ('k, 'v) dict" where
  "dset \<equiv> AList.update"

abbreviation ddel :: "'k \<Rightarrow> ('k, 'v) dict \<Rightarrow> ('k, 'v) dict" where
  "ddel \<equiv> AList.delete"

definition dict_ok :: "('k, 'v) dict \<Rightarrow> bool" where
  "dict_ok d \<longleftrightarrow> distinct (map fst d)"

lemma dmem_map_of: "dmem d k \<longleftrightarrow> map_of d k \<noteq> None"
  by (simp add: dmem_def map_of_eq_None_iff)

lemma map_of_dset [simp]: "map_of (dset k v d) = (map_of d)(k \<mapsto> v)"
  by (simp add: update_conv')

lemma map_of_ddel [simp]: "map_of (ddel k d) = (map_of d)(k := None)"
  by (simp add: delete_conv')

lemma dict_ok_Nil [simp]: "dict_ok []"
  by (simp add: dict_ok_def)

lemma dict_ok_dset [simp, intro]: "dict_ok d \<Longrightarrow> dict_ok (dset k v d)"
  unfolding dict_ok_def by (rule distinct_update)

lemma dict_ok_ddel [simp, intro]: "dict_ok d \<Longrightarrow> dict_ok (ddel k d)"
  unfolding dict_ok_def by (rule distinct_delete)

lemma dict_ok_map_of: "dict_ok d \<Longrightarrow> (k, v) \<in> set d \<longleftrightarrow> map_of d k = Some v"
  by (simp add: dict_ok_def)

lemma length_dset: "length (dset k v d) = (if dmem d k then length d else Suc (length d))"
  by (induction d) (auto simp: dmem_def)

lemma dset_fresh: "\<not> dmem d k \<Longrightarrow> dset k v d = d @ [(k, v)]"
  by (induction d) (auto simp: dmem_def)

lemma keys_dset [simp]: "fst ` set (dset k v d) = insert k (fst ` set d)"
  by (simp add: dom_update)

lemma keys_ddel [simp]: "fst ` set (ddel k d) = fst ` set d - {k}"
  by (auto simp: AList.delete_eq)

lemma dget_simps [simp]:
  "dget [] k v = v"
  "dget ((k', x) # d) k v = (if k' = k then x else dget d k v)"
  by (simp_all add: dget_def)

lemma dget_dset [simp]: "dget (dset k x d) k' v = (if k' = k then x else dget d k' v)"
  by (simp add: dget_def)

section \<open>Slices\<close>

text \<open>\<open>xs[-n:]\<close> for a positive literal \<open>n\<close>: the last \<open>n\<close> items, or all of them.\<close>

definition last_n :: "nat \<Rightarrow> 'a list \<Rightarrow> 'a list" where
  "last_n n xs = drop (length xs - n) xs"

lemma length_last_n [simp]: "length (last_n n xs) = min n (length xs)"
  by (simp add: last_n_def)

lemma last_n_all: "length xs \<le> n \<Longrightarrow> last_n n xs = xs"
  by (simp add: last_n_def)

lemma last_n_suffix: "\<exists>ys. xs = ys @ last_n n xs"
  unfolding last_n_def by (metis append_take_drop_id)

lemma last_n_last_n: "m \<le> n \<Longrightarrow> last_n m (last_n n xs) = last_n m xs"
  by (cases "length xs \<le> n") (auto simp: last_n_def)

lemma last_n_append_last_n: "last_n n (last_n n xs @ ys) = last_n n (xs @ ys)"
proof (cases "length xs \<le> n")
  case False
  then have "length xs - n + (n + length ys - n) = length (xs @ ys) - n"
    by simp
  with False show ?thesis
    by (simp add: last_n_def add.commute)
qed (simp add: last_n_all)

lemma set_last_n: "set (last_n n xs) \<subseteq> set xs"
  by (simp add: last_n_def set_drop_subset)

lemma last_n_snoc: "0 < n \<Longrightarrow> last_n n (xs @ [x]) = last_n (n - 1) xs @ [x]"
  by (cases n) (auto simp: last_n_def Suc_diff_le)

lemma sum_list_last_n_le: "sum_list (map f (last_n n xs)) \<le> sum_list (map (f :: _ \<Rightarrow> nat) xs)"
proof -
  obtain ys where "xs = ys @ last_n n xs" using last_n_suffix by blast
  then show ?thesis by (metis le_add2 map_append sum_list_append)
qed

text \<open>\<open>xs[:k]\<close> and \<open>xs[k:]\<close> for any integer \<open>k\<close>.\<close>

definition slice_to :: "int \<Rightarrow> 'a list \<Rightarrow> 'a list" where
  "slice_to k xs = (if k \<ge> 0 then take (nat k) xs else take (length xs - nat (- k)) xs)"

definition slice_from :: "int \<Rightarrow> 'a list \<Rightarrow> 'a list" where
  "slice_from k xs = (if k \<ge> 0 then drop (nat k) xs else drop (length xs - nat (- k)) xs)"

lemma slice_from_last_n: "0 < k \<Longrightarrow> slice_from (- k) xs = last_n (nat k) xs"
  by (simp add: slice_from_def last_n_def)

section \<open>Bounded logs\<close>

text \<open>
  The program trims with a loop, \<open>while len(xs) > cap: xs.pop(0)\<close>.
\<close>

fun trim_front :: "nat \<Rightarrow> 'a list \<Rightarrow> 'a list" where
  "trim_front cap [] = []"
| "trim_front cap (x # xs) = (if cap < length (x # xs) then trim_front cap xs else x # xs)"

lemma trim_front_last_n: "trim_front cap xs = last_n cap xs"
  by (induction xs) (auto simp: last_n_def Suc_diff_le)

text \<open>
  A bounded log: an append operation on some state whose log field then holds
  the newest \<open>cap\<close> entries.  Whatever is appended, the log is the tail of the
  whole history, so it never exceeds \<open>cap\<close> and keeps the newest entries in order.
\<close>

locale bounded_log =
  fixes push :: "'s \<Rightarrow> 'e \<Rightarrow> 's" and entries :: "'s \<Rightarrow> 'e list" and cap :: nat
  assumes entries_push: "entries (push s e) = last_n cap (entries s @ [e])"
begin

lemma push_bound: "length (entries (push s e)) \<le> cap"
  by (simp add: entries_push)

lemma run_history:
  "length (entries s) \<le> cap \<Longrightarrow> entries (foldl push s es) = last_n cap (entries s @ es)"
proof (induction es arbitrary: s)
  case Nil
  then show ?case by (simp add: last_n_all)
next
  case (Cons e es)
  have "entries (foldl push (push s e) es) = last_n cap (entries (push s e) @ es)"
    by (rule Cons.IH) (rule push_bound)
  also have "\<dots> = last_n cap (entries s @ e # es)"
    by (simp add: entries_push last_n_append_last_n)
  finally show ?case by simp
qed

lemma run_bound: "length (entries s) \<le> cap \<Longrightarrow> length (entries (foldl push s es)) \<le> cap"
  by (simp add: run_history)

lemma newest_kept: "0 < cap \<Longrightarrow> last (entries (push s e)) = e"
  by (simp add: entries_push last_n_snoc)

end

end
