(* ===== verification/PyString.thy ===== *)
theory PyString
  imports Prelude
begin

text \<open>
  The operations of Python's \<open>str\<close> and \<open>bytes\<close> that the SDK uses, on the
  one-byte fragment of Unicode: white space and case mapping are those of the code
  points U+0000 to U+00FF, exactly.  The UTF-8 codec maps a code point below
  U+0080 to one byte and the others to two.
\<close>

section \<open>Characters\<close>

text \<open>\<open>str.isspace\<close>: tab to carriage return, FS to US, space, NEL, no-break space.\<close>

definition is_space :: "char \<Rightarrow> bool" where
  "is_space c = (let n = (of_char c :: nat) in
     9 \<le> n \<and> n \<le> 13 \<or> 28 \<le> n \<and> n \<le> 32 \<or> n = 133 \<or> n = 160)"

text \<open>\<open>str.lower\<close>: A to Z, and the Latin-1 capitals U+00C0 to U+00DE but U+00D7.\<close>

definition lower_char :: "char \<Rightarrow> char" where
  "lower_char c = (let n = (of_char c :: nat) in
     if 65 \<le> n \<and> n \<le> 90 \<or> 192 \<le> n \<and> n \<le> 222 \<and> n \<noteq> 215
     then char_of (n + 32) else c)"

definition lower :: "string \<Rightarrow> string" where
  "lower s = map lower_char s"

lemma length_lower [simp]: "length (lower s) = length s"
  by (simp add: lower_def)

section \<open>Stripping\<close>

definition strip_by :: "(char \<Rightarrow> bool) \<Rightarrow> string \<Rightarrow> string" where
  "strip_by p s = rev (dropWhile p (rev (dropWhile p s)))"

definition strip :: "string \<Rightarrow> string" where
  "strip s = strip_by is_space s"

definition strip_chars :: "string \<Rightarrow> string \<Rightarrow> string" where
  "strip_chars cs s = strip_by (\<lambda>c. c \<in> set cs) s"

lemma strip_by_eq_Nil: "strip_by p s = [] \<longleftrightarrow> (\<forall>c \<in> set s. p c)"
proof -
  have "strip_by p s = [] \<longleftrightarrow> (\<forall>c \<in> set (dropWhile p s). p c)"
    by (simp add: strip_by_def)
  also have "\<dots> \<longleftrightarrow> (\<forall>c \<in> set s. p c)"
    by (induction s) auto
  finally show ?thesis .
qed

lemma strip_eq_Nil: "strip s = [] \<longleftrightarrow> (\<forall>c \<in> set s. is_space c)"
  by (simp add: strip_def strip_by_eq_Nil)

lemma set_strip_by: "set (strip_by p s) \<subseteq> set s"
proof
  fix x
  assume "x \<in> set (strip_by p s)"
  then have "x \<in> set (rev (dropWhile p s))"
    unfolding strip_by_def by (metis set_dropWhileD set_rev)
  then show "x \<in> set s" using set_dropWhileD by fastforce
qed

lemma strip_by_hd: "strip_by p s \<noteq> [] \<Longrightarrow> \<not> p (hd (strip_by p s))"
proof -
  assume a: "strip_by p s \<noteq> []"
  define t where "t = dropWhile p s"
  obtain u where u: "t = strip_by p s @ u"
  proof -
    have "rev t = takeWhile p (rev t) @ dropWhile p (rev t)" by simp
    then have "t = rev (dropWhile p (rev t)) @ rev (takeWhile p (rev t))"
      by (metis rev_append rev_rev_ident)
    then show thesis using that by (simp add: strip_by_def t_def)
  qed
  from a u have "hd (strip_by p s) = hd t" "t \<noteq> []" by auto
  moreover have "t \<noteq> [] \<Longrightarrow> \<not> p (hd t)"
    unfolding t_def by (rule hd_dropWhile)
  ultimately show ?thesis by simp
qed

lemma strip_by_id: "s \<noteq> [] \<Longrightarrow> \<not> p (hd s) \<Longrightarrow> \<not> p (last s) \<Longrightarrow> strip_by p s = s"
proof -
  assume "s \<noteq> []" "\<not> p (hd s)" "\<not> p (last s)"
  then have "dropWhile p s = s" "dropWhile p (rev s) = rev s"
    by (simp_all add: dropWhile_eq_self_iff hd_rev)
  then show ?thesis by (simp add: strip_by_def)
qed

lemma strip_by_Cons: "\<not> p c \<Longrightarrow> strip_by p (c # s) = c # rev (dropWhile p (rev s))"
  by (cases "\<forall>x \<in> set s. p x") (auto simp: strip_by_def dropWhile_append3 dropWhile_append1)

lemma strip_by_last: "strip_by p s \<noteq> [] \<Longrightarrow> \<not> p (last (strip_by p s))"
  using hd_dropWhile[of p "rev (dropWhile p s)"] by (simp add: strip_by_def last_rev)

lemma strip_by_idem [simp]: "strip_by p (strip_by p s) = strip_by p s"
proof (cases "strip_by p s = []")
  case True
  show ?thesis unfolding True by (simp add: strip_by_def)
qed (simp add: strip_by_id strip_by_hd strip_by_last)

lemma strip_idem [simp]: "strip (strip s) = strip s"
  by (simp add: strip_def)

section \<open>Prefixes, search, replacement\<close>

fun startswith :: "string \<Rightarrow> string \<Rightarrow> bool" where
  "startswith s [] = True"
| "startswith [] (p # ps) = False"
| "startswith (c # s) (p # ps) = (c = p \<and> startswith s ps)"

lemma startswith_iff: "startswith s p \<longleftrightarrow> (\<exists>t. s = p @ t)"
  by (induction s p rule: startswith.induct) auto

lemma startswith_append [simp]: "startswith (p @ t) p"
  by (auto simp: startswith_iff)

text \<open>\<open>s.find(sub)\<close>, with \<open>None\<close> for -1; \<open>sub in s\<close>.\<close>

fun find_sub :: "string \<Rightarrow> string \<Rightarrow> nat option" where
  "find_sub sub [] = (if sub = [] then Some 0 else None)"
| "find_sub sub (c # s) =
     (if startswith (c # s) sub then Some 0 else map_option Suc (find_sub sub s))"

definition contains :: "string \<Rightarrow> string \<Rightarrow> bool" where
  "contains sub s = (find_sub sub s \<noteq> None)"

lemma find_sub_split: "find_sub sub s = Some i \<Longrightarrow> s = take i s @ sub @ drop (i + length sub) s"
proof (induction s arbitrary: i)
  case Nil
  then show ?case by (auto split: if_splits)
next
  case (Cons c s)
  show ?case
  proof (cases "startswith (c # s) sub")
    case True
    then obtain t where t: "c # s = sub @ t" by (auto simp: startswith_iff)
    from True Cons.prems have "i = 0" by simp
    then show ?thesis using t by simp
  next
    case False
    with Cons.prems obtain j where "find_sub sub s = Some j" "i = Suc j" by auto
    with Cons.IH [of j] show ?thesis by simp
  qed
qed

lemma find_sub_None: "find_sub sub s = None \<longleftrightarrow> (\<forall>a b. s \<noteq> a @ sub @ b)"
proof (induction s)
  case Nil
  then show ?case by auto
next
  case (Cons c s)
  have "(\<exists>a b. c # s = a @ sub @ b) \<longleftrightarrow> startswith (c # s) sub \<or> (\<exists>a b. s = a @ sub @ b)"
    by (metis append_Cons append_Nil list.exhaust_sel list.sel(1,3) startswith_iff)
  with Cons.IH show ?case by auto
qed

lemma contains_iff: "contains sub s \<longleftrightarrow> (\<exists>a b. s = a @ sub @ b)"
  by (auto simp: contains_def find_sub_None)

lemma contains_append: "contains x y \<Longrightarrow> contains x (y @ z)" "contains x y \<Longrightarrow> contains x (z @ y)"
  unfolding contains_iff by (metis append.assoc)+

lemma contains_self [simp]: "contains x x"
  unfolding contains_iff by (metis append_Nil append_Nil2)

text \<open>
  \<open>s.replace(old, new)\<close> for a non-empty \<open>old\<close>: leftmost, non-overlapping.  An
  empty \<open>old\<close> inserts \<open>new\<close> before every character and at the end.
\<close>

function replace_ne :: "string \<Rightarrow> string \<Rightarrow> string \<Rightarrow> string" where
  "replace_ne old new [] = []"
| "replace_ne old new (c # s) =
     (if old \<noteq> [] \<and> startswith (c # s) old
      then new @ replace_ne old new (drop (length old) (c # s))
      else c # replace_ne old new s)"
  by pat_completeness auto
termination
  by (relation "measure (\<lambda>(old, new, s). length s)") (auto simp: neq_Nil_conv)

definition replace_all :: "string \<Rightarrow> string \<Rightarrow> string \<Rightarrow> string" where
  "replace_all old new s =
     (if old = [] then concat (map (\<lambda>c. new @ [c]) s) @ new else replace_ne old new s)"

text \<open>\<open>s.count(sub)\<close>: non-overlapping occurrences; an empty \<open>sub\<close> occurs at every gap.\<close>

function count_ne :: "string \<Rightarrow> string \<Rightarrow> nat" where
  "count_ne sub [] = 0"
| "count_ne sub (c # s) =
     (if sub \<noteq> [] \<and> startswith (c # s) sub
      then Suc (count_ne sub (drop (length sub) (c # s)))
      else count_ne sub s)"
  by pat_completeness auto
termination
  by (relation "measure (\<lambda>(sub, s). length s)") (auto simp: neq_Nil_conv)

definition count_sub :: "string \<Rightarrow> string \<Rightarrow> nat" where
  "count_sub sub s = (if sub = [] then Suc (length s) else count_ne sub s)"

lemma length_replace_ne:
  "length (replace_ne old new s) + count_ne old s * length old
     = length s + count_ne old s * length new"
proof (induction old new s rule: replace_ne.induct)
  case (1 old new)
  show ?case by simp
next
  case (2 old new c s)
  show ?case
  proof (cases "old \<noteq> [] \<and> startswith (c # s) old")
    case True
    then have "length (c # s) = length old + length (drop (length old) (c # s))"
      by (metis append_eq_conv_conj length_append startswith_iff)
    with 2(1) [OF True] True show ?thesis by (auto simp: algebra_simps)
  next
    case False
    then have "replace_ne old new (c # s) = c # replace_ne old new s"
      "count_ne old (c # s) = count_ne old s" by auto
    with 2(2) [OF False] show ?thesis by simp
  qed
qed

lemma count_ne_pos: "sub \<noteq> [] \<Longrightarrow> contains sub s \<Longrightarrow> 0 < count_ne sub s"
proof (induction s)
  case Nil
  then show ?case by (simp add: contains_def)
next
  case (Cons c s)
  then show ?case by (auto simp: contains_def)
qed

section \<open>Splitting and joining\<close>

fun join :: "string \<Rightarrow> string list \<Rightarrow> string" where
  "join sep [] = []"
| "join sep [x] = x"
| "join sep (x # y # zs) = x @ sep @ join sep (y # zs)"

lemma in_join: "x \<in> set xs \<Longrightarrow> contains x (join sep xs)"
  by (induction sep xs rule: join.induct) (auto intro: contains_append)

text \<open>\<open>s.split(c)\<close> for a one-character separator: always at least one part.\<close>

fun split_on :: "char \<Rightarrow> string \<Rightarrow> string list" where
  "split_on c [] = [ [] ]"
| "split_on c (x # xs) =
     (if x = c then [] # split_on c xs
      else (case split_on c xs of [] \<Rightarrow> [ [x] ] | p # ps \<Rightarrow> (x # p) # ps))"

lemma split_on_ne [simp]: "split_on c s \<noteq> []"
  by (induction s) (auto split: list.splits)

lemma join_Cons: "ps \<noteq> [] \<Longrightarrow> join sep (p # ps) = p @ sep @ join sep ps"
  by (cases ps) auto

lemma join_split_on: "join [c] (split_on c s) = s"
proof (induction s)
  case Nil
  then show ?case by simp
next
  case (Cons x s)
  obtain p ps where p: "split_on c s = p # ps" by (meson list.exhaust split_on_ne)
  with Cons.IH show ?case by (cases ps) auto
qed

lemma split_on_sep_free: "p \<in> set (split_on c s) \<Longrightarrow> c \<notin> set p"
  by (induction s arbitrary: p) (auto split: list.splits if_splits)

text \<open>\<open>s.split()\<close>: the maximal runs of non-space characters.\<close>

fun split_ws_acc :: "string \<Rightarrow> string \<Rightarrow> string list" where
  "split_ws_acc w [] = (if w = [] then [] else [rev w])"
| "split_ws_acc w (c # s) =
     (if is_space c then (if w = [] then split_ws_acc [] s else rev w # split_ws_acc [] s)
      else split_ws_acc (c # w) s)"

definition split_ws :: "string \<Rightarrow> string list" where
  "split_ws s = split_ws_acc [] s"

lemma split_ws_acc_words:
  "\<forall>c \<in> set w. \<not> is_space c \<Longrightarrow> p \<in> set (split_ws_acc w s) \<Longrightarrow> p \<noteq> [] \<and> (\<forall>c \<in> set p. \<not> is_space c)"
proof (induction s arbitrary: w)
  case Nil
  then show ?case by (auto split: if_splits)
next
  case (Cons c s)
  show ?case
  proof (cases "is_space c")
    case True
    with Cons.prems consider "w \<noteq> []" "p = rev w" | "p \<in> set (split_ws_acc [] s)"
      by (auto split: if_splits)
    then show ?thesis using Cons.prems(1) Cons.IH [of "[]"] by cases auto
  next
    case False
    with Cons.prems Cons.IH [of "c # w"] show ?thesis by simp
  qed
qed

lemma split_ws_words: "p \<in> set (split_ws s) \<Longrightarrow> p \<noteq> [] \<and> (\<forall>c \<in> set p. \<not> is_space c)"
  unfolding split_ws_def using split_ws_acc_words [of "[]"] by simp

section \<open>Decimal numerals\<close>

definition digit_char :: "nat \<Rightarrow> char" where
  "digit_char n = char_of (48 + n)"

fun str_nat :: "nat \<Rightarrow> string" where
  "str_nat n = (if n < 10 then [digit_char n] else str_nat (n div 10) @ [digit_char (n mod 10)])"

declare str_nat.simps [simp del]

definition str_int :: "int \<Rightarrow> string" where
  "str_int i = (if i < 0 then CHR ''-'' # str_nat (nat (- i)) else str_nat (nat i))"

definition is_digit :: "char \<Rightarrow> bool" where
  "is_digit c = (let n = (of_char c :: nat) in 48 \<le> n \<and> n \<le> 57)"

definition digit_val :: "char \<Rightarrow> nat" where
  "digit_val c = (of_char c :: nat) - 48"

definition digits_val :: "string \<Rightarrow> nat" where
  "digits_val s = foldl (\<lambda>n c. 10 * n + digit_val c) 0 s"

lemma of_char_digit_char: "n < 10 \<Longrightarrow> (of_char (digit_char n) :: nat) = 48 + n"
  by (simp add: digit_char_def)

lemma digit_char_digit [simp]: "n < 10 \<Longrightarrow> is_digit (digit_char n)"
  by (simp add: is_digit_def of_char_digit_char)

lemma digit_val_digit_char [simp]: "n < 10 \<Longrightarrow> digit_val (digit_char n) = n"
  by (simp add: digit_val_def of_char_digit_char)

lemma str_nat_digits: "str_nat n \<noteq> [] \<and> (\<forall>c \<in> set (str_nat n). is_digit c)"
proof (induction n rule: str_nat.induct)
  case (1 n)
  then show ?case by (subst (1 2) str_nat.simps) auto
qed

lemma digits_val_str_nat [simp]: "digits_val (str_nat n) = n"
proof (induction n rule: str_nat.induct)
  case (1 n)
  show ?case
  proof (cases "n < 10")
    case True
    then show ?thesis by (subst str_nat.simps) (simp add: digits_val_def)
  next
    case False
    with 1 have "digits_val (str_nat (n div 10)) = n div 10" by simp
    with False show ?thesis by (subst str_nat.simps) (simp add: digits_val_def)
  qed
qed

lemma str_nat_inject [simp]: "str_nat m = str_nat n \<longleftrightarrow> m = n"
  by (metis digits_val_str_nat)

lemma minus_not_digit: "\<not> is_digit (CHR ''-'')"
  by (simp add: is_digit_def)

lemma str_int_inject [simp]: "str_int i = str_int j \<longleftrightarrow> i = j"
proof
  assume a: "str_int i = str_int j"
  have h: "CHR ''-'' \<notin> set (str_nat n)" for n
    using str_nat_digits minus_not_digit by blast
  then have "CHR ''-'' # t \<noteq> str_nat n" for t n
    by (metis list.set_intros(1))
  note ne = this this [symmetric]
  from a show "i = j"
    by (auto simp: str_int_def ne split: if_splits)
qed simp

text \<open>
  \<open>int(s)\<close> on text: surrounding white space, an optional sign, decimal digits with
  single underscores between digits; anything else is a \<open>ValueError\<close>.
\<close>

fun int_digits :: "string \<Rightarrow> string option" where
  "int_digits [] = None"
| "int_digits [c] = (if is_digit c then Some [c] else None)"
| "int_digits (c # d # s) =
     (if \<not> is_digit c then None
      else if d = CHR ''_'' then map_option (Cons c) (int_digits s)
      else map_option (Cons c) (int_digits (d # s)))"

definition parse_int :: "string \<Rightarrow> int option" where
  "parse_int s = (case strip s of
       [] \<Rightarrow> None
     | c # t \<Rightarrow>
         if c = CHR ''-'' then map_option (\<lambda>ds. - int (digits_val ds)) (int_digits t)
         else if c = CHR ''+'' then map_option (\<lambda>ds. int (digits_val ds)) (int_digits t)
         else map_option (\<lambda>ds. int (digits_val ds)) (int_digits (c # t)))"

lemma int_digits_digits: "s \<noteq> [] \<Longrightarrow> \<forall>c \<in> set s. is_digit c \<Longrightarrow> int_digits s = Some s"
proof (induction s rule: int_digits.induct)
  case (3 c d s)
  have "d \<noteq> CHR ''_''" using 3 by (auto simp: is_digit_def)
  with 3 show ?case by auto
qed auto

lemma digit_not_space: "is_digit c \<Longrightarrow> \<not> is_space c"
  by (auto simp: is_digit_def is_space_def Let_def)

lemma minus_not_space: "\<not> is_space (CHR ''-'')"
  by (simp add: is_space_def)

lemma strip_digits: "s \<noteq> [] \<Longrightarrow> \<forall>c \<in> set s. \<not> is_space c \<Longrightarrow> strip s = s"
  unfolding strip_def by (rule strip_by_id) auto

lemma parse_int_str_int [simp]: "parse_int (str_int i) = Some i"
proof (cases "i < 0")
  case True
  have "strip (str_int i) = str_int i"
    using str_nat_digits [of "nat (- i)"]
    by (intro strip_digits) (auto simp: str_int_def True digit_not_space minus_not_space)
  with True str_nat_digits [of "nat (- i)"] show ?thesis
    by (auto simp: parse_int_def str_int_def int_digits_digits)
next
  case False
  have "strip (str_nat (nat i)) = str_nat (nat i)"
    using str_nat_digits [of "nat i"] by (intro strip_digits) (auto simp: digit_not_space)
  moreover obtain c t where ct: "str_nat (nat i) = c # t" "is_digit c"
    using str_nat_digits [of "nat i"] by (cases "str_nat (nat i)") auto
  moreover from ct have "c \<noteq> CHR ''-''" "c \<noteq> CHR ''+''" by (auto simp: is_digit_def)
  moreover have "int_digits (str_nat (nat i)) = Some (str_nat (nat i))"
    using str_nat_digits by (intro int_digits_digits) auto
  ultimately show ?thesis using False digits_val_str_nat [of "nat i"]
    by (simp add: parse_int_def str_int_def)
qed

end
