(* ===== verification/Json.thy ===== *)
theory Json
  imports PyString
begin

text \<open>
  The UTF-8 codec and the \<open>json\<close> module of Python's standard library, as far as
  the SDK uses them: \<open>json.dumps\<close> (with and without \<open>ensure_ascii\<close>) and
  \<open>json.loads\<close>.  A float is kept as its numeral text.  The parser is written
  with fuel; \<open>pval_fuel_enough\<close> shows that the fuel of \<open>loads\<close> never runs
  out, and \<open>loads_dumps\<close> that printing and parsing are inverse.  An escape for a
  code point above U+00FF is outside the one-byte fragment and is refused.
\<close>

section \<open>UTF-8 on the one-byte fragment\<close>

definition utf8_char :: "char \<Rightarrow> bytes" where
  "utf8_char c = (let n = (of_char c :: nat) in
     if n < 128 then [c] else [char_of (192 + n div 64), char_of (128 + n mod 64)])"

definition utf8_encode :: "string \<Rightarrow> bytes" where
  "utf8_encode s = concat (map utf8_char s)"

text \<open>Strict decoding; \<open>None\<close> is \<open>UnicodeDecodeError\<close>.\<close>

fun utf8_decode :: "bytes \<Rightarrow> string option" where
  "utf8_decode [] = Some []"
| "utf8_decode (b # bs) = (let n = (of_char b :: nat) in
     if n < 128 then map_option (Cons b) (utf8_decode bs)
     else if n = 194 \<or> n = 195 then
       (case bs of [] \<Rightarrow> None
        | c # cs \<Rightarrow> let m = (of_char c :: nat) in
            if 128 \<le> m \<and> m < 192
            then map_option (Cons (char_of ((n - 192) * 64 + (m - 128)))) (utf8_decode cs)
            else None)
     else None)"

text \<open>
  \<open>decode(errors="replace")\<close> puts U+FFFD for every undecodable byte.  That code
  point is outside the fragment; SUB (U+001A) stands for it.
\<close>

definition replacement_char :: char where
  "replacement_char = CHR 0x1A"

fun utf8_decode_replace :: "bytes \<Rightarrow> string" where
  "utf8_decode_replace [] = []"
| "utf8_decode_replace (b # bs) = (let n = (of_char b :: nat) in
     if n < 128 then b # utf8_decode_replace bs
     else if n = 194 \<or> n = 195 then
       (case bs of [] \<Rightarrow> [replacement_char]
        | c # cs \<Rightarrow> let m = (of_char c :: nat) in
            if 128 \<le> m \<and> m < 192
            then char_of ((n - 192) * 64 + (m - 128)) # utf8_decode_replace cs
            else replacement_char # utf8_decode_replace bs)
     else replacement_char # utf8_decode_replace bs)"

lemma utf8_lead: "128 \<le> (n :: nat) \<Longrightarrow> n < 256 \<Longrightarrow> n div 64 = 2 \<or> n div 64 = 3"
  by linarith

lemma utf8_char_two:
  assumes "\<not> (of_char c :: nat) < 128"
  obtains l m where "utf8_char c = [char_of (192 + l), char_of (128 + m)]" "l = 2 \<or> l = 3"
    "m < (64 :: nat)" "l * 64 + m = (of_char c :: nat)"
proof (rule that)
  let ?n = "of_char c :: nat"
  show "utf8_char c = [char_of (192 + ?n div 64), char_of (128 + ?n mod 64)]"
    using assms by (simp add: utf8_char_def Let_def)
  show "?n div 64 = 2 \<or> ?n div 64 = 3" using assms by (intro utf8_lead) auto
qed auto

lemma utf8_decode_char:
  "utf8_decode (utf8_char c @ bs) = map_option (Cons c) (utf8_decode bs) \<and>
   utf8_decode_replace (utf8_char c @ bs) = c # utf8_decode_replace bs"
proof (cases "(of_char c :: nat) < 128")
  case True
  then show ?thesis by (simp add: utf8_char_def Let_def)
next
  case False
  then obtain l m where lm: "utf8_char c = [char_of (192 + l), char_of (128 + m)]"
    "l = 2 \<or> l = 3" "m < (64 :: nat)" "l * 64 + m = (of_char c :: nat)"
    by (rule utf8_char_two)
  then have "of_char (char_of (192 + l) :: char) = 192 + l" "of_char (char_of (128 + m) :: char) = 128 + m"
    by auto
  moreover have "char_of (l * 64 + m) = c" using lm(4) by simp
  ultimately show ?thesis using lm(1-3) by (auto simp: Let_def)
qed

lemma utf8_decode_encode [simp]: "utf8_decode (utf8_encode s) = Some s"
  by (induction s) (simp_all add: utf8_encode_def utf8_decode_char)

lemma utf8_decode_replace_encode [simp]: "utf8_decode_replace (utf8_encode s) = s"
  by (induction s) (simp_all add: utf8_encode_def utf8_decode_char)

section \<open>JSON values and printing\<close>

datatype json =
    JNull
  | JBool bool
  | JInt int
  | JFloat string
  | JStr string
  | JList "json list"
  | JObj "(string \<times> json) list"

text \<open>\<open>isinstance\<close> tests and Python truth of a decoded value.\<close>

fun is_JObj :: "json \<Rightarrow> bool" where
  "is_JObj (JObj _) = True" | "is_JObj _ = False"

fun is_JList :: "json \<Rightarrow> bool" where
  "is_JList (JList _) = True" | "is_JList _ = False"

definition hex_digit :: "nat \<Rightarrow> char" where
  "hex_digit n = char_of (if n < 10 then 48 + n else 87 + n)"

definition u_escape :: "char \<Rightarrow> string" where
  "u_escape c = (let n = (of_char c :: nat) in
     [CHR 0x5C, CHR ''u'', CHR ''0'', CHR ''0'', hex_digit (n div 16), hex_digit (n mod 16)])"

definition json_char :: "bool \<Rightarrow> char \<Rightarrow> string" where
  "json_char ensure_ascii c =
     (if c = CHR 0x22 then [CHR 0x5C, CHR 0x22]
      else if c = CHR 0x5C then [CHR 0x5C, CHR 0x5C]
      else if c = CHR 0x0A then [CHR 0x5C, CHR ''n'']
      else if c = CHR 0x0D then [CHR 0x5C, CHR ''r'']
      else if c = CHR 0x09 then [CHR 0x5C, CHR ''t'']
      else if c = CHR 0x0C then [CHR 0x5C, CHR ''f'']
      else if c = CHR 0x08 then [CHR 0x5C, CHR ''b'']
      else if (of_char c :: nat) < 32 \<or> ensure_ascii \<and> 127 \<le> (of_char c :: nat) then u_escape c
      else [c])"

definition json_quote :: "bool \<Rightarrow> string \<Rightarrow> string" where
  "json_quote ea s = [CHR 0x22] @ concat (map (json_char ea) s) @ [CHR 0x22]"

fun dumps :: "bool \<Rightarrow> json \<Rightarrow> string" where
  "dumps ea JNull = ''null''"
| "dumps ea (JBool b) = (if b then ''true'' else ''false'')"
| "dumps ea (JInt i) = str_int i"
| "dumps ea (JFloat t) = t"
| "dumps ea (JStr s) = json_quote ea s"
| "dumps ea (JList xs) = ''['' @ join '', '' (map (dumps ea) xs) @ '']''"
| "dumps ea (JObj kvs) =
     ''{'' @ join '', '' (map (\<lambda>(k, v). json_quote ea k @ '': '' @ dumps ea v) kvs) @ ''}''"

section \<open>Parsing\<close>

definition json_ws :: "char \<Rightarrow> bool" where
  "json_ws c \<longleftrightarrow> c \<in> {CHR '' '', CHR 0x09, CHR 0x0A, CHR 0x0D}"

definition skip_ws :: "string \<Rightarrow> string" where
  "skip_ws s = dropWhile json_ws s"

definition hex_val :: "char \<Rightarrow> nat option" where
  "hex_val c = (let n = (of_char c :: nat) in
     if 48 \<le> n \<and> n \<le> 57 then Some (n - 48)
     else if 97 \<le> n \<and> n \<le> 102 then Some (n - 87)
     else if 65 \<le> n \<and> n \<le> 70 then Some (n - 55)
     else None)"

definition hex4 :: "char \<Rightarrow> char \<Rightarrow> char \<Rightarrow> char \<Rightarrow> nat option" where
  "hex4 a b c d = (case (hex_val a, hex_val b, hex_val c, hex_val d) of
     (Some w, Some x, Some y, Some z) \<Rightarrow> Some (((w * 16 + x) * 16 + y) * 16 + z)
   | _ \<Rightarrow> None)"

definition simple_escape :: "char \<Rightarrow> char option" where
  "simple_escape e =
     (if e = CHR 0x22 then Some (CHR 0x22)
      else if e = CHR 0x5C then Some (CHR 0x5C)
      else if e = CHR ''/'' then Some (CHR ''/'')
      else if e = CHR ''b'' then Some (CHR 0x08)
      else if e = CHR ''f'' then Some (CHR 0x0C)
      else if e = CHR ''n'' then Some (CHR 0x0A)
      else if e = CHR ''r'' then Some (CHR 0x0D)
      else if e = CHR ''t'' then Some (CHR 0x09)
      else None)"

text \<open>The rest of a string literal after its opening quote: its value and what follows.\<close>

definition cons_fst :: "'a \<Rightarrow> ('a list \<times> 'b) option \<Rightarrow> ('a list \<times> 'b) option" where
  "cons_fst x r = map_option (\<lambda>(xs, b). (x # xs, b)) r"

fun pstr :: "string \<Rightarrow> (string \<times> string) option" where
  "pstr [] = None"
| "pstr (c # s) =
     (if c = CHR 0x22 then Some ([], s)
      else if c = CHR 0x5C then
        (case s of
           [] \<Rightarrow> None
         | e # t \<Rightarrow>
             if e = CHR ''u'' then
               (case t of
                  h1 # h2 # h3 # h4 # r \<Rightarrow>
                    (case hex4 h1 h2 h3 h4 of
                       None \<Rightarrow> None
                     | Some n \<Rightarrow> if n < 256 then cons_fst (char_of n) (pstr r) else None)
                | _ \<Rightarrow> None)
             else (case simple_escape e of None \<Rightarrow> None | Some x \<Rightarrow> cons_fst x (pstr t)))
      else if (of_char c :: nat) < 32 then None
      else cons_fst c (pstr s))"

text \<open>
  A number is \<open>-?(0|[1-9][0-9]*)(\.[0-9]+)?([eE][-+]?[0-9]+)?\<close>, longest match of
  each part; without fraction and exponent it is an integer.
\<close>

definition pfrac :: "string \<Rightarrow> string \<times> string" where
  "pfrac s = (case s of
     c # t \<Rightarrow> if c = CHR ''.'' \<and> takeWhile is_digit t \<noteq> []
              then (c # takeWhile is_digit t, dropWhile is_digit t) else ([], s)
   | [] \<Rightarrow> ([], s))"

definition pexp :: "string \<Rightarrow> string \<times> string" where
  "pexp s = (case s of
     c # t \<Rightarrow>
       if c = CHR ''e'' \<or> c = CHR ''E'' then
         (let (sg, u) = (case t of d # u \<Rightarrow> if d = CHR ''+'' \<or> d = CHR ''-'' then ([d], u) else ([], t)
                         | [] \<Rightarrow> ([], t))
          in if takeWhile is_digit u \<noteq> []
             then (c # sg @ takeWhile is_digit u, dropWhile is_digit u) else ([], s))
       else ([], s)
   | [] \<Rightarrow> ([], s))"

definition pint_digits :: "string \<Rightarrow> (string \<times> string) option" where
  "pint_digits s = (case s of
     c # t \<Rightarrow> if c = CHR ''0'' then Some ([c], t)
              else if is_digit c then Some (takeWhile is_digit s, dropWhile is_digit s)
              else None
   | [] \<Rightarrow> None)"

definition pnum :: "string \<Rightarrow> (json \<times> string) option" where
  "pnum s = (let (neg, t) = (case s of c # t \<Rightarrow> if c = CHR ''-'' then (True, t) else (False, s)
                             | [] \<Rightarrow> (False, s))
     in (case pint_digits t of
           None \<Rightarrow> None
         | Some (ds, r) \<Rightarrow>
             (let (f, r1) = pfrac r; (e, r2) = pexp r1 in
              if f = [] \<and> e = []
              then Some (JInt (if neg then - int (digits_val ds) else int (digits_val ds)), r)
              else Some (JFloat ((if neg then ''-'' else []) @ ds @ f @ e), r2))))"

definition keyword :: "string \<Rightarrow> (json \<times> string) option" where
  "keyword s =
     (if startswith s ''null'' then Some (JNull, drop 4 s)
      else if startswith s ''true'' then Some (JBool True, drop 4 s)
      else if startswith s ''false'' then Some (JBool False, drop 5 s)
      else if startswith s ''NaN'' then Some (JFloat ''NaN'', drop 3 s)
      else if startswith s ''Infinity'' then Some (JFloat ''Infinity'', drop 8 s)
      else if startswith s ''-Infinity'' then Some (JFloat ''-Infinity'', drop 9 s)
      else None)"

definition patom :: "string \<Rightarrow> (json \<times> string) option" where
  "patom s = (case keyword s of Some r \<Rightarrow> Some r | None \<Rightarrow> pnum s)"

text \<open>
  \<open>pval\<close> parses one value at the head of the text, \<open>pelems\<close> the elements of an
  array after at least one is known to follow, \<open>pmembers\<close> the members of an object.
\<close>

fun pval :: "nat \<Rightarrow> string \<Rightarrow> (json \<times> string) option"
and pelems :: "nat \<Rightarrow> json list \<Rightarrow> string \<Rightarrow> (json \<times> string) option"
and pmembers :: "nat \<Rightarrow> (string \<times> json) list \<Rightarrow> string \<Rightarrow> (json \<times> string) option" where
  "pval 0 s = None"
| "pval (Suc n) s =
     (case s of
        [] \<Rightarrow> None
      | c # t \<Rightarrow>
          if c = CHR 0x22 then map_option (\<lambda>(v, r). (JStr v, r)) (pstr t)
          else if c = CHR ''['' then
            (case skip_ws t of
               [] \<Rightarrow> None
             | d # u \<Rightarrow> if d = CHR '']'' then Some (JList [], u) else pelems n [] (d # u))
          else if c = CHR ''{'' then
            (case skip_ws t of
               [] \<Rightarrow> None
             | d # u \<Rightarrow> if d = CHR ''}'' then Some (JObj [], u) else pmembers n [] (d # u))
          else patom (c # t))"
| "pelems 0 acc s = None"
| "pelems (Suc n) acc s =
     (case pval n s of
        None \<Rightarrow> None
      | Some (v, r) \<Rightarrow>
          (case skip_ws r of
             [] \<Rightarrow> None
           | d # u \<Rightarrow>
               if d = CHR '']'' then Some (JList (acc @ [v]), u)
               else if d = CHR '','' then pelems n (acc @ [v]) (skip_ws u)
               else None))"
| "pmembers 0 acc s = None"
| "pmembers (Suc n) acc s =
     (case s of
        [] \<Rightarrow> None
      | c # t \<Rightarrow>
          if c \<noteq> CHR 0x22 then None
          else (case pstr t of
             None \<Rightarrow> None
           | Some (k, r) \<Rightarrow>
               (case skip_ws r of
                  [] \<Rightarrow> None
                | d # u \<Rightarrow>
                    if d \<noteq> CHR '':'' then None
                    else (case pval n (skip_ws u) of
                       None \<Rightarrow> None
                     | Some (v, r2) \<Rightarrow>
                         (case skip_ws r2 of
                            [] \<Rightarrow> None
                          | d2 # u2 \<Rightarrow>
                              if d2 = CHR ''}'' then Some (JObj (dset k v acc), u2)
                              else if d2 = CHR '','' then pmembers n (dset k v acc) (skip_ws u2)
                              else None)))))"

definition json_fuel :: "string \<Rightarrow> nat" where
  "json_fuel s = 2 * length s + 1"

text \<open>\<open>json.loads(s)\<close>; \<open>None\<close> is \<open>JSONDecodeError\<close>.\<close>

definition loads :: "string \<Rightarrow> json option" where
  "loads s = (let t = skip_ws s in
     case pval (json_fuel t) t of
       None \<Rightarrow> None
     | Some (v, r) \<Rightarrow> if skip_ws r = [] then Some v else None)"

section \<open>Fuel and consumption\<close>

lemma skip_ws_le: "length (skip_ws s) \<le> length s"
  by (simp add: skip_ws_def length_dropWhile_le)

lemma skip_ws_Cons: "skip_ws s = d # u \<Longrightarrow> length u < length s"
  using skip_ws_le [of s] by simp

lemma pstr_length: "pstr s = Some (v, r) \<Longrightarrow> length r < length s"
proof (induction s arbitrary: v r rule: pstr.induct)
  case 1
  then show ?case by simp
next
  case (2 c s)
  then show ?case
    by (fastforce simp: cons_fst_def split: if_splits list.splits option.splits)
qed

lemma dropWhile_digits_le: "length (dropWhile is_digit t) \<le> length t"
  by (rule length_dropWhile_le)

lemma pfrac_length: "length (snd (pfrac s)) \<le> length s"
  by (auto simp: pfrac_def split: list.splits intro: le_SucI dropWhile_digits_le)

lemma pexp_length: "length (snd (pexp s)) \<le> length s"
  by (auto simp: pexp_def Let_def split: list.splits prod.splits if_splits
      intro: le_SucI dropWhile_digits_le)

lemma pint_digits_length: "pint_digits s = Some (ds, r) \<Longrightarrow> length r < length s"
  by (auto simp: pint_digits_def less_Suc_eq_le dropWhile_digits_le split: list.splits if_splits)

lemma pnum_length: "pnum s = Some (v, r) \<Longrightarrow> length r < length s"
proof -
  assume a: "pnum s = Some (v, r)"
  define t where "t = (case s of c # t \<Rightarrow> if c = CHR ''-'' then t else s | [] \<Rightarrow> s)"
  have t: "length t \<le> length s" by (auto simp: t_def split: list.splits)
  obtain ds r0 where ds: "pint_digits t = Some (ds, r0)" and
    r: "r = r0 \<or> r = snd (pexp (snd (pfrac r0)))"
    using a by (auto simp: pnum_def t_def Let_def split: list.splits if_splits option.splits prod.splits)
  from pint_digits_length [OF ds] have "length r0 < length t" .
  moreover have "length (snd (pexp (snd (pfrac r0)))) \<le> length r0"
    using pexp_length pfrac_length le_trans by blast
  ultimately show ?thesis using r t by auto
qed

lemma keyword_length: "keyword s = Some (v, r) \<Longrightarrow> length r < length s"
  by (auto simp: keyword_def startswith_iff split: if_splits)

lemma patom_length: "patom s = Some (v, r) \<Longrightarrow> length r < length s"
  by (auto simp: patom_def keyword_length pnum_length split: option.splits)

lemma pval_length:
  "pval n s = Some (v, r) \<Longrightarrow> length r < length s"
  "pelems n acc s = Some (v, r) \<Longrightarrow> length r < length s"
  "pmembers n acc' s = Some (v, r) \<Longrightarrow> length r < length s"
proof (induction n s and n acc s and n acc' s arbitrary: v r and v r and v r
    rule: pval_pelems_pmembers.induct)
  case (2 n s)
  then show ?case
    by (fastforce split: list.splits if_splits dest: skip_ws_Cons pstr_length patom_length)
next
  case (4 n acc s)
  from "4.prems" obtain w r0 d u where w: "pval n s = Some (w, r0)" "skip_ws r0 = d # u"
    and r: "d = CHR '']'' \<and> r = u \<or> d \<noteq> CHR '']'' \<and> d = CHR '','' \<and> pelems n (acc @ [w]) (skip_ws u) = Some (v, r)"
    by (auto split: option.splits list.splits if_splits)
  have "length u < length s" using "4.IH"(1) [OF w(1)] skip_ws_Cons [OF w(2)] by simp
  moreover have "length r \<le> length u"
    using r "4.IH"(2) [OF w(1) refl w(2)] skip_ws_le [of u] by fastforce
  ultimately show ?case by simp
next
  case (6 n acc s)
  from "6.prems" obtain c t k r1 d u w r2 d2 u2 where w: "s = c # t" "c = CHR 0x22" "pstr t = Some (k, r1)"
     "skip_ws r1 = d # u" "d = CHR '':''" "pval n (skip_ws u) = Some (w, r2)" "skip_ws r2 = d2 # u2"
    and r: "d2 = CHR ''}'' \<and> r = u2 \<or> d2 \<noteq> CHR ''}'' \<and> d2 = CHR '','' \<and> pmembers n (dset k w acc) (skip_ws u2) = Some (v, r)"
    by (auto split: option.splits list.splits if_splits)
  have "length r2 < length u" using "6.IH"(1) w skip_ws_le [of u] by fastforce
  then have "length u2 < length s"
    using skip_ws_Cons [OF w(4)] skip_ws_Cons [OF w(7)] pstr_length [OF w(3)] w(1) by simp
  moreover have "length r \<le> length u2"
    using r "6.IH"(2) w skip_ws_le [of u2] by fastforce
  ultimately show ?case by simp
qed auto
lemma pval_cong:
  assumes "\<And>d u. skip_ws t = d # u \<Longrightarrow>
      pelems n [] (d # u) = pelems k [] (d # u) \<and> pmembers n [] (d # u) = pmembers k [] (d # u)"
  shows "pval (Suc n) (c # t) = pval (Suc k) (c # t)"
proof (cases "skip_ws t")
  case Nil
  then show ?thesis by (simp only: pval.simps list.case)
next
  case (Cons d u)
  then show ?thesis using assms [OF Cons] by (simp only: pval.simps list.case)
qed

lemma pelems_cong:
  assumes v: "pval n s = pval k s"
    and e: "\<And>w r d u. pval k s = Some (w, r) \<Longrightarrow> skip_ws r = d # u \<Longrightarrow>
      pelems n (acc @ [w]) (skip_ws u) = pelems k (acc @ [w]) (skip_ws u)"
  shows "pelems (Suc n) acc s = pelems (Suc k) acc s"
proof (cases "pval k s")
  case None
  then show ?thesis by (simp only: pelems.simps v option.case)
next
  case (Some p)
  obtain w r where p: "p = (w, r)" by (cases p)
  show ?thesis
  proof (cases "skip_ws r")
    case Nil
    then show ?thesis using Some by (simp only: pelems.simps v p option.case prod.case list.case)
  next
    case (Cons d u)
    then show ?thesis using Some e [OF Some [unfolded p] Cons]
      by (simp only: pelems.simps v p option.case prod.case list.case)
  qed
qed

lemma pmembers_cong:
  assumes v: "\<And>ky r d u. pstr t = Some (ky, r) \<Longrightarrow> skip_ws r = d # u \<Longrightarrow>
      pval n (skip_ws u) = pval k (skip_ws u)"
    and e: "\<And>ky r d u w r2 d2 u2. pstr t = Some (ky, r) \<Longrightarrow> skip_ws r = d # u \<Longrightarrow>
      pval k (skip_ws u) = Some (w, r2) \<Longrightarrow> skip_ws r2 = d2 # u2 \<Longrightarrow>
      pmembers n (dset ky w acc) (skip_ws u2) = pmembers k (dset ky w acc) (skip_ws u2)"
  shows "pmembers (Suc n) acc (c # t) = pmembers (Suc k) acc (c # t)"
proof (cases "pstr t")
  case None
  then show ?thesis by (simp only: pmembers.simps option.case list.case)
next
  case (Some p)
  obtain ky r where p: "pstr t = Some (ky, r)" using Some by (cases p) simp
  show ?thesis
  proof (cases "skip_ws r")
    case Nil
    then show ?thesis using p by (simp only: pmembers.simps option.case prod.case list.case)
  next
    case d: (Cons d u)
    show ?thesis
    proof (cases "pval k (skip_ws u)")
      case None
      then show ?thesis using v [OF p d] p d
        by (simp only: pmembers.simps option.case prod.case list.case)
    next
      case (Some q)
      then obtain w r2 where q: "pval k (skip_ws u) = Some (w, r2)" by (cases q) simp
      show ?thesis
      proof (cases "skip_ws r2")
        case Nil
        then show ?thesis using v [OF p d] p d q
          by (simp only: pmembers.simps option.case prod.case list.case)
      next
        case (Cons d2 u2)
        then show ?thesis using v [OF p d] p d q e [OF p d q Cons]
          by (simp only: pmembers.simps option.case prod.case list.case)
      qed
    qed
  qed
qed

lemma pval_fuel_aux:
  "(2 * length s + 1 \<le> n \<longrightarrow> 2 * length s + 1 \<le> m \<longrightarrow> pval n s = pval m s) \<and>
   (2 * length s + 2 \<le> n \<longrightarrow> 2 * length s + 2 \<le> m \<longrightarrow>
     pelems n acc s = pelems m acc s \<and> pmembers n acc' s = pmembers m acc' s)"
proof (induction n arbitrary: m s acc acc')
  case 0
  then show ?case by simp
next
  case (Suc n)
  note V = Suc.IH [THEN conjunct1, rule_format]
  note E = Suc.IH [THEN conjunct2, rule_format, THEN conjunct1]
  note M = Suc.IH [THEN conjunct2, rule_format, THEN conjunct2]
  have v: "pval (Suc n) s = pval m s" if h: "2 * length s + 1 \<le> Suc n" "2 * length s + 1 \<le> m"
  proof (cases s)
    case Nil
    then show ?thesis using h by (cases m) auto
  next
    case (Cons c t)
    from h(2) obtain k where m: "m = Suc k" by (cases m) auto
    show ?thesis unfolding m Cons
      by (rule pval_cong, intro conjI E M) (use h m Cons skip_ws_le [of t] in auto)
  qed
  have e: "pelems (Suc n) acc s = pelems m acc s" if h: "2 * length s + 2 \<le> Suc n" "2 * length s + 2 \<le> m"
  proof -
    from h(2) obtain k where m: "m = Suc k" by (cases m) auto
    show ?thesis unfolding m
    proof (rule pelems_cong)
      show "pval n s = pval k s" using h m by (intro V) auto
      fix w r d u
      assume "pval k s = Some (w, r)" "skip_ws r = d # u"
      then show "pelems n (acc @ [w]) (skip_ws u) = pelems k (acc @ [w]) (skip_ws u)"
        using h m skip_ws_le [of u] by (intro E) (auto dest!: skip_ws_Cons pval_length(1))
    qed
  qed
  have f: "pmembers (Suc n) acc' s = pmembers m acc' s" if h: "2 * length s + 2 \<le> Suc n" "2 * length s + 2 \<le> m"
  proof (cases s)
    case Nil
    then show ?thesis using h by (cases m) auto
  next
    case (Cons c t)
    from h(2) obtain k where m: "m = Suc k" by (cases m) auto
    show ?thesis unfolding m Cons
    proof (rule pmembers_cong)
      fix ky r d u
      assume a: "pstr t = Some (ky, r)" "skip_ws r = d # u"
      have u: "length (skip_ws u) < length t"
        using skip_ws_le [of u] skip_ws_Cons [OF a(2)] pstr_length [OF a(1)] by simp
      then show "pval n (skip_ws u) = pval k (skip_ws u)" using h m Cons by (intro V) auto
      fix w r2 d2 u2
      assume b: "pval k (skip_ws u) = Some (w, r2)" "skip_ws r2 = d2 # u2"
      have "length (skip_ws u2) < length t"
        using u skip_ws_le [of u2] skip_ws_Cons [OF b(2)] pval_length(1) [OF b(1)] by simp
      then show "pmembers n (dset ky w acc') (skip_ws u2) = pmembers k (dset ky w acc') (skip_ws u2)"
        using h m Cons by (intro M) auto
    qed
  qed
  show ?case using v e f by blast
qed

lemma pval_fuel_enough: "json_fuel s \<le> n \<Longrightarrow> pval n s = pval (json_fuel s) s"
  using pval_fuel_aux [of s n "json_fuel s"] by (simp add: json_fuel_def)

section \<open>Printing and parsing are inverse\<close>

text \<open>A value without floats whose objects have distinct keys.\<close>

fun wf_json :: "json \<Rightarrow> bool" where
  "wf_json (JFloat t) = False"
| "wf_json (JList xs) = (\<forall>x \<in> set xs. wf_json x)"
| "wf_json (JObj kvs) = (dict_ok kvs \<and> (\<forall>p \<in> set kvs. wf_json (snd p)))"
| "wf_json _ = True"

lemma hex_val_hex_digit [simp]: "n < 16 \<Longrightarrow> hex_val (hex_digit n) = Some n"
  by (auto simp: hex_val_def hex_digit_def Let_def)

lemma hex_val_0 [simp]: "hex_val (CHR ''0'') = Some 0"
  by (simp add: hex_val_def)

lemma hex4_u_escape: "n < 256 \<Longrightarrow> hex4 (CHR ''0'') (CHR ''0'') (hex_digit (n div 16)) (hex_digit (n mod 16)) = Some n"
  by (simp add: hex4_def)

lemma pstr_json_char: "pstr (json_char ea c @ s) = cons_fst c (pstr s)"
proof -
  let ?n = "of_char c :: nat"
  have u: "pstr (u_escape c @ s) = cons_fst c (pstr s)"
    using hex4_u_escape [of ?n] by (simp add: u_escape_def Let_def)
  have e: "pstr ([CHR 0x5C, e] @ s) = cons_fst x (pstr s)" if "simple_escape e = Some x" "e \<noteq> CHR ''u''" for e x
    using that by simp
  show ?thesis
    using u e by (auto simp: json_char_def simple_escape_def)
qed

lemma pstr_quoted: "pstr (concat (map (json_char ea) s) @ CHR 0x22 # r) = Some (s, r)"
  by (induction s) (simp_all add: pstr_json_char cons_fst_def)

lemma digit_char_0: "digit_char 0 = CHR ''0''"
  by code_simp

lemma str_nat_0: "str_nat 0 = ''0''"
  by (subst str_nat.simps) (simp add: digit_char_0)

lemma hd_str_nat: "0 < n \<Longrightarrow> hd (str_nat n) \<noteq> CHR ''0''"
proof (induction n rule: str_nat.induct)
  case (1 n)
  show ?case
  proof (cases "n < 10")
    case True
    have "digit_char n \<noteq> CHR ''0''"
    proof
      assume "digit_char n = CHR ''0''"
      then have "digit_val (digit_char n) = 0" by (simp add: digit_val_def)
      with 1 True show False by simp
    qed
    with True show ?thesis by (subst str_nat.simps) simp
  next
    case False
    with 1 have "hd (str_nat (n div 10)) \<noteq> CHR ''0''" by simp
    moreover have "str_nat (n div 10) \<noteq> []" using str_nat_digits by blast
    ultimately show ?thesis using False by (subst str_nat.simps) simp
  qed
qed

text \<open>What may follow a value inside a printed array or object.\<close>

definition delim :: "string \<Rightarrow> bool" where
  "delim r \<longleftrightarrow> r = [] \<or> hd r \<in> {CHR '','', CHR '']'', CHR ''}''}"

lemma delim_simps [simp]:
  "delim []" "delim (CHR '','' # r)" "delim (CHR '']'' # r)" "delim (CHR ''}'' # r)"
  by (simp_all add: delim_def)

lemma delim_not_digit: "delim r \<Longrightarrow> takeWhile is_digit r = [] \<and> dropWhile is_digit r = r"
  by (cases r) (auto simp: delim_def is_digit_def)

lemma pint_digits_str_nat: "delim r \<Longrightarrow> pint_digits (str_nat n @ r) = Some (str_nat n, r)"
proof -
  assume r: "delim r"
  obtain c t where ct: "str_nat n = c # t" and d: "is_digit c" "\<forall>x \<in> set t. is_digit x"
    using str_nat_digits [of n] by (cases "str_nat n") auto
  show ?thesis
  proof (cases "n = 0")
    case True
    then show ?thesis by (simp add: str_nat_0 pint_digits_def)
  next
    case False
    then have "c \<noteq> CHR ''0''" using hd_str_nat [of n] ct by simp
    then show ?thesis using ct d delim_not_digit [OF r]
      by (simp add: pint_digits_def takeWhile_append2 dropWhile_append2)
  qed
qed

lemma delim_no_frac: "delim r \<Longrightarrow> pfrac r = ([], r) \<and> pexp r = ([], r)"
  by (cases r) (auto simp: delim_def pfrac_def pexp_def)

lemma keyword_digit: "is_digit c \<Longrightarrow> keyword (c # t) = None \<and> keyword (CHR ''-'' # c # t) = None"
proof -
  assume d: "is_digit c"
  have "c \<notin> {CHR ''n'', CHR ''t'', CHR ''f'', CHR ''N'', CHR ''I'', CHR ''-''}"
    using d by (auto simp: is_digit_def)
  then show ?thesis by (simp add: keyword_def)
qed

lemma patom_str_int: "delim r \<Longrightarrow> patom (str_int i @ r) = Some (JInt i, r)"
proof -
  assume r: "delim r"
  have k: "keyword (str_nat n @ r) = None \<and> keyword (CHR ''-'' # str_nat n @ r) = None" for n
    using str_nat_digits [of n] keyword_digit by (cases "str_nat n") auto
  have m: "\<exists>c t. str_nat n = c # t \<and> c \<noteq> CHR ''-''" for n
    using str_nat_digits [of n] minus_not_digit by (cases "str_nat n") auto
  obtain c t where ct: "str_nat (nat i) = c # t" "c \<noteq> CHR ''-''" using m by blast
  have p: "pint_digits (str_nat n @ r) = Some (str_nat n, r)" for n
    using pint_digits_str_nat [OF r] .
  show ?thesis
  proof (cases "i < 0")
    case True
    then show ?thesis using k p delim_no_frac [OF r]
      by (simp add: patom_def str_int_def pnum_def)
  next
    case False
    then show ?thesis using k [of "nat i"] p [of "nat i"] ct delim_no_frac [OF r] digits_val_str_nat [of "nat i"]
      by (simp add: patom_def str_int_def pnum_def)
  qed
qed

definition value_start :: "char \<Rightarrow> bool" where
  "value_start c \<longleftrightarrow> \<not> json_ws c \<and> c \<noteq> CHR '']'' \<and> c \<noteq> CHR ''}''"

lemma dumps_start: "wf_json j \<Longrightarrow> \<exists>c t. dumps ea j = c # t \<and> value_start c"
proof (cases j)
  case (JInt i)
  have "\<exists>c t. str_nat n = c # t \<and> is_digit c" for n
    using str_nat_digits [of n] by (cases "str_nat n") auto
  moreover have "is_digit c \<Longrightarrow> value_start c" for c
    by (auto simp: is_digit_def value_start_def json_ws_def)
  ultimately show ?thesis using JInt
    by (fastforce simp: str_int_def value_start_def json_ws_def)
qed (auto simp: json_quote_def value_start_def json_ws_def)

lemma skip_ws_dumps: "wf_json j \<Longrightarrow> skip_ws (dumps ea j @ r) = dumps ea j @ r"
  using dumps_start [of j ea] by (auto simp: skip_ws_def value_start_def)

lemma skip_ws_simps [simp]:
  "\<not> json_ws c \<Longrightarrow> skip_ws (c # s) = c # s" "json_ws c \<Longrightarrow> skip_ws (c # s) = skip_ws s" "skip_ws [] = []"
  by (simp_all add: skip_ws_def)

lemma json_ws_simps [simp]:
  "json_ws (CHR '' '')" "\<not> json_ws (CHR '','')" "\<not> json_ws (CHR '':'')" "\<not> json_ws (CHR '']'')"
  "\<not> json_ws (CHR ''}'')" "\<not> json_ws (CHR ''['')" "\<not> json_ws (CHR ''{'')" "\<not> json_ws (CHR 0x22)"
  by (simp_all add: json_ws_def)

lemmas parser_simps [simp del] = pval.simps pelems.simps pmembers.simps

definition parses :: "bool \<Rightarrow> json \<Rightarrow> bool" where
  "parses ea j \<longleftrightarrow> (\<forall>r n. delim r \<longrightarrow> json_fuel (dumps ea j @ r) \<le> n \<longrightarrow>
     pval n (dumps ea j @ r) = Some (j, r))"

lemma parsesD: "parses ea j \<Longrightarrow> delim r \<Longrightarrow> json_fuel (dumps ea j @ r) \<le> n \<Longrightarrow>
    pval n (dumps ea j @ r) = Some (j, r)"
  by (simp add: parses_def)

lemma skip_ws_join_dumps:
  "x # xs = ys \<Longrightarrow> wf_json x \<Longrightarrow>
   skip_ws (join '', '' (map (dumps ea) ys) @ r) = join '', '' (map (dumps ea) ys) @ r"
  using skip_ws_dumps [of x ea] by (cases xs) auto

lemma pelems_join:
  assumes "xs \<noteq> []" "\<forall>x \<in> set xs. wf_json x \<and> parses ea x"
    and "2 * length (join '', '' (map (dumps ea) xs) @ CHR '']'' # r) + 2 \<le> n"
  shows "pelems n acc (join '', '' (map (dumps ea) xs) @ CHR '']'' # r) = Some (JList (acc @ xs), r)"
  using assms
proof (induction xs arbitrary: n acc)
  case Nil
  then show ?case by simp
next
  case (Cons x xs)
  obtain k where n: "n = Suc k" using Cons.prems(3) by (cases n) auto
  have px: "parses ea x" using Cons.prems(2) by simp
  show ?case
  proof (cases xs)
    case Nil
    have "pval k (dumps ea x @ CHR '']'' # r) = Some (x, CHR '']'' # r)"
      using Cons.prems(3) n Nil by (intro parsesD [OF px]) (auto simp: json_fuel_def)
    then show ?thesis using Nil by (simp add: n pelems.simps)
  next
    case ys: (Cons y ys)
    let ?rest = "join '', '' (map (dumps ea) xs) @ CHR '']'' # r"
    have S: "join '', '' (map (dumps ea) (x # xs)) @ CHR '']'' # r = dumps ea x @ CHR '','' # CHR '' '' # ?rest"
      using ys by simp
    have p: "pval k (dumps ea x @ CHR '','' # CHR '' '' # ?rest) = Some (x, CHR '','' # CHR '' '' # ?rest)"
      using Cons.prems(3) n S by (intro parsesD [OF px]) (auto simp: json_fuel_def)
    have "skip_ws (CHR '' '' # ?rest) = ?rest"
      using skip_ws_join_dumps [of y ys xs] Cons.prems(2) ys by simp
    moreover have "pelems k (acc @ [x]) ?rest = Some (JList ((acc @ [x]) @ xs), r)"
      using Cons.prems n S ys by (intro Cons.IH) auto
    ultimately show ?thesis unfolding S n by (simp add: pelems.simps p)
  qed
qed

abbreviation member_str :: "bool \<Rightarrow> string \<times> json \<Rightarrow> string" where
  "member_str ea \<equiv> (\<lambda>(k, v). json_quote ea k @ '': '' @ dumps ea v)"

lemma skip_ws_members:
  "kvs \<noteq> [] \<Longrightarrow> skip_ws (join '', '' (map (member_str ea) kvs) @ r) = join '', '' (map (member_str ea) kvs) @ r"
  by (cases kvs; cases "tl kvs") (auto simp: json_quote_def)

lemma pmembers_step:
  assumes "parses ea v" "wf_json v" "delim r" "2 * length (member_str ea (k, v) @ r) + 2 \<le> Suc n"
  shows "pmembers (Suc n) acc (member_str ea (k, v) @ r) =
    (case skip_ws r of
       [] \<Rightarrow> None
     | d2 # u2 \<Rightarrow>
         if d2 = CHR ''}'' then Some (JObj (dset k v acc), u2)
         else if d2 = CHR '','' then pmembers n (dset k v acc) (skip_ws u2)
         else None)"
proof -
  have "pval n (dumps ea v @ r) = Some (v, r)"
    using assms by (intro parsesD) (auto simp: json_fuel_def json_quote_def)
  moreover have "pstr (concat (map (json_char ea) k) @ CHR 0x22 # CHR '':'' # CHR '' '' # dumps ea v @ r)
     = Some (k, CHR '':'' # CHR '' '' # dumps ea v @ r)"
    by (rule pstr_quoted)
  moreover have "skip_ws (dumps ea v @ r) = dumps ea v @ r"
    using assms(2) by (rule skip_ws_dumps)
  ultimately show ?thesis by (simp add: pmembers.simps json_quote_def)
qed

lemma pmembers_join:
  assumes "kvs \<noteq> []" "\<forall>p \<in> set kvs. wf_json (snd p) \<and> parses ea (snd p)" "distinct (map fst (acc @ kvs))"
    and "2 * length (join '', '' (map (member_str ea) kvs) @ CHR ''}'' # r) + 2 \<le> n"
  shows "pmembers n acc (join '', '' (map (member_str ea) kvs) @ CHR ''}'' # r) = Some (JObj (acc @ kvs), r)"
  using assms
proof (induction kvs arbitrary: n acc)
  case Nil
  then show ?case by simp
next
  case (Cons p kvs)
  obtain k v where p: "p = (k, v)" by (cases p)
  obtain m where n: "n = Suc m" using Cons.prems(4) by (cases n) auto
  have v: "parses ea v" "wf_json v" using Cons.prems(2) p by auto
  have fresh: "dset k v acc = acc @ [(k, v)]"
    using Cons.prems(3) p by (intro dset_fresh) (auto simp: dmem_def)
  show ?case
  proof (cases "kvs = []")
    case True
    then show ?thesis
      using pmembers_step [OF v, of "CHR ''}'' # r" k m acc] Cons.prems(4) p n fresh by simp
  next
    case False
    let ?rest = "join '', '' (map (member_str ea) kvs) @ CHR ''}'' # r"
    have S: "join '', '' (map (member_str ea) (p # kvs)) @ CHR ''}'' # r
        = member_str ea (k, v) @ CHR '','' # CHR '' '' # ?rest"
      using False p by (simp add: join_Cons)
    have "skip_ws (CHR '' '' # ?rest) = ?rest" using skip_ws_members [OF False] by simp
    moreover have "pmembers m (acc @ [(k, v)]) ?rest = Some (JObj ((acc @ [(k, v)]) @ kvs), r)"
      using Cons.prems n S False p by (intro Cons.IH) auto
    ultimately show ?thesis
      using pmembers_step [OF v, of "CHR '','' # CHR '' '' # ?rest" k m acc] Cons.prems(4) p n fresh S
      by simp
  qed
qed

lemma parses_JList:
  assumes wf: "\<forall>x \<in> set xs. wf_json x \<and> parses ea x"
  shows "parses ea (JList xs)"
  unfolding parses_def
proof (intro allI impI)
  fix r n
  assume d: "delim r" and f: "json_fuel (dumps ea (JList xs) @ r) \<le> n"
  obtain k where n: "n = Suc k" using f by (cases n) (auto simp: json_fuel_def)
  show "pval n (dumps ea (JList xs) @ r) = Some (JList xs, r)"
  proof (cases xs)
    case Nil
    then show ?thesis by (simp add: n pval.simps)
  next
    case (Cons y ys)
    have e: "pelems k [] (join '', '' (map (dumps ea) xs) @ CHR '']'' # r) = Some (JList ([] @ xs), r)"
      using wf f n Cons by (intro pelems_join) (auto simp: json_fuel_def)
    have s: "skip_ws (join '', '' (map (dumps ea) xs) @ CHR '']'' # r) = join '', '' (map (dumps ea) xs) @ CHR '']'' # r"
      using skip_ws_join_dumps [of y ys xs] wf Cons by simp
    obtain c t where "dumps ea y = c # t" "value_start c" using dumps_start [of y ea] wf Cons by auto
    then have "\<exists>t. join '', '' (map (dumps ea) xs) @ CHR '']'' # r = c # t" "c \<noteq> CHR '']''"
      using Cons by (cases ys; auto simp: value_start_def)+
    then show ?thesis using e s by (auto simp: n pval.simps)
  qed
qed

lemma parses_JObj:
  assumes wf: "dict_ok kvs" "\<forall>p \<in> set kvs. wf_json (snd p) \<and> parses ea (snd p)"
  shows "parses ea (JObj kvs)"
  unfolding parses_def
proof (intro allI impI)
  fix r n
  assume d: "delim r" and f: "json_fuel (dumps ea (JObj kvs) @ r) \<le> n"
  obtain k where n: "n = Suc k" using f by (cases n) (auto simp: json_fuel_def)
  show "pval n (dumps ea (JObj kvs) @ r) = Some (JObj kvs, r)"
  proof (cases kvs)
    case Nil
    then show ?thesis by (simp add: n pval.simps)
  next
    case (Cons y ys)
    have e: "pmembers k [] (join '', '' (map (member_str ea) kvs) @ CHR ''}'' # r) = Some (JObj ([] @ kvs), r)"
      using wf f n Cons by (intro pmembers_join) (auto simp: json_fuel_def dict_ok_def)
    have s: "skip_ws (join '', '' (map (member_str ea) kvs) @ CHR ''}'' # r) = join '', '' (map (member_str ea) kvs) @ CHR ''}'' # r"
      using skip_ws_members [of kvs] Cons by simp
    have "\<exists>t. join '', '' (map (member_str ea) kvs) @ CHR ''}'' # r = CHR 0x22 # t"
      using Cons by (cases y; cases ys) (auto simp: json_quote_def)
    then show ?thesis using e s by (auto simp: n pval.simps)
  qed
qed

lemma parses_JInt: "parses ea (JInt i)"
  unfolding parses_def
proof (intro allI impI)
  fix r n
  assume d: "delim r" and f: "json_fuel (dumps ea (JInt i) @ r) \<le> n"
  obtain k where n: "n = Suc k" using f by (cases n) (auto simp: json_fuel_def)
  obtain c t where c: "str_int i = c # t" "is_digit c \<or> c = CHR ''-''"
    using str_nat_digits [of "nat i"] by (cases "i < 0"; cases "str_nat (nat i)") (auto simp: str_int_def)
  then have "c \<noteq> CHR 0x22" "c \<noteq> CHR ''[''" "c \<noteq> CHR ''{''" by (auto simp: is_digit_def)
  then show "pval n (dumps ea (JInt i) @ r) = Some (JInt i, r)"
    using patom_str_int [OF d, of i] c by (simp add: n pval.simps)
qed

lemma parses_JBool: "parses ea (JBool b)"
proof -
  have "pval (Suc k) (dumps ea (JBool b) @ r) = Some (JBool b, r)" for k r
    by (cases b) (simp_all add: pval.simps patom_def keyword_def)
  then show ?thesis unfolding parses_def json_fuel_def
    by (metis Suc_eq_plus1 Suc_le_D)
qed

lemma parses_wf: "wf_json j \<Longrightarrow> parses ea j"
proof (induction j rule: wf_json.induct)
  case (2 xs)
  then show ?case by (intro parses_JList) auto
next
  case (3 kvs)
  then show ?case by (intro parses_JObj) auto
qed (simp_all add: parses_JBool parses_JInt, auto simp: parses_def json_fuel_def pval.simps json_quote_def pstr_quoted patom_def keyword_def
     split: nat.splits dest!: Suc_le_D)

lemma loads_dumps: "wf_json j \<Longrightarrow> loads (dumps ea j) = Some j"
proof -
  assume w: "wf_json j"
  have "pval (json_fuel (dumps ea j)) (dumps ea j) = Some (j, [])"
    using parsesD [OF parses_wf [OF w], of "[]" ea] by simp
  moreover have "skip_ws (dumps ea j) = dumps ea j" using skip_ws_dumps [OF w, of ea "[]"] by simp
  ultimately show ?thesis by (simp add: loads_def)
qed

section \<open>Where an object starts\<close>

lemma patom_no_object: "patom s \<noteq> Some (JObj kvs, r)"
  by (auto simp: patom_def keyword_def pnum_def split: option.splits if_splits prod.splits list.splits)

lemma pelems_no_object: "pelems n acc s \<noteq> Some (JObj kvs, r)"
proof (induction n arbitrary: acc s)
  case (Suc n)
  then show ?case by (auto simp: pelems.simps split: option.splits list.splits if_splits)
qed (simp add: pelems.simps)

lemma pval_object_start: "pval n s = Some (JObj kvs, r) \<Longrightarrow> \<exists>t. s = CHR ''{'' # t"
  by (cases n) (auto simp: pval.simps pelems_no_object patom_no_object split: list.splits if_splits)

lemma loads_object_start: "loads s = Some (JObj kvs) \<Longrightarrow> \<exists>t. skip_ws s = CHR ''{'' # t"
  by (auto simp: loads_def Let_def dest: pval_object_start split: option.splits prod.splits if_splits)

end
