(* ===== verification/Effects.thy ===== *)
theory Effects
  imports Json
begin

text \<open>
  Effects of the Python code.  A coroutine is a function from a state to a result
  and a new state; the result is an exception or a value, and the state survives an
  exception, as Python's objects do.  \<open>wp m Q E s\<close> says what must hold of \<open>s\<close> so
  that running \<open>m\<close> ends in \<open>Q\<close> with a value or in \<open>E\<close> with an exception; its
  equations (collection \<open>wp_simps\<close>) turn a property of a method into conditions on
  the calls it makes.
\<close>

section \<open>Exceptions\<close>

datatype exn =
    RuntimeError string
  | ValueError string
  | JSONDecodeError string
  | UnicodeDecodeError string
  | KeyError string
  | IndexError string
  | TypeError string
  | AttributeError string
  | UnboundLocalError string
  | ZeroDivisionError string
  | NotImplementedError string
  | TimeoutError string
  | ImportError string
  | FileNotFoundError string
  | OSError string
  | RpcError string \<comment> \<open>\<open>grpc.aio.AioRpcError\<close>, with its details\<close>
  | WebSocketDisconnect

text \<open>\<open>str(e)\<close>; a \<open>KeyError\<close> shows the key in quotes.\<close>

fun exn_str :: "exn \<Rightarrow> string" where
  "exn_str (RuntimeError m) = m"
| "exn_str (ValueError m) = m"
| "exn_str (JSONDecodeError m) = m"
| "exn_str (UnicodeDecodeError m) = m"
| "exn_str (KeyError k) = [CHR 0x27] @ k @ [CHR 0x27]"
| "exn_str (IndexError m) = m"
| "exn_str (TypeError m) = m"
| "exn_str (AttributeError m) = m"
| "exn_str (UnboundLocalError m) = m"
| "exn_str (ZeroDivisionError m) = m"
| "exn_str (NotImplementedError m) = m"
| "exn_str (TimeoutError m) = m"
| "exn_str (ImportError m) = m"
| "exn_str (FileNotFoundError m) = m"
| "exn_str (OSError m) = m"
| "exn_str (RpcError m) = m"
| "exn_str WebSocketDisconnect = []"

text \<open>\<open>except ValueError\<close> also catches its subclasses.\<close>

fun is_ValueError :: "exn \<Rightarrow> bool" where
  "is_ValueError (ValueError _) = True"
| "is_ValueError (JSONDecodeError _) = True"
| "is_ValueError (UnicodeDecodeError _) = True"
| "is_ValueError _ = False"

fun is_JSONDecodeError :: "exn \<Rightarrow> bool" where
  "is_JSONDecodeError (JSONDecodeError _) = True" | "is_JSONDecodeError _ = False"

fun is_UnicodeDecodeError :: "exn \<Rightarrow> bool" where
  "is_UnicodeDecodeError (UnicodeDecodeError _) = True" | "is_UnicodeDecodeError _ = False"

fun is_TypeError :: "exn \<Rightarrow> bool" where
  "is_TypeError (TypeError _) = True" | "is_TypeError _ = False"

fun is_RuntimeError :: "exn \<Rightarrow> bool" where
  "is_RuntimeError (RuntimeError _) = True"
| "is_RuntimeError (NotImplementedError _) = True"
| "is_RuntimeError _ = False"

section \<open>The state-and-exception monad\<close>

type_synonym ('s, 'a) eff = "'s \<Rightarrow> (exn + 'a) \<times> 's"

definition ret :: "'a \<Rightarrow> ('s, 'a) eff" where
  "ret v s = (Inr v, s)"

definition throw :: "exn \<Rightarrow> ('s, 'a) eff" where
  "throw e s = (Inl e, s)"

definition bnd :: "('s, 'a) eff \<Rightarrow> ('a \<Rightarrow> ('s, 'b) eff) \<Rightarrow> ('s, 'b) eff" where
  "bnd m f s = (case m s of (Inl e, s') \<Rightarrow> (Inl e, s') | (Inr v, s') \<Rightarrow> f v s')"

definition seq :: "('s, 'a) eff \<Rightarrow> ('s, 'b) eff \<Rightarrow> ('s, 'b) eff" where
  "seq m k = bnd m (\<lambda>_. k)"

text \<open>\<open>try: m  except Exception as e: h(e)\<close>; \<open>tryp\<close> catches only some exceptions.\<close>

definition tryc :: "('s, 'a) eff \<Rightarrow> (exn \<Rightarrow> ('s, 'a) eff) \<Rightarrow> ('s, 'a) eff" where
  "tryc m h s = (case m s of (Inl e, s') \<Rightarrow> h e s' | (Inr v, s') \<Rightarrow> (Inr v, s'))"

definition tryp :: "(exn \<Rightarrow> bool) \<Rightarrow> ('s, 'a) eff \<Rightarrow> (exn \<Rightarrow> ('s, 'a) eff) \<Rightarrow> ('s, 'a) eff" where
  "tryp p m h = tryc m (\<lambda>e. if p e then h e else throw e)"

text \<open>\<open>try: m  finally: k\<close>, for a \<open>k\<close> that may raise itself.\<close>

definition finallyc :: "('s, 'a) eff \<Rightarrow> ('s, 'b) eff \<Rightarrow> ('s, 'a) eff" where
  "finallyc m k s = (case m s of
     (Inl e, s') \<Rightarrow> (case k s' of (Inl e', s'') \<Rightarrow> (Inl e', s'') | (Inr _, s'') \<Rightarrow> (Inl e, s''))
   | (Inr v, s') \<Rightarrow> (case k s' of (Inl e', s'') \<Rightarrow> (Inl e', s'') | (Inr _, s'') \<Rightarrow> (Inr v, s'')))"

definition gets :: "('s \<Rightarrow> 'a) \<Rightarrow> ('s, 'a) eff" where
  "gets f s = (Inr (f s), s)"

definition modify :: "('s \<Rightarrow> 's) \<Rightarrow> ('s, unit) eff" where
  "modify f s = (Inr (), f s)"

definition of_opt :: "exn \<Rightarrow> 'a option \<Rightarrow> ('s, 'a) eff" where
  "of_opt e x = (case x of None \<Rightarrow> throw e | Some v \<Rightarrow> ret v)"

definition whenc :: "bool \<Rightarrow> ('s, unit) eff \<Rightarrow> ('s, unit) eff" where
  "whenc b m = (if b then m else ret ())"

fun foreach :: "('x \<Rightarrow> ('s, unit) eff) \<Rightarrow> 'x list \<Rightarrow> ('s, unit) eff" where
  "foreach f [] = ret ()"
| "foreach f (x # xs) = seq (f x) (foreach f xs)"

fun mapeff :: "('x \<Rightarrow> ('s, 'y) eff) \<Rightarrow> 'x list \<Rightarrow> ('s, 'y list) eff" where
  "mapeff f [] = ret []"
| "mapeff f (x # xs) = bnd (f x) (\<lambda>y. bnd (mapeff f xs) (\<lambda>ys. ret (y # ys)))"

definition result :: "('s, 'a) eff \<Rightarrow> 's \<Rightarrow> exn + 'a" where
  "result m s = fst (m s)"

definition final :: "('s, 'a) eff \<Rightarrow> 's \<Rightarrow> 's" where
  "final m s = snd (m s)"

lemmas eff_defs = ret_def throw_def bnd_def seq_def tryc_def tryp_def finallyc_def gets_def
  modify_def of_opt_def whenc_def result_def final_def

section \<open>Weakest preconditions\<close>

definition wp :: "('s, 'a) eff \<Rightarrow> ('a \<Rightarrow> 's \<Rightarrow> bool) \<Rightarrow> (exn \<Rightarrow> 's \<Rightarrow> bool) \<Rightarrow> 's \<Rightarrow> bool" where
  "wp m Q E s = (case m s of (Inl e, s') \<Rightarrow> E e s' | (Inr v, s') \<Rightarrow> Q v s')"

text \<open>The equations are between functions of the state, so that they also apply under binders.\<close>

lemma wp_ret [wp_simps]: "wp (ret v) Q E = Q v"
  by (simp add: wp_def ret_def fun_eq_iff)

lemma wp_throw [wp_simps]: "wp (throw e) Q E = E e"
  by (simp add: wp_def throw_def fun_eq_iff)

lemma wp_bnd [wp_simps]: "wp (bnd m f) Q E = wp m (\<lambda>v. wp (f v) Q E) E"
  by (auto simp: wp_def bnd_def fun_eq_iff split: prod.splits sum.splits)

lemma wp_seq [wp_simps]: "wp (seq m k) Q E = wp m (\<lambda>_. wp k Q E) E"
  by (simp add: seq_def wp_bnd)

lemma wp_tryc [wp_simps]: "wp (tryc m h) Q E = wp m Q (\<lambda>e. wp (h e) Q E)"
  by (auto simp: wp_def tryc_def fun_eq_iff split: prod.splits sum.splits)

lemma wp_tryp [wp_simps]: "wp (tryp p m h) Q E = wp m Q (\<lambda>e. if p e then wp (h e) Q E else E e)"
  by (auto simp: wp_def tryp_def tryc_def throw_def fun_eq_iff split: prod.splits sum.splits)

lemma wp_finallyc [wp_simps]:
  "wp (finallyc m k) Q E = wp m (\<lambda>v. wp k (\<lambda>_. Q v) E) (\<lambda>e. wp k (\<lambda>_. E e) E)"
  by (auto simp: wp_def finallyc_def fun_eq_iff split: prod.splits sum.splits)

lemma wp_gets [wp_simps]: "wp (gets f) Q E = (\<lambda>s. Q (f s) s)"
  by (simp add: wp_def gets_def fun_eq_iff)

lemma wp_modify [wp_simps]: "wp (modify f) Q E = (\<lambda>s. Q () (f s))"
  by (simp add: wp_def modify_def fun_eq_iff)

lemma wp_of_opt [wp_simps]: "wp (of_opt e x) Q E = (case x of None \<Rightarrow> E e | Some v \<Rightarrow> Q v)"
  by (simp add: of_opt_def wp_ret wp_throw split: option.splits)

lemma wp_whenc [wp_simps]: "wp (whenc b m) Q E = (if b then wp m Q E else Q ())"
  by (simp add: whenc_def wp_ret)

lemma wp_if [wp_simps]: "wp (if b then m else k) Q E = (if b then wp m Q E else wp k Q E)"
  by simp

lemma wp_case_option [wp_simps]:
  "wp (case x of None \<Rightarrow> m | Some v \<Rightarrow> f v) Q E = (case x of None \<Rightarrow> wp m Q E | Some v \<Rightarrow> wp (f v) Q E)"
  by (simp split: option.splits)

lemma wp_case_prod [wp_simps]:
  "wp (case p of (a, b) \<Rightarrow> f a b) Q E = (case p of (a, b) \<Rightarrow> wp (f a b) Q E)"
  by (simp split: prod.splits)

lemma wp_mono:
  "wp m Q E s \<Longrightarrow> (\<And>v t. Q v t \<Longrightarrow> Q' v t) \<Longrightarrow> (\<And>e t. E e t \<Longrightarrow> E' e t) \<Longrightarrow> wp m Q' E' s"
  by (auto simp: wp_def split: prod.splits sum.splits)

text \<open>Loops: an invariant of the remaining items that each round keeps.\<close>

lemma wp_foreach:
  assumes "I s" and "\<And>x t. x \<in> set xs \<Longrightarrow> I t \<Longrightarrow> wp (f x) (\<lambda>_. I) E t"
  shows "wp (foreach f xs) (\<lambda>_. I) E s"
  using assms
proof (induction xs arbitrary: s)
  case Nil
  then show ?case by (simp add: wp_ret)
next
  case (Cons x xs)
  have "wp (f x) (\<lambda>_. I) E s" using Cons.prems by simp
  then show ?case unfolding foreach.simps wp_seq
    by (rule wp_mono) (use Cons in auto)
qed

lemma wp_conj: "wp m Q E s \<Longrightarrow> wp m Q' E' s \<Longrightarrow> wp m (\<lambda>v t. Q v t \<and> Q' v t) (\<lambda>e t. E e t \<and> E' e t) s"
  by (auto simp: wp_def split: prod.splits sum.splits)

lemma wp_always: "(\<And>v t. Q v t) \<Longrightarrow> (\<And>e t. E e t) \<Longrightarrow> wp m Q E s"
  by (auto simp: wp_def split: prod.splits sum.splits)

lemma wp_skip: "(\<And>v t. Q v t) \<Longrightarrow> wp m Q (\<lambda>_ _. True) s"
  by (rule wp_always) simp_all

lemma wp_total: "wp m Q (\<lambda>_ _. False) s \<Longrightarrow> \<exists>v s'. m s = (Inr v, s') \<and> Q v s'"
  by (auto simp: wp_def split: prod.splits sum.splits)

lemma wp_result: "wp m (\<lambda>v t. P (Inr v) t) (\<lambda>e t. P (Inl e) t) s \<longleftrightarrow> P (result m s) (final m s)"
  by (auto simp: wp_def result_def final_def split: prod.splits sum.splits)

section \<open>What an effect keeps\<close>

text \<open>\<open>keeps f m\<close>: running \<open>m\<close> does not change \<open>f\<close> of the state, whether or not it raises.\<close>

definition keeps :: "('s \<Rightarrow> 'x) \<Rightarrow> ('s, 'a) eff \<Rightarrow> bool" where
  "keeps f m \<longleftrightarrow> (\<forall>s. f (snd (m s)) = f s)"

lemma keepsD: "keeps f m \<Longrightarrow> f (final m s) = f s"
  by (simp add: keeps_def final_def)

lemma keeps_snd: "keeps f m \<Longrightarrow> m s = (r, t) \<Longrightarrow> f t = f s"
  unfolding keeps_def by (metis snd_conv)

lemma keeps_ret [keeps_rules]: "keeps f (ret v)"
  by (simp add: keeps_def ret_def)

lemma keeps_throw [keeps_rules]: "keeps f (throw e)"
  by (simp add: keeps_def throw_def)

lemma keeps_gets [keeps_rules]: "keeps f (gets g)"
  by (simp add: keeps_def gets_def)

lemma keeps_of_opt [keeps_rules]: "keeps f (of_opt e x)"
  by (simp add: of_opt_def keeps_rules split: option.splits)

lemma keeps_bnd [keeps_rules]: "keeps f m \<Longrightarrow> (\<And>v. keeps f (k v)) \<Longrightarrow> keeps f (bnd m k)"
  by (auto simp: keeps_def bnd_def split: prod.splits sum.splits) (metis snd_conv)+

lemma keeps_seq [keeps_rules]: "keeps f m \<Longrightarrow> keeps f k \<Longrightarrow> keeps f (seq m k)"
  by (simp add: seq_def keeps_bnd)

lemma keeps_tryc [keeps_rules]: "keeps f m \<Longrightarrow> (\<And>e. keeps f (h e)) \<Longrightarrow> keeps f (tryc m h)"
  by (auto simp: keeps_def tryc_def split: prod.splits sum.splits) (metis snd_conv)+

lemma keeps_if [keeps_rules]: "(b \<Longrightarrow> keeps f m) \<Longrightarrow> (\<not> b \<Longrightarrow> keeps f k) \<Longrightarrow> keeps f (if b then m else k)"
  by simp

lemma keeps_tryp [keeps_rules]: "keeps f m \<Longrightarrow> (\<And>e. keeps f (h e)) \<Longrightarrow> keeps f (tryp p m h)"
  by (simp add: tryp_def keeps_rules)

lemma keeps_whenc [keeps_rules]: "keeps f m \<Longrightarrow> keeps f (whenc b m)"
  by (simp add: whenc_def keeps_rules)

lemma keeps_foreach [keeps_rules]: "(\<And>x. keeps f (g x)) \<Longrightarrow> keeps f (foreach g xs)"
  by (induction xs) (simp_all add: keeps_rules)

lemma keeps_mapeff [keeps_rules]: "(\<And>x. keeps f (g x)) \<Longrightarrow> keeps f (mapeff g xs)"
  by (induction xs) (simp_all add: keeps_rules)

lemma keeps_case_option [keeps_rules]:
  "(x = None \<Longrightarrow> keeps f m) \<Longrightarrow> (\<And>v. x = Some v \<Longrightarrow> keeps f (g v)) \<Longrightarrow> keeps f (case x of None \<Rightarrow> m | Some v \<Rightarrow> g v)"
  by (cases x) simp_all

lemma keeps_case_prod [keeps_rules]:
  "(\<And>a b. keeps f (g a b)) \<Longrightarrow> keeps f (case p of (a, b) \<Rightarrow> g a b)"
  by (cases p) simp

lemma keeps_case_sum [keeps_rules]:
  "(\<And>a. keeps f (g a)) \<Longrightarrow> (\<And>b. keeps f (h b)) \<Longrightarrow> keeps f (case x of Inl a \<Rightarrow> g a | Inr b \<Rightarrow> h b)"
  by (cases x) simp_all

lemma keeps_modify: "(\<And>s. f (g s) = f s) \<Longrightarrow> keeps f (modify g)"
  by (simp add: keeps_def modify_def)

lemma wp_keeps:
  "keeps f m \<Longrightarrow> (\<And>v t. f t = f s \<Longrightarrow> Q v t) \<Longrightarrow> (\<And>e t. f t = f s \<Longrightarrow> E e t) \<Longrightarrow> wp m Q E s"
  unfolding wp_def by (auto split: prod.splits sum.splits dest: keeps_snd)

lemma wp_and_keeps:
  "keeps f m \<Longrightarrow> wp m Q E s \<Longrightarrow> wp m (\<lambda>v t. f t = f s \<and> Q v t) (\<lambda>e t. f t = f s \<and> E e t) s"
  unfolding wp_def by (auto split: prod.splits sum.splits dest: keeps_snd)

lemma wp_returns: "wp m Q E s \<Longrightarrow> result m s = Inr v \<Longrightarrow> Q v (final m s)"
  by (auto simp: wp_def result_def final_def split: prod.splits sum.splits)

end
