(* ===== verification/Types.thy ===== *)
theory Types
  imports Effects
begin

text \<open>
  The dataclasses of \<open>types.py\<close>, the name and enum converters of \<open>client.py\<close>
  and \<open>agent.py\<close>, and the protobuf requests the SDK sends.  Enum values are
  the integers of \<open>api/proto/agent.proto\<close>.
\<close>

section \<open>Dataclasses\<close>

type_synonym params = "(string, string) dict"

record agent_config =
  ac_name :: string
  ac_system_prompt :: string
  ac_model :: string
  ac_metadata :: params

record task =
  tk_task_id :: string
  tk_description :: string
  tk_params :: params
  tk_priority :: string
  tk_timeout_seconds :: int
  tk_context :: bytes
  tk_parent_task_id :: string

record task_result =
  tr_exit_code :: int
  tr_output :: string
  tr_artifacts :: params
  tr_metadata :: params

record message =
  ms_message_id :: string
  ms_from_pid :: pid
  ms_from_name :: string
  ms_relation :: string
  ms_type :: string
  ms_priority :: string
  ms_payload :: bytes
  ms_timestamp :: int
  ms_requires_ack :: bool
  ms_reply_to :: string

record message_ack =
  ma_message_id :: string
  ma_status :: int
  ma_reply :: string

record resource_usage =
  ru_tokens_consumed :: int
  ru_tokens_remaining :: int
  ru_children_active :: int
  ru_children_max :: int
  ru_context_usage_percent :: rat
  ru_uptime_seconds :: int

definition AgentConfig :: agent_config where
  "AgentConfig = \<lparr>ac_name = [], ac_system_prompt = [], ac_model = [], ac_metadata = []\<rparr>"

definition TaskResult :: "int \<Rightarrow> string \<Rightarrow> params \<Rightarrow> params \<Rightarrow> task_result" where
  "TaskResult ec out arts meta =
     \<lparr>tr_exit_code = ec, tr_output = out, tr_artifacts = arts, tr_metadata = meta\<rparr>"

definition ACK_ACCEPTED :: int where "ACK_ACCEPTED = 0"
definition ACK_QUEUED :: int where "ACK_QUEUED = 1"
definition ACK_REJECTED :: int where "ACK_REJECTED = 2"
definition ACK_ESCALATE :: int where "ACK_ESCALATE = 3"

definition MessageAck :: "int \<Rightarrow> message_ack" where
  "MessageAck st = \<lparr>ma_message_id = [], ma_status = st, ma_reply = []\<rparr>"

section \<open>Names and enums\<close>

definition ROLE_NAMES :: "(int, string) dict" where
  "ROLE_NAMES = [(0, ''kernel''), (1, ''daemon''), (2, ''agent''), (3, ''architect''),
     (4, ''lead''), (5, ''worker''), (6, ''task'')]"

definition role_from_proto :: "int \<Rightarrow> string" where
  "role_from_proto v = dget ROLE_NAMES v ''unknown''"

definition shutdown_reason :: "int \<Rightarrow> string" where
  "shutdown_reason v = dget [(0, ''normal''), (1, ''parent_died''), (2, ''budget_exceeded''),
     (3, ''migration''), (4, ''user_request'')] v ''unknown''"

definition ROLE_MAP :: "(string, int) dict" where
  "ROLE_MAP = [(''kernel'', 0), (''daemon'', 1), (''agent'', 2), (''architect'', 3),
     (''lead'', 4), (''worker'', 5), (''task'', 6)]"

definition COG_MAP :: "(string, int) dict" where
  "COG_MAP = [(''strategic'', 0), (''tactical'', 1), (''operational'', 2)]"

definition PRIORITY_MAP :: "(string, int) dict" where
  "PRIORITY_MAP = [(''critical'', 0), (''high'', 1), (''normal'', 2), (''low'', 3)]"

definition role_to_proto :: "string \<Rightarrow> int" where
  "role_to_proto r = dget ROLE_MAP r 6"

definition cog_to_proto :: "string \<Rightarrow> int" where
  "cog_to_proto c = dget COG_MAP c 2"

definition priority_to_proto :: "string \<Rightarrow> int" where
  "priority_to_proto p = dget PRIORITY_MAP p 2"

definition runtime_to_proto :: "string \<Rightarrow> int" where
  "runtime_to_proto r = dget [(''python'', 0), (''claw'', 1), (''custom'', 2)] r 0"

definition severity_to_proto :: "string \<Rightarrow> int" where
  "severity_to_proto s = dget [(''info'', 0), (''warning'', 1), (''error'', 2), (''critical'', 3)] s 1"

definition level_to_proto :: "string \<Rightarrow> int" where
  "level_to_proto l = dget [(''debug'', 0), (''info'', 1), (''warn'', 2), (''error'', 3)] l 1"

text \<open>
  A role survives the trip to the wire and back: the converter of \<open>client.py\<close> followed
  by the one of \<open>agent.py\<close> gives back every known role name; an unknown name becomes
  \<open>task\<close>, the role with the fewest rights.
\<close>

theorem role_round_trip:
  "role_from_proto (role_to_proto r) = (if dmem ROLE_MAP r then r else ''task'')"
  by (auto simp: role_from_proto_def role_to_proto_def ROLE_MAP_def ROLE_NAMES_def dmem_def)

lemma role_to_proto_range: "0 \<le> role_to_proto r \<and> role_to_proto r \<le> 6"
  by (simp add: role_to_proto_def ROLE_MAP_def)

section \<open>Requests\<close>

record spawn_request =
  sq_name :: string
  sq_role :: int
  sq_cognitive_tier :: int
  sq_model :: string
  sq_system_prompt :: string
  sq_tools :: "string list"
  sq_limits :: "(string, int) dict option"
  sq_initial_task :: string
  sq_runtime_type :: int
  sq_runtime_image :: string

record send_request =
  mq_to_pid :: pid
  mq_to_queue :: string
  mq_type :: string
  mq_priority :: int
  mq_payload :: bytes
  mq_requires_ack :: bool
  mq_ttl_seconds :: int
  mq_reply_to :: string

record store_request =
  st_key :: string
  st_content :: bytes
  st_content_type :: string
  st_visibility :: int

record exec_request =
  xq_target_pid :: pid
  xq_description :: string
  xq_params :: params
  xq_timeout_seconds :: int

record cron_request =
  cq_name :: string
  cq_cron_expression :: string
  cq_action :: string
  cq_target_pid :: pid
  cq_execute_description :: string
  cq_execute_params :: params

datatype request =
    SpawnRequest spawn_request
  | KillRequest pid bool
  | ProcessInfoRequest pid
  | ListChildrenRequest bool
  | ExecuteRequest exec_request
  | ExecuteOnRequest string exec_request
  | SendMessageRequest send_request
  | StoreArtifactRequest store_request
  | GetArtifactRequest string string
  | ListArtifactsRequest string
  | ResourceUsageRequest
  | ResourceRequest string int
  | EscalateRequest string int bool
  | LogRequest int string params
  | MetricRequest string rat params
  | ListSiblingsRequest
  | WaitChildRequest pid int
  | AddCronRequest cron_request
  | RemoveCronRequest string
  | ListCronRequest
  | ListInboxRequest pid

text \<open>
  What the program does to its surroundings, in order: an RPC with its metadata
  and deadline, a syscall on the Execute stream with its call id, a progress message, an HTTP request
  to the LLM service with its URL, bearer key and JSON body, a web request with its URL and its
  headers, a reading of the clock, a fresh identifier,
  and the stop of the agent's own server.
\<close>

datatype call =
    Rpc "(string \<times> string) list" "int option" request
  | Sys string request
  | Progress string rat
  | Http string string json
  | Fetch string "(string \<times> string) list"
  | Clock
  | Uuid
  | StopServer

section \<open>Responses\<close>

record proc_info =
  pi_pid :: pid
  pi_ppid :: pid
  pi_name :: string
  pi_user :: string
  pi_role :: int
  pi_cognitive_tier :: int
  pi_model :: string
  pi_state :: int
  pi_vps :: string
  pi_tokens_consumed :: int
  pi_context_usage_percent :: rat
  pi_child_count :: int
  pi_started_at :: int
  pi_current_task_id :: string
  pi_runtime_addr :: string

record sibling =
  sb_pid :: pid
  sb_name :: string
  sb_role :: string
  sb_state :: string

record artifact_meta =
  am_artifact_id :: string
  am_key :: string
  am_content_type :: string
  am_size_bytes :: int
  am_stored_by_pid :: pid
  am_stored_at :: int

record cron_entry =
  ce_id :: string
  ce_name :: string
  ce_cron_expression :: string
  ce_action :: string
  ce_target_pid :: pid
  ce_execute_description :: string
  ce_execute_params :: params
  ce_enabled :: bool
  ce_last_run_ms :: int
  ce_next_run_ms :: int
  ce_last_exit_code :: int
  ce_last_output :: string
  ce_last_duration_ms :: int

text \<open>A message waiting in the kernel's inbox of a process.\<close>

record inbox_message =
  im_message_id :: string
  im_from_pid :: pid
  im_from_name :: string
  im_type :: string
  im_priority :: int
  im_payload :: bytes
  im_requires_ack :: bool
  im_reply_to :: string

text \<open>
  The surroundings.  Each field answers a call of one kind; its argument is the
  whole history of calls, whose last element is the call being answered, so an
  answer may depend on everything the program has done.  Nothing is assumed about
  the answers unless a theorem says so.  The triples are (flag, error, value); an HTTP
  answer is (success, status code, body), or an exception when there is no answer; a web answer is
  (success, status code, reason, content type, body).
\<close>

record env =
  e_spawn :: "call list \<Rightarrow> exn + (bool \<times> string \<times> pid)"
  e_kill :: "call list \<Rightarrow> exn + (bool \<times> string \<times> pid list)"
  e_info :: "call list \<Rightarrow> exn + proc_info"
  e_children :: "call list \<Rightarrow> exn + proc_info list"
  e_exec :: "call list \<Rightarrow> exn + (bool \<times> string \<times> task_result)"
  e_send :: "call list \<Rightarrow> exn + (bool \<times> string \<times> string)"
  e_store :: "call list \<Rightarrow> exn + (bool \<times> string \<times> string)"
  e_get :: "call list \<Rightarrow> exn + (bool \<times> string \<times> bytes)"
  e_artifacts :: "call list \<Rightarrow> exn + artifact_meta list"
  e_usage :: "call list \<Rightarrow> exn + resource_usage"
  e_resource :: "call list \<Rightarrow> exn + (bool \<times> int \<times> string)"
  e_escalate :: "call list \<Rightarrow> exn + string"
  e_log :: "call list \<Rightarrow> exn + unit"
  e_metric :: "call list \<Rightarrow> exn + unit"
  e_siblings :: "call list \<Rightarrow> exn + sibling list"
  e_wait :: "call list \<Rightarrow> exn + (bool \<times> string \<times> (pid \<times> int \<times> string))"
  e_add_cron :: "call list \<Rightarrow> exn + (string \<times> string)"
  e_remove_cron :: "call list \<Rightarrow> exn + (string \<times> bool)"
  e_list_cron :: "call list \<Rightarrow> exn + cron_entry list"
  e_inbox :: "call list \<Rightarrow> exn + (inbox_message list \<times> int)"
  e_http :: "call list \<Rightarrow> exn + (bool \<times> int \<times> bytes)"
  e_fetch :: "call list \<Rightarrow> exn + (bool \<times> int \<times> string \<times> string \<times> bytes)"
  e_time :: "call list \<Rightarrow> rat"
  e_uuid :: "call list \<Rightarrow> string"

text \<open>A concrete environment, where every call succeeds; examples change single fields of it.\<close>

definition example_proc :: "pid \<Rightarrow> pid \<Rightarrow> proc_info" where
  "example_proc p pp = \<lparr>pi_pid = p, pi_ppid = pp, pi_name = ''p'', pi_user = ''u'', pi_role = 5,
     pi_cognitive_tier = 2, pi_model = [], pi_state = 1, pi_vps = [], pi_tokens_consumed = 0,
     pi_context_usage_percent = 0, pi_child_count = 0, pi_started_at = 0, pi_current_task_id = [],
     pi_runtime_addr = []\<rparr>"

definition example_env :: env where
  "example_env = \<lparr>e_spawn = \<lambda>_. Inr (True, [], 7), e_kill = \<lambda>_. Inr (True, [], [7]),
     e_info = \<lambda>_. Inr (example_proc 1 0), e_children = \<lambda>_. Inr [],
     e_exec = \<lambda>_. Inr (True, [], TaskResult 0 ''done'' [] []), e_send = \<lambda>_. Inr (True, [], ''m''),
     e_store = \<lambda>_. Inr (True, [], ''a''), e_get = \<lambda>_. Inr (True, [], []), e_artifacts = \<lambda>_. Inr [],
     e_usage = \<lambda>_. Inr \<lparr>ru_tokens_consumed = 0, ru_tokens_remaining = 0, ru_children_active = 0,
       ru_children_max = 0, ru_context_usage_percent = 0, ru_uptime_seconds = 0\<rparr>,
     e_resource = \<lambda>_. Inr (True, 0, []), e_escalate = \<lambda>_. Inr [], e_log = \<lambda>_. Inr (),
     e_metric = \<lambda>_. Inr (), e_siblings = \<lambda>_. Inr [], e_wait = \<lambda>_. Inr (True, [], (7, 0, [])),
     e_add_cron = \<lambda>_. Inr ([], ''c''), e_remove_cron = \<lambda>_. Inr ([], True), e_list_cron = \<lambda>_. Inr [],
     e_inbox = \<lambda>_. Inr ([], 0),
     e_http = \<lambda>_. Inr (True, 200, ''{}''), e_fetch = \<lambda>_. Inr (True, 200, ''OK'', ''text/plain'', ''hi''), e_time = \<lambda>_. 0, e_uuid = \<lambda>_. ''id''\<rparr>"

text \<open>The part of every state that records the calls made so far.\<close>

record world =
  trace :: "call list"

definition emit :: "call \<Rightarrow> 'z world_scheme \<Rightarrow> 'z world_scheme" where
  "emit c s = s\<lparr>trace := trace s @ [c]\<rparr>"

definition ask_env :: "(call list \<Rightarrow> exn + 'a) \<Rightarrow> call \<Rightarrow> ('z world_scheme, 'a) eff" where
  "ask_env f c s = (f (trace (emit c s)), emit c s)"

definition time_time :: "env \<Rightarrow> ('z world_scheme, rat) eff" where
  "time_time env s = (Inr (e_time env (trace (emit Clock s))), emit Clock s)"

definition uuid4 :: "env \<Rightarrow> ('z world_scheme, string) eff" where
  "uuid4 env s = (Inr (e_uuid env (trace (emit Uuid s))), emit Uuid s)"

lemma trace_emit [simp]: "trace (emit c s) = trace s @ [c]"
  by (simp add: emit_def)

lemma wp_ask_env [wp_simps]:
  "wp (ask_env f c) Q E = (\<lambda>s. case f (trace s @ [c]) of Inl e \<Rightarrow> E e (emit c s) | Inr v \<Rightarrow> Q v (emit c s))"
  by (simp add: wp_def ask_env_def fun_eq_iff split: sum.splits)

lemma wp_time_time [wp_simps]:
  "wp (time_time env) Q E = (\<lambda>s. Q (e_time env (trace s @ [Clock])) (emit Clock s))"
  by (simp add: wp_def time_time_def fun_eq_iff)

lemma wp_uuid4 [wp_simps]:
  "wp (uuid4 env) Q E = (\<lambda>s. Q (e_uuid env (trace s @ [Uuid])) (emit Uuid s))"
  by (simp add: wp_def uuid4_def fun_eq_iff)

text \<open>A part of the state that does not depend on the history is kept by every call.\<close>

definition traceless :: "('z world_scheme \<Rightarrow> 'x) \<Rightarrow> bool" where
  "traceless f \<longleftrightarrow> (\<forall>c s. f (emit c s) = f s)"

text \<open>A view of the history that ignores a call is kept by making it.\<close>

definition ignores :: "('z world_scheme \<Rightarrow> 'x) \<Rightarrow> call \<Rightarrow> bool" where
  "ignores f c \<longleftrightarrow> (\<forall>s. f (emit c s) = f s)"

lemma keeps_ignored:
  "ignores f c \<Longrightarrow> keeps f (ask_env a c)" "ignores f Clock \<Longrightarrow> keeps f (time_time env)"
  "ignores f Uuid \<Longrightarrow> keeps f (uuid4 env)" "ignores f c \<Longrightarrow> keeps f (modify (emit c))"
  by (simp_all add: keeps_def ask_env_def time_time_def uuid4_def modify_def ignores_def)

lemma keeps_ask_env [keeps_rules]: "traceless f \<Longrightarrow> keeps f (ask_env a c)"
  by (simp add: keeps_def ask_env_def traceless_def)

lemma keeps_time_time [keeps_rules]: "traceless f \<Longrightarrow> keeps f (time_time env)"
  by (simp add: keeps_def time_time_def traceless_def)

lemma keeps_uuid4 [keeps_rules]: "traceless f \<Longrightarrow> keeps f (uuid4 env)"
  by (simp add: keeps_def uuid4_def traceless_def)

lemma keeps_emit [keeps_rules]: "traceless f \<Longrightarrow> keeps f (modify (emit c))"
  by (simp add: keeps_def modify_def traceless_def)

end
