(* ===== verification/Client.thy ===== *)
theory Client
  imports Types
begin

text \<open>
  \<open>CoreClient\<close> of \<open>client.py\<close>: the wrapper of the kernel's gRPC service.  Every
  operation sends one RPC that carries the pid of the client in its metadata and raises
  \<open>RuntimeError\<close> when the response says the call failed.  \<open>checked\<close> is what
  the methods share, and the locale \<open>checked_rpc\<close> what their callers rely on.
\<close>

section \<open>State\<close>

record core_client =
  cc_pid :: pid
  cc_metadata :: "(string \<times> string) list"

definition pid_metadata :: "pid \<Rightarrow> (string \<times> string) list" where
  "pid_metadata p = [(''x-hivekernel-pid'', str_int p)]"

definition CoreClient :: "pid \<Rightarrow> core_client" where
  "CoreClient p = \<lparr>cc_pid = p, cc_metadata = pid_metadata p\<rparr>"

definition set_pid :: "pid \<Rightarrow> core_client \<Rightarrow> core_client" where
  "set_pid p c = c\<lparr>cc_pid := p, cc_metadata := pid_metadata p\<rparr>"

definition core_ok :: "core_client \<Rightarrow> bool" where
  "core_ok c \<longleftrightarrow> cc_metadata c = pid_metadata (cc_pid c)"

lemma core_ok_CoreClient [simp]: "core_ok (CoreClient p)"
  by (simp add: core_ok_def CoreClient_def)

lemma core_ok_set_pid [simp]: "core_ok (set_pid p c)"
  by (simp add: core_ok_def set_pid_def)

section \<open>Calls\<close>

text \<open>A response with a success flag: the value, or \<open>RuntimeError("<what> failed: <error>")\<close>.\<close>

definition checked :: "string \<Rightarrow> ('s, bool \<times> string \<times> 'a) eff \<Rightarrow> ('s, 'a) eff" where
  "checked what m = bnd m (\<lambda>(ok, err, v). if ok then ret v else throw (RuntimeError (what @ err)))"

definition rpc :: "core_client \<Rightarrow> int option \<Rightarrow> request \<Rightarrow> call" where
  "rpc c t r = Rpc (cc_metadata c) t r"

definition spawn_req :: "string \<Rightarrow> string \<Rightarrow> string \<Rightarrow> string \<Rightarrow> string \<Rightarrow> string list option \<Rightarrow>
    string \<Rightarrow> (string, int) dict option \<Rightarrow> string \<Rightarrow> string \<Rightarrow> request" where
  "spawn_req name role cognitive_tier system_prompt model tools initial_task limits runtime_image runtime_type =
     SpawnRequest \<lparr>sq_name = name, sq_role = role_to_proto role,
       sq_cognitive_tier = cog_to_proto cognitive_tier, sq_model = model,
       sq_system_prompt = system_prompt,
       sq_tools = (case tools of None \<Rightarrow> [] | Some ts \<Rightarrow> ts),
       sq_limits = (case limits of None \<Rightarrow> None | Some l \<Rightarrow> if l = [] then None else Some l),
       sq_initial_task = initial_task, sq_runtime_type = runtime_to_proto runtime_type,
       sq_runtime_image = runtime_image\<rparr>"

definition spawn_child :: "env \<Rightarrow> core_client \<Rightarrow> string \<Rightarrow> string \<Rightarrow> string \<Rightarrow> string \<Rightarrow> string \<Rightarrow>
    string list option \<Rightarrow> string \<Rightarrow> (string, int) dict option \<Rightarrow> string \<Rightarrow> string \<Rightarrow>
    ('z world_scheme, pid) eff" where
  "spawn_child env c name role cognitive_tier system_prompt model tools initial_task limits
     runtime_image runtime_type =
     checked ''spawn failed: '' (ask_env (e_spawn env) (rpc c None
       (spawn_req name role cognitive_tier system_prompt model tools initial_task limits
          runtime_image runtime_type)))"

definition kill_child :: "env \<Rightarrow> core_client \<Rightarrow> pid \<Rightarrow> bool \<Rightarrow> ('z world_scheme, pid list) eff" where
  "kill_child env c p recursive =
     checked ''kill failed: '' (ask_env (e_kill env) (rpc c None (KillRequest p recursive)))"

definition get_process_info :: "env \<Rightarrow> core_client \<Rightarrow> pid \<Rightarrow> ('z world_scheme, proc_info) eff" where
  "get_process_info env c p = ask_env (e_info env) (rpc c None (ProcessInfoRequest p))"

definition list_children :: "env \<Rightarrow> core_client \<Rightarrow> bool \<Rightarrow> ('z world_scheme, proc_info list) eff" where
  "list_children env c recursive = ask_env (e_children env) (rpc c None (ListChildrenRequest recursive))"

definition execute_task :: "env \<Rightarrow> core_client \<Rightarrow> pid \<Rightarrow> string \<Rightarrow> params option \<Rightarrow> int \<Rightarrow>
    ('z world_scheme, task_result) eff" where
  "execute_task env c target_pid description ps timeout_seconds =
     checked ''execute_task failed: '' (ask_env (e_exec env)
       (rpc c (Some (timeout_seconds + 10)) (ExecuteRequest
          \<lparr>xq_target_pid = target_pid, xq_description = description,
           xq_params = (case ps of None \<Rightarrow> [] | Some p \<Rightarrow> p), xq_timeout_seconds = timeout_seconds\<rparr>)))"

definition send_req :: "pid \<Rightarrow> string \<Rightarrow> string \<Rightarrow> bytes \<Rightarrow> string \<Rightarrow> bool \<Rightarrow> int \<Rightarrow> string \<Rightarrow> request" where
  "send_req to_pid to_queue ty payload priority requires_ack ttl reply_to =
     SendMessageRequest \<lparr>mq_to_pid = to_pid, mq_to_queue = to_queue, mq_type = ty,
       mq_priority = priority_to_proto priority, mq_payload = payload,
       mq_requires_ack = requires_ack, mq_ttl_seconds = ttl, mq_reply_to = reply_to\<rparr>"

definition send_message :: "env \<Rightarrow> core_client \<Rightarrow> pid \<Rightarrow> string \<Rightarrow> string \<Rightarrow> bytes \<Rightarrow> string \<Rightarrow> bool \<Rightarrow>
    int \<Rightarrow> string \<Rightarrow> ('z world_scheme, string) eff" where
  "send_message env c to_pid to_queue ty payload priority requires_ack ttl reply_to =
     checked ''send failed: '' (ask_env (e_send env)
       (rpc c None (send_req to_pid to_queue ty payload priority requires_ack ttl reply_to)))"

definition store_artifact :: "env \<Rightarrow> core_client \<Rightarrow> string \<Rightarrow> bytes \<Rightarrow> string \<Rightarrow> int \<Rightarrow>
    ('z world_scheme, string) eff" where
  "store_artifact env c key content content_type visibility =
     checked ''store artifact failed: '' (ask_env (e_store env) (rpc c None (StoreArtifactRequest
       \<lparr>st_key = key, st_content = content, st_content_type = content_type, st_visibility = visibility\<rparr>)))"

definition get_artifact :: "env \<Rightarrow> core_client \<Rightarrow> string \<Rightarrow> string \<Rightarrow> ('z world_scheme, bytes) eff" where
  "get_artifact env c key artifact_id =
     checked ''artifact not found: '' (ask_env (e_get env) (rpc c None (GetArtifactRequest key artifact_id)))"

definition list_artifacts :: "env \<Rightarrow> core_client \<Rightarrow> string \<Rightarrow> ('z world_scheme, artifact_meta list) eff" where
  "list_artifacts env c prefix = ask_env (e_artifacts env) (rpc c None (ListArtifactsRequest prefix))"

definition get_resource_usage :: "env \<Rightarrow> core_client \<Rightarrow> ('z world_scheme, resource_usage) eff" where
  "get_resource_usage env c = ask_env (e_usage env) (rpc c None ResourceUsageRequest)"

definition request_resources :: "env \<Rightarrow> core_client \<Rightarrow> string \<Rightarrow> int \<Rightarrow>
    ('z world_scheme, bool \<times> int \<times> string) eff" where
  "request_resources env c resource_type amount =
     ask_env (e_resource env) (rpc c None (ResourceRequest resource_type amount))"

definition escalate :: "env \<Rightarrow> core_client \<Rightarrow> string \<Rightarrow> string \<Rightarrow> bool \<Rightarrow> ('z world_scheme, string) eff" where
  "escalate env c issue severity auto_propagate =
     ask_env (e_escalate env) (rpc c None (EscalateRequest issue (severity_to_proto severity) auto_propagate))"

definition core_log :: "env \<Rightarrow> core_client \<Rightarrow> string \<Rightarrow> string \<Rightarrow> params \<Rightarrow> ('z world_scheme, unit) eff" where
  "core_log env c level msg flds =
     ask_env (e_log env) (rpc c None (LogRequest (level_to_proto level) msg flds))"

definition report_metric :: "env \<Rightarrow> core_client \<Rightarrow> string \<Rightarrow> rat \<Rightarrow> params \<Rightarrow> ('z world_scheme, unit) eff" where
  "report_metric env c name v labels = ask_env (e_metric env) (rpc c None (MetricRequest name v labels))"

definition list_siblings :: "env \<Rightarrow> core_client \<Rightarrow> ('z world_scheme, sibling list) eff" where
  "list_siblings env c = ask_env (e_siblings env) (rpc c None ListSiblingsRequest)"

definition wait_child :: "env \<Rightarrow> core_client \<Rightarrow> pid \<Rightarrow> int \<Rightarrow> ('z world_scheme, pid \<times> int \<times> string) eff" where
  "wait_child env c p timeout_seconds =
     checked ''wait_child failed: '' (ask_env (e_wait env)
       (rpc c (Some (timeout_seconds + 10)) (WaitChildRequest p timeout_seconds)))"

text \<open>The cron calls report failure by a non-empty error text.\<close>

definition add_cron :: "env \<Rightarrow> core_client \<Rightarrow> string \<Rightarrow> string \<Rightarrow> pid \<Rightarrow> string \<Rightarrow> params option \<Rightarrow> string \<Rightarrow>
    ('z world_scheme, string) eff" where
  "add_cron env c name cron_expression target_pid description ps action =
     bnd (ask_env (e_add_cron env) (rpc c None (AddCronRequest
            \<lparr>cq_name = name, cq_cron_expression = cron_expression, cq_action = action,
             cq_target_pid = target_pid, cq_execute_description = description,
             cq_execute_params = (case ps of None \<Rightarrow> [] | Some p \<Rightarrow> p)\<rparr>)))
       (\<lambda>(err, cid). if err \<noteq> [] then throw (RuntimeError (''add_cron failed: '' @ err)) else ret cid)"

definition remove_cron :: "env \<Rightarrow> core_client \<Rightarrow> string \<Rightarrow> ('z world_scheme, bool) eff" where
  "remove_cron env c cron_id =
     bnd (ask_env (e_remove_cron env) (rpc c None (RemoveCronRequest cron_id)))
       (\<lambda>(err, ok). if err \<noteq> [] then throw (RuntimeError (''remove_cron failed: '' @ err)) else ret ok)"

definition list_cron :: "env \<Rightarrow> core_client \<Rightarrow> ('z world_scheme, cron_entry list) eff" where
  "list_cron env c = ask_env (e_list_cron env) (rpc c None ListCronRequest)"

lemmas core_defs [op_defs] = spawn_child_def kill_child_def get_process_info_def list_children_def
  execute_task_def send_message_def store_artifact_def get_artifact_def list_artifacts_def
  get_resource_usage_def request_resources_def escalate_def core_log_def report_metric_def
  list_siblings_def wait_child_def add_cron_def remove_cron_def list_cron_def

section \<open>The contract of a checked call\<close>

lemma keeps_checked [keeps_rules]: "keeps f m \<Longrightarrow> keeps f (checked what m)"
  unfolding checked_def by (intro keeps_rules)

lemma wp_checked [wp_simps]:
  "wp (checked what m) Q E =
   wp m (\<lambda>(ok, err, v). if ok then Q v else E (RuntimeError (what @ err))) E"
  by (auto simp: checked_def wp_def bnd_def ret_def throw_def fun_eq_iff split: prod.splits sum.splits)

text \<open>
  A method built on one call: whatever the kernel answers it appends exactly that
  call to the history and changes nothing else, and it returns a value only when the
  kernel reported success.
\<close>

locale checked_rpc =
  fixes m :: "('z world_scheme, 'a) eff" and c :: call
    and answer :: "call list \<Rightarrow> exn + (bool \<times> string \<times> 'a)" and what :: string
  assumes is_checked: "m = checked what (ask_env answer c)"
begin

lemma one_call: "final m s = emit c s"
  by (auto simp: is_checked final_def checked_def ask_env_def bnd_def ret_def throw_def
      split: sum.splits prod.splits)

lemma value_iff: "result m s = Inr v \<longleftrightarrow> (\<exists>err. answer (trace s @ [c]) = Inr (True, err, v))"
  by (auto simp: is_checked result_def checked_def ask_env_def bnd_def ret_def throw_def
      split: sum.splits prod.splits)

lemma refused: "answer (trace s @ [c]) = Inr (False, err, v) \<Longrightarrow>
    result m s = Inl (RuntimeError (what @ err))"
  by (simp add: is_checked result_def checked_def ask_env_def bnd_def ret_def throw_def)

end

interpretation spawn_rpc: checked_rpc
  "spawn_child env c name role tier sp model tools it lim img rt"
  "rpc c None (spawn_req name role tier sp model tools it lim img rt)" "e_spawn env" "''spawn failed: ''"
  for env c name role tier sp model tools it lim img rt
  by unfold_locales (simp add: spawn_child_def)

interpretation kill_rpc: checked_rpc
  "kill_child env c p r" "rpc c None (KillRequest p r)" "e_kill env" "''kill failed: ''"
  for env c p r
  by unfold_locales (simp add: kill_child_def)

interpretation store_rpc: checked_rpc
  "store_artifact env c k b ct v"
  "rpc c None (StoreArtifactRequest \<lparr>st_key = k, st_content = b, st_content_type = ct, st_visibility = v\<rparr>)"
  "e_store env" "''store artifact failed: ''"
  for env c k b ct v
  by unfold_locales (simp add: store_artifact_def)

interpretation get_rpc: checked_rpc
  "get_artifact env c k i" "rpc c None (GetArtifactRequest k i)" "e_get env" "''artifact not found: ''"
  for env c k i
  by unfold_locales (simp add: get_artifact_def)

interpretation send_rpc: checked_rpc
  "send_message env c p q ty b pr ack ttl rep" "rpc c None (send_req p q ty b pr ack ttl rep)"
  "e_send env" "''send failed: ''"
  for env c p q ty b pr ack ttl rep
  by unfold_locales (simp add: send_message_def)

end
