(* ===== verification/Syscall.thy ===== *)
theory Syscall
  imports Client
begin

text \<open>
  \<open>SyscallContext\<close> of \<open>syscall.py\<close>, in two layers.  The first is the machinery
  of \<open>_do_syscall\<close> and \<open>resolve_syscall\<close>: a table from call ids to futures, where a
  future is an object shared by the table and the coroutine that awaits it, so it is
  a cell of an explicit store.  The locale \<open>correlation\<close> says what a caller gets
  from such a table; \<open>HiveAgent\<close>'s table of pending requests provides the same
  interface.  The second layer is the syscall methods.
\<close>

section \<open>Futures and correlation\<close>

datatype 'r fut = Pending | Done 'r | Cancelled

fun set_result :: "'r \<Rightarrow> 'r fut \<Rightarrow> 'r fut" where
  "set_result r Pending = Done r"
| "set_result r (Done r') = Done r'"
| "set_result r Cancelled = Cancelled"

text \<open>
  A table of futures: the cells, each with the id its creator waits under, and
  the dictionary of the ids still awaited.
\<close>

record 'r futures =
  cells :: "(string \<times> 'r fut) list"
  awaited :: "(string, nat) dict"

definition no_futures :: "'r futures" where
  "no_futures = \<lparr>cells = [], awaited = []\<rparr>"

definition new_future :: "string \<Rightarrow> 'r futures \<Rightarrow> 'r futures" where
  "new_future i t = t\<lparr>cells := cells t @ [(i, Pending)], awaited := dset i (length (cells t)) (awaited t)\<rparr>"

definition resolve :: "string \<Rightarrow> 'r \<Rightarrow> 'r futures \<Rightarrow> 'r futures" where
  "resolve i r t = (case map_of (awaited t) i of
      None \<Rightarrow> t
    | Some n \<Rightarrow> t\<lparr>cells := (cells t)[n := (fst (cells t ! n), set_result r (snd (cells t ! n)))],
                  awaited := ddel i (awaited t)\<rparr>)"

text \<open>A waiter that gives up: the future is cancelled and the id no longer awaited.\<close>

definition abandon :: "string \<Rightarrow> 'r futures \<Rightarrow> 'r futures" where
  "abandon i t = (case map_of (awaited t) i of
      None \<Rightarrow> t
    | Some n \<Rightarrow> t\<lparr>cells := (cells t)[n := (fst (cells t ! n), Cancelled)], awaited := ddel i (awaited t)\<rparr>)"

definition futures_ok :: "'r futures \<Rightarrow> bool" where
  "futures_ok t \<longleftrightarrow> distinct (map fst (cells t)) \<and>
     (\<forall>i n. map_of (awaited t) i = Some n \<longrightarrow> n < length (cells t) \<and> cells t ! n = (i, Pending)) \<and>
     (\<forall>i. map_of (cells t) i = Some Pending \<longrightarrow> map_of (awaited t) i \<noteq> None)"

text \<open>What the coroutine that registered \<open>i\<close> sees: nothing yet, or its result.\<close>

definition seen :: "'r futures \<Rightarrow> string \<Rightarrow> 'r fut option" where
  "seen t i = map_of (cells t) i"

lemma seen_no_futures [simp]: "seen no_futures i = None" "futures_ok no_futures"
  by (simp_all add: seen_def no_futures_def futures_ok_def)

lemma seen_new_future:
  "seen t i = None \<Longrightarrow> seen (new_future i t) = (seen t)(i \<mapsto> Pending)"
  by (rule ext) (auto simp: seen_def new_future_def map_add_def split: option.splits)

lemma futures_ok_new_future:
  "futures_ok t \<Longrightarrow> seen t i = None \<Longrightarrow> futures_ok (new_future i t)"
proof -
  assume ok: "futures_ok t" and "seen t i = None"
  then have "i \<notin> fst ` set (cells t)" by (simp add: seen_def map_of_eq_None_iff)
  with ok show ?thesis
    by (auto simp: futures_ok_def new_future_def nth_append map_add_def less_Suc_eq split: option.splits if_splits)
qed

lemma awaited_pending:
  assumes "futures_ok t" "map_of (awaited t) i = Some n"
  shows "n < length (cells t)" "cells t ! n = (i, Pending)"
  using assms by (auto simp: futures_ok_def)

lemma map_of_list_update:
  assumes "distinct (map fst xs)" "n < length xs" "xs ! n = (i, a)"
  shows "map_of (xs[n := (i, b)]) = (map_of xs)(i \<mapsto> b)"
  using assms
proof (induction xs arbitrary: n)
  case (Cons x xs)
  show ?case
  proof (cases n)
    case 0
    then show ?thesis using Cons.prems by (auto simp: fun_eq_iff)
  next
    case (Suc m)
    then have "xs ! m = (i, a)" "m < length xs" using Cons.prems by auto
    then have "fst x \<noteq> i" using Cons.prems by (metis distinct.simps(2) fst_conv list.simps(9) nth_map nth_mem length_map)
    then show ?thesis using Cons.IH[of m] Cons.prems Suc by (auto simp: fun_eq_iff)
  qed
qed simp

lemma map_fst_list_update:
  "n < length xs \<Longrightarrow> xs ! n = (i, a) \<Longrightarrow> map fst (xs[n := (i, b)]) = map fst xs"
  by (metis fst_conv list_update_id map_update nth_map)

lemma seen_awaited: "futures_ok t \<Longrightarrow> seen t i = Some Pending \<longleftrightarrow> map_of (awaited t) i \<noteq> None"
proof -
  assume ok: "futures_ok t"
  have "map_of (cells t) i = Some Pending" if "map_of (awaited t) i = Some n" for n
    using awaited_pending[OF ok that] ok unfolding futures_ok_def
    by (metis map_of_eq_Some_iff nth_mem)
  with ok show ?thesis by (auto simp: futures_ok_def seen_def)
qed

text \<open>Resolving and abandoning both settle the awaited cell, with \<open>Done r\<close> or \<open>Cancelled\<close>.\<close>

definition settle :: "string \<Rightarrow> 'r fut \<Rightarrow> 'r futures \<Rightarrow> 'r futures" where
  "settle i f t = (case map_of (awaited t) i of
      None \<Rightarrow> t
    | Some n \<Rightarrow> t\<lparr>cells := (cells t)[n := (i, f)], awaited := ddel i (awaited t)\<rparr>)"

lemma resolve_settle: "futures_ok t \<Longrightarrow> resolve i r t = settle i (Done r) t"
  by (auto simp: resolve_def settle_def awaited_pending split: option.splits)

lemma abandon_settle: "futures_ok t \<Longrightarrow> abandon i t = settle i Cancelled t"
  by (auto simp: abandon_def settle_def awaited_pending split: option.splits)

lemma settle_cells:
  assumes "futures_ok t" "map_of (awaited t) i = Some n"
  shows "map_of ((cells t)[n := (i, f)]) = (map_of (cells t))(i \<mapsto> f)"
  using map_of_list_update[OF _ awaited_pending[OF assms], of f] assms by (simp add: futures_ok_def)

lemma seen_settle:
  "futures_ok t \<Longrightarrow>
   seen (settle i f t) = (if seen t i = Some Pending then (seen t)(i \<mapsto> f) else seen t)"
  using seen_awaited[of t i]
  by (auto simp: settle_def seen_def settle_cells split: option.splits)

lemma futures_ok_settle:
  assumes ok: "futures_ok t" and f: "f \<noteq> Pending"
  shows "futures_ok (settle i f t)"
proof (cases "map_of (awaited t) i")
  case None
  with ok show ?thesis by (simp add: settle_def)
next
  case (Some n)
  note p = awaited_pending[OF ok Some]
  have "map_of (awaited t) j \<noteq> Some n" if "j \<noteq> i" for j
    using awaited_pending[OF ok, of j n] p that by auto
  then show ?thesis using Some p ok f settle_cells[OF ok Some, of f] map_fst_list_update[OF p, of f]
    unfolding futures_ok_def settle_def by (simp add: nth_list_update)
qed

lemma seen_resolve:
  "futures_ok t \<Longrightarrow>
   seen (resolve i r t) = (if seen t i = Some Pending then (seen t)(i \<mapsto> Done r) else seen t)"
  by (simp add: resolve_settle seen_settle)

lemma seen_abandon:
  "futures_ok t \<Longrightarrow>
   seen (abandon i t) = (if seen t i = Some Pending then (seen t)(i \<mapsto> Cancelled) else seen t)"
  by (simp add: abandon_settle seen_settle)

lemma futures_ok_resolve: "futures_ok t \<Longrightarrow> futures_ok (resolve i r t)"
  by (simp add: resolve_settle futures_ok_settle)

lemma futures_ok_abandon: "futures_ok t \<Longrightarrow> futures_ok (abandon i t)"
  by (simp add: abandon_settle futures_ok_settle)

text \<open>
  The interface: \<open>register\<close> under a fresh id, \<open>deliver\<close> a result under an id, and
  \<open>look\<close>, what the registrant sees.  Whatever else is registered and delivered in
  between, the registrant sees the first result delivered under its id.
\<close>

datatype 'r fut_op = Register string | Deliver string 'r

fun fresh_ops :: "'r fut_op list \<Rightarrow> string set \<Rightarrow> bool" where
  "fresh_ops [] used = True"
| "fresh_ops (Register i # ops) used = (i \<notin> used \<and> fresh_ops ops (insert i used))"
| "fresh_ops (Deliver i r # ops) used = fresh_ops ops used"

lemma fresh_ops_append:
  "fresh_ops (xs @ ys) u \<longleftrightarrow> fresh_ops xs u \<and> fresh_ops ys (u \<union> {i. Register i \<in> set xs})"
proof (induction xs u rule: fresh_ops.induct)
  case (2 i ops used)
  have "insert i used \<union> {j. Register j \<in> set ops} = used \<union> {j. Register j \<in> set (Register i # ops)}"
    by auto
  with 2 show ?case by simp
qed simp_all

fun first_delivery :: "string \<Rightarrow> 'r fut_op list \<Rightarrow> 'r option" where
  "first_delivery i [] = None"
| "first_delivery i (Register j # ops) = first_delivery i ops"
| "first_delivery i (Deliver j r # ops) = (if i = j then Some r else first_delivery i ops)"

fun run_ops :: "(string \<Rightarrow> 's \<Rightarrow> 's) \<Rightarrow> (string \<Rightarrow> 'r \<Rightarrow> 's \<Rightarrow> 's) \<Rightarrow> 'r fut_op list \<Rightarrow> 's \<Rightarrow> 's" where
  "run_ops reg del [] s = s"
| "run_ops reg del (Register i # ops) s = run_ops reg del ops (reg i s)"
| "run_ops reg del (Deliver i r # ops) s = run_ops reg del ops (del i r s)"

locale correlation =
  fixes register :: "string \<Rightarrow> 's \<Rightarrow> 's" and deliver :: "string \<Rightarrow> 'r \<Rightarrow> 's \<Rightarrow> 's"
    and look :: "'s \<Rightarrow> string \<Rightarrow> 'r fut option" and inv :: "'s \<Rightarrow> bool"
  assumes register_look: "inv s \<Longrightarrow> look s i = None \<Longrightarrow> look (register i s) = (look s)(i \<mapsto> Pending)"
    and register_inv: "inv s \<Longrightarrow> look s i = None \<Longrightarrow> inv (register i s)"
    and deliver_look: "inv s \<Longrightarrow> look (deliver i r s) =
          (if look s i = Some Pending then (look s)(i \<mapsto> Done r) else look s)"
    and deliver_inv: "inv s \<Longrightarrow> inv (deliver i r s)"
begin

lemma dom_register: "inv s \<Longrightarrow> look s i = None \<Longrightarrow> dom (look (register i s)) = insert i (dom (look s))"
  by (simp only: register_look dom_fun_upd) simp

lemma dom_deliver: "inv s \<Longrightarrow> dom (look (deliver i r s)) = dom (look s)"
  by (simp only: deliver_look split: if_split) (auto simp: domI)

lemma done_stays: "inv s \<Longrightarrow> look s i = Some (Done r) \<Longrightarrow> fresh_ops ops (dom (look s)) \<Longrightarrow>
    look (run_ops register deliver ops s) i = Some (Done r)"
proof (induction ops arbitrary: s)
  case (Cons op ops)
  show ?case
  proof (cases op)
    case (Register j)
    with Cons.prems have "look s j = None" "j \<noteq> i" by auto
    with Cons.prems Cons.IH[of "register j s"] Register show ?thesis
      by (simp add: dom_register) (simp add: register_look register_inv)
  next
    case (Deliver j r')
    have "look (deliver j r' s) i = Some (Done r)" using Cons.prems by (auto simp: deliver_look)
    with Deliver Cons.prems Cons.IH[of "deliver j r' s"] show ?thesis
      by (simp add: dom_deliver deliver_inv)
  qed
qed simp

lemma waiting_gets_first: "inv s \<Longrightarrow> look s i = Some Pending \<Longrightarrow> fresh_ops ops (dom (look s)) \<Longrightarrow>
    look (run_ops register deliver ops s) i = Some (case first_delivery i ops of None \<Rightarrow> Pending | Some r \<Rightarrow> Done r)"
proof (induction ops arbitrary: s)
  case (Cons op ops)
  show ?case
  proof (cases op)
    case (Register j)
    with Cons.prems have "look s j = None" "j \<noteq> i" by auto
    with Cons.prems Cons.IH[of "register j s"] Register show ?thesis
      by (simp add: dom_register) (simp add: register_look register_inv)
  next
    case (Deliver j r)
    show ?thesis
    proof (cases "j = i")
      case True
      with Deliver Cons.prems show ?thesis
        using done_stays[of "deliver j r s" i r ops]
        by (simp add: dom_deliver deliver_inv) (simp add: deliver_look)
    next
      case False
      with Deliver Cons.prems Cons.IH[of "deliver j r s"] show ?thesis
        by (simp add: dom_deliver deliver_inv) (simp add: deliver_look)
    qed
  qed
qed simp

lemma own_result:
  assumes "inv s" and "fresh_ops (Register i # ops) (dom (look s))"
  shows "look (run_ops register deliver (Register i # ops) s) i =
         Some (case first_delivery i ops of None \<Rightarrow> Pending | Some r \<Rightarrow> Done r)"
  using assms by (simp add: waiting_gets_first register_look register_inv dom_register domIff)

lemma run_ops_inv: "inv s \<Longrightarrow> fresh_ops ops (dom (look s)) \<Longrightarrow>
    inv (run_ops register deliver ops s) \<and>
    dom (look (run_ops register deliver ops s)) = dom (look s) \<union> {i. Register i \<in> set ops}"
proof (induction ops arbitrary: s)
  case (Cons op ops)
  show ?case
  proof (cases op)
    case (Register j)
    with Cons.prems have "look s j = None" by auto
    with Register Cons.prems Cons.IH[of "register j s"] show ?thesis
      by (auto simp: dom_register register_inv)
  next
    case (Deliver j r)
    with Cons.prems Cons.IH[of "deliver j r s"] show ?thesis
      by (simp add: dom_deliver deliver_inv)
  qed
qed simp

lemma run_ops_append:
  "run_ops register deliver (xs @ ys) s = run_ops register deliver ys (run_ops register deliver xs s)"
  by (induction register deliver xs s rule: run_ops.induct) simp_all

lemma own_result_between:
  assumes "inv s" and "look s = Map.empty" and "fresh_ops (pre @ Register i # post) {}"
  shows "look (run_ops register deliver (pre @ Register i # post) s) i =
         Some (case first_delivery i post of None \<Rightarrow> Pending | Some r \<Rightarrow> Done r)"
proof -
  let ?t = "run_ops register deliver pre s"
  have pre: "fresh_ops pre {}" and post: "fresh_ops (Register i # post) ({} \<union> {j. Register j \<in> set pre})"
    using assms(3) by (auto simp: fresh_ops_append)
  have "inv ?t" and "dom (look ?t) = {j. Register j \<in> set pre}"
    using run_ops_inv[of s pre] assms(1,2) pre by auto
  with own_result[of ?t i post] post show ?thesis by (simp add: run_ops_append)
qed

end

text \<open>With a time-out: once the waiter has given up, a late result changes nothing for it.\<close>

locale correlation_timeout = correlation +
  fixes give_up :: "string \<Rightarrow> 's \<Rightarrow> 's"
  assumes give_up_look: "inv s \<Longrightarrow> look (give_up i s) =
      (if look s i = Some Pending then (look s)(i \<mapsto> Cancelled) else look s)"
    and give_up_inv: "inv s \<Longrightarrow> inv (give_up i s)"
begin

lemma late_result_ignored:
  "inv s \<Longrightarrow> look s i = Some Pending \<Longrightarrow> look (deliver i r (give_up i s)) = look (give_up i s)"
  by (simp add: deliver_look give_up_look give_up_inv)

lemma result_before_timeout_kept:
  "inv s \<Longrightarrow> look s i = Some Pending \<Longrightarrow> look (give_up i (deliver i r s)) i = Some (Done r)"
  by (simp add: deliver_look give_up_look deliver_inv)

end

interpretation futs: correlation_timeout new_future resolve seen futures_ok abandon
  by unfold_locales
    (simp_all add: seen_new_future futures_ok_new_future seen_resolve futures_ok_resolve
      seen_abandon futures_ok_abandon)

section \<open>The context of a task\<close>

datatype progress_type = PROGRESS_UPDATE | PROGRESS_SYSCALL | PROGRESS_COMPLETED | PROGRESS_FAILED

record task_progress =
  tp_task_id :: string
  tp_type :: progress_type
  tp_message :: string
  tp_percent :: rat
  tp_syscalls :: "(string \<times> request) list"
  tp_result :: "task_result option"

text \<open>
  The context shares its output queue with the Execute handler that created it, so
  the operations that put a message take the queue and return it.
\<close>

record 'r syscall_ctx =
  sc_task_id :: string
  sc_pending :: "'r futures"

definition SyscallContext :: "string \<Rightarrow> 'r syscall_ctx" where
  "SyscallContext tid = \<lparr>sc_task_id = tid, sc_pending = no_futures\<rparr>"

definition resolve_syscall :: "string \<Rightarrow> 'r \<Rightarrow> 'r syscall_ctx \<Rightarrow> 'r syscall_ctx" where
  "resolve_syscall call_id r ctx = ctx\<lparr>sc_pending := resolve call_id r (sc_pending ctx)\<rparr>"

text \<open>\<open>_do_syscall\<close> up to \<open>return await fut\<close>; what that returns is \<^const>\<open>seen\<close> under the call id.\<close>

definition send_syscall :: "string \<Rightarrow> request \<Rightarrow> 'r syscall_ctx \<Rightarrow> task_progress list \<Rightarrow>
    'r syscall_ctx \<times> task_progress list" where
  "send_syscall call_id r ctx q =
     (ctx\<lparr>sc_pending := new_future call_id (sc_pending ctx)\<rparr>,
      q @ [\<lparr>tp_task_id = sc_task_id ctx, tp_type = PROGRESS_SYSCALL, tp_message = ''syscall:'' @ call_id,
            tp_percent = 0, tp_syscalls = [(call_id, r)], tp_result = None\<rparr>])"

definition put_progress :: "string \<Rightarrow> rat \<Rightarrow> 'r syscall_ctx \<Rightarrow> task_progress list \<Rightarrow> task_progress list" where
  "put_progress msg percent ctx q =
     q @ [\<lparr>tp_task_id = sc_task_id ctx, tp_type = PROGRESS_UPDATE, tp_message = msg,
           tp_percent = percent, tp_syscalls = [], tp_result = None\<rparr>]"

text \<open>The context as a correlation table: registering is sending the call on some queue.\<close>

definition register_call :: "string \<Rightarrow> 'r syscall_ctx \<Rightarrow> 'r syscall_ctx" where
  "register_call i ctx = fst (send_syscall i ListSiblingsRequest ctx [])"

lemma fst_send_syscall: "fst (send_syscall i r ctx q) = register_call i ctx"
  by (simp add: send_syscall_def register_call_def)

interpretation syscalls: correlation register_call resolve_syscall
  "\<lambda>ctx. seen (sc_pending ctx)" "\<lambda>ctx. futures_ok (sc_pending ctx)"
  by unfold_locales
    (simp_all add: register_call_def send_syscall_def resolve_syscall_def seen_new_future
      futures_ok_new_future seen_resolve futures_ok_resolve)

section \<open>Syscalls\<close>

text \<open>
  A syscall as the methods use it: a fresh call id, the call on the stream, and the
  result that comes back under that id.
\<close>

definition do_syscall :: "env \<Rightarrow> (call list \<Rightarrow> exn + 'a) \<Rightarrow> request \<Rightarrow> ('z world_scheme, 'a) eff" where
  "do_syscall env answer r = bnd (uuid4 env) (\<lambda>cid. ask_env answer (Sys cid r))"

definition sys_spawn :: "env \<Rightarrow> string \<Rightarrow> string \<Rightarrow> string \<Rightarrow> string \<Rightarrow> string \<Rightarrow>
    string list option \<Rightarrow> string \<Rightarrow> (string, int) dict option \<Rightarrow> string \<Rightarrow> string \<Rightarrow>
    ('z world_scheme, pid) eff" where
  "sys_spawn env name role cognitive_tier system_prompt model tools initial_task limits
     runtime_image runtime_type =
     checked ''spawn failed: '' (do_syscall env (e_spawn env)
       (spawn_req name role cognitive_tier system_prompt model tools initial_task limits
          runtime_image runtime_type))"

definition sys_kill :: "env \<Rightarrow> pid \<Rightarrow> bool \<Rightarrow> ('z world_scheme, pid list) eff" where
  "sys_kill env p recursive =
     checked ''kill failed: '' (do_syscall env (e_kill env) (KillRequest p recursive))"

definition sys_send :: "env \<Rightarrow> pid \<Rightarrow> string \<Rightarrow> string \<Rightarrow> bytes \<Rightarrow> string \<Rightarrow> bool \<Rightarrow> int \<Rightarrow> string \<Rightarrow>
    ('z world_scheme, string) eff" where
  "sys_send env to_pid to_queue ty payload priority requires_ack ttl reply_to =
     checked ''send failed: '' (do_syscall env (e_send env)
       (send_req to_pid to_queue ty payload priority requires_ack ttl reply_to))"

definition sys_list_siblings :: "env \<Rightarrow> ('z world_scheme, sibling list) eff" where
  "sys_list_siblings env = do_syscall env (e_siblings env) ListSiblingsRequest"

definition sys_store_artifact :: "env \<Rightarrow> string \<Rightarrow> bytes \<Rightarrow> string \<Rightarrow> int \<Rightarrow> ('z world_scheme, string) eff" where
  "sys_store_artifact env key content content_type visibility =
     checked ''store artifact failed: '' (do_syscall env (e_store env) (StoreArtifactRequest
       \<lparr>st_key = key, st_content = content, st_content_type = content_type, st_visibility = visibility\<rparr>))"

definition sys_get_artifact :: "env \<Rightarrow> string \<Rightarrow> string \<Rightarrow> ('z world_scheme, bytes) eff" where
  "sys_get_artifact env key artifact_id =
     checked ''artifact not found: '' (do_syscall env (e_get env) (GetArtifactRequest key artifact_id))"

definition sys_escalate :: "env \<Rightarrow> string \<Rightarrow> string \<Rightarrow> bool \<Rightarrow> ('z world_scheme, string) eff" where
  "sys_escalate env issue severity auto_propagate =
     do_syscall env (e_escalate env) (EscalateRequest issue (severity_to_proto severity) auto_propagate)"

definition sys_log :: "env \<Rightarrow> string \<Rightarrow> string \<Rightarrow> params \<Rightarrow> ('z world_scheme, unit) eff" where
  "sys_log env level msg flds =
     do_syscall env (e_log env) (LogRequest (level_to_proto level) msg flds)"

text \<open>The task of an \<open>execute_on\<close> carries an id of its own, drawn after the call id.\<close>

definition sys_execute_on :: "env \<Rightarrow> pid \<Rightarrow> string \<Rightarrow> params option \<Rightarrow> int \<Rightarrow>
    ('z world_scheme, task_result) eff" where
  "sys_execute_on env p description ps timeout_seconds =
     checked ''execute_on failed: '' (bnd (uuid4 env) (\<lambda>cid. bnd (uuid4 env) (\<lambda>tid.
       ask_env (e_exec env) (Sys cid (ExecuteOnRequest tid
         \<lparr>xq_target_pid = p, xq_description = description,
          xq_params = (case ps of None \<Rightarrow> [] | Some q \<Rightarrow> q), xq_timeout_seconds = timeout_seconds\<rparr>)))))"

definition sys_wait_child :: "env \<Rightarrow> pid \<Rightarrow> int \<Rightarrow> ('z world_scheme, pid \<times> int \<times> string) eff" where
  "sys_wait_child env p timeout_seconds =
     checked ''wait_child failed: '' (do_syscall env (e_wait env) (WaitChildRequest p timeout_seconds))"

definition sys_log_event :: "env \<Rightarrow> string \<Rightarrow> string \<Rightarrow> params \<Rightarrow> ('z world_scheme, unit) eff" where
  "sys_log_event env event_type msg flds = sys_log env ''info'' msg (dset ''event_type'' event_type flds)"

definition report_progress :: "string \<Rightarrow> rat \<Rightarrow> ('z world_scheme, unit) eff" where
  "report_progress msg percent = modify (emit (Progress msg percent))"

lemmas sys_defs [op_defs] = sys_spawn_def sys_kill_def sys_send_def sys_list_siblings_def
  sys_store_artifact_def sys_get_artifact_def sys_escalate_def sys_log_def sys_execute_on_def
  sys_wait_child_def sys_log_event_def report_progress_def

lemma keeps_do_syscall [keeps_rules]: "traceless f \<Longrightarrow> keeps f (do_syscall env a r)"
  unfolding do_syscall_def by (intro keeps_rules)

lemma wp_do_syscall [wp_simps]:
  "wp (do_syscall env answer r) Q E =
   (\<lambda>s. let cid = e_uuid env (trace s @ [Uuid]) in
    case answer (trace s @ [Uuid, Sys cid r]) of
      Inl e \<Rightarrow> E e (emit (Sys cid r) (emit Uuid s))
    | Inr v \<Rightarrow> Q v (emit (Sys cid r) (emit Uuid s)))"
  by (simp add: do_syscall_def wp_simps Let_def)

text \<open>A checked syscall: its one call, under a fresh id, and when it returns a value.\<close>

locale checked_syscall =
  fixes env :: env and m :: "('z world_scheme, 'a) eff" and r :: request
    and answer :: "call list \<Rightarrow> exn + (bool \<times> string \<times> 'a)" and what :: string
  assumes is_checked: "m = checked what (do_syscall env answer r)"
begin

lemma one_syscall: "final m s = emit (Sys (e_uuid env (trace s @ [Uuid])) r) (emit Uuid s)"
  by (auto simp: is_checked final_def checked_def do_syscall_def uuid4_def ask_env_def bnd_def ret_def
      throw_def split: sum.splits prod.splits)

lemma syscall_value_iff: "result m s = Inr v \<longleftrightarrow>
    (\<exists>err. answer (trace s @ [Uuid, Sys (e_uuid env (trace s @ [Uuid])) r]) = Inr (True, err, v))"
  by (auto simp: is_checked result_def checked_def do_syscall_def uuid4_def ask_env_def bnd_def ret_def
      throw_def split: sum.splits prod.splits)

end

interpretation spawn_sys: checked_syscall env
  "sys_spawn env name role tier sp model tools it lim img rt"
  "spawn_req name role tier sp model tools it lim img rt" "e_spawn env" "''spawn failed: ''"
  for env name role tier sp model tools it lim img rt
  by unfold_locales (simp add: sys_spawn_def)

interpretation kill_sys: checked_syscall env
  "sys_kill env p r" "KillRequest p r" "e_kill env" "''kill failed: ''"
  for env p r
  by unfold_locales (simp add: sys_kill_def)

interpretation get_sys: checked_syscall env
  "sys_get_artifact env k i" "GetArtifactRequest k i" "e_get env" "''artifact not found: ''"
  for env k i
  by unfold_locales (simp add: sys_get_artifact_def)

section \<open>Properties\<close>

text \<open>
  C1.  Syscalls do not mix up their results: in any run of a task context, however many
  syscalls are under way and in whatever order their results arrive, the coroutine
  that issued the call \<open>i\<close> sees exactly the first result that arrives under \<open>i\<close> after
  it was sent, and is still waiting as long as there is none.  Call ids are drawn
  fresh; results under ids nobody awaits are dropped.
\<close>

theorem syscall_gets_own_result:
  assumes "fresh_ops (pre @ Register i # post) {}"
  shows "seen (sc_pending (run_ops register_call resolve_syscall (pre @ Register i # post) (SyscallContext tid))) i =
         Some (case first_delivery i post of None \<Rightarrow> Pending | Some r \<Rightarrow> Done r)"
  by (rule syscalls.own_result_between[OF _ _ assms]) (simp_all add: SyscallContext_def fun_eq_iff)

theorem syscall_gets_own_result_witness:
  "seen (sc_pending (run_ops register_call resolve_syscall
      [Register ''a'', Register ''b'', Deliver ''b'' (2 :: nat), Deliver ''z'' 9, Deliver ''a'' 1, Deliver ''b'' 3]
      (SyscallContext ''t''))) ''b'' = Some (Done 2)"
  using syscall_gets_own_result[of "[Register ''a'']" "''b''"
      "[Deliver ''b'' (2 :: nat), Deliver ''z'' 9, Deliver ''a'' 1, Deliver ''b'' 3]" "''t''"]
  by simp

end
