(* ===== verification/Artifacts.thy ===== *)
theory Artifacts
  imports Syscall
begin

text \<open>
  The kernel's artifact store (\<open>internal/ipc/shared_memory.go\<close>) as far as the SDK
  depends on it.  The SDK stores with global visibility, so a reader finds under a key
  the artifact stored last.  The history of calls is the state of the store: what is
  stored is what replaying the calls stores.  The locale \<open>artifact_env\<close> is the
  interface that persistent memory relies on.
\<close>

fun stored :: "call \<Rightarrow> store_request option" where
  "stored (Rpc _ _ (StoreArtifactRequest q)) = Some q"
| "stored (Sys _ (StoreArtifactRequest q)) = Some q"
| "stored _ = None"

fun wanted :: "call \<Rightarrow> string option" where
  "wanted (Rpc _ _ (GetArtifactRequest k _)) = Some k"
| "wanted (Sys _ (GetArtifactRequest k _)) = Some k"
| "wanted _ = None"

text \<open>\<open>SharedMemory.Store\<close>: an empty key is refused, any other key gets the new content.\<close>

definition store_step :: "(string \<rightharpoonup> bytes) \<Rightarrow> call \<Rightarrow> (string \<rightharpoonup> bytes)" where
  "store_step m c = (case stored c of
      Some q \<Rightarrow> if st_key q = [] then m else m(st_key q \<mapsto> st_content q)
    | None \<Rightarrow> m)"

definition store_of :: "call list \<Rightarrow> (string \<rightharpoonup> bytes)" where
  "store_of h = foldl store_step Map.empty h"

lemma store_of_snoc [simp]: "store_of (h @ [c]) = store_step (store_of h) c"
  by (simp add: store_of_def)

lemma store_of_snoc2 [simp]: "store_of (h @ [c, d]) = store_step (store_step (store_of h) c) d"
  by (simp add: store_of_def)

lemma store_of_skip [simp]:
  "stored c = None \<Longrightarrow> store_step m c = m"
  by (simp add: store_step_def)

text \<open>The answers of the store; an artifact's id is its number in the history.\<close>

definition store_answer :: "call list \<Rightarrow> exn + (bool \<times> string \<times> string)" where
  "store_answer h = (case stored (last h) of
      Some q \<Rightarrow> if st_key q = [] then Inr (False, ''artifact key is required'', [])
                else Inr (True, [], ''art-'' @ str_nat (length (filter (\<lambda>c. stored c \<noteq> None) h)))
    | None \<Rightarrow> Inl (RpcError ''unimplemented''))"

definition get_answer :: "call list \<Rightarrow> exn + (bool \<times> string \<times> bytes)" where
  "get_answer h = (case wanted (last h) of
      Some k \<Rightarrow> (case store_of (butlast h) k of
          Some b \<Rightarrow> Inr (True, [], b)
        | None \<Rightarrow> Inr (False, ''artifact not found'', []))
    | None \<Rightarrow> Inl (RpcError ''unimplemented''))"

definition with_store :: "env \<Rightarrow> env" where
  "with_store env = env\<lparr>e_store := store_answer, e_get := get_answer\<rparr>"

locale artifact_env =
  fixes env :: env
  assumes store_ok: "stored c = Some q \<Longrightarrow> st_key q \<noteq> [] \<Longrightarrow> \<exists>i. e_store env (h @ [c]) = Inr (True, [], i)"
    and get_ok: "wanted c = Some k \<Longrightarrow> store_of h k = Some b \<Longrightarrow> e_get env (h @ [c]) = Inr (True, [], b)"
    and get_missing: "wanted c = Some k \<Longrightarrow> store_of h k = None \<Longrightarrow>
          \<exists>err b. e_get env (h @ [c]) = Inr (False, err, b)"
begin

text \<open>A store that is accepted is a store that the next reader sees.\<close>

lemma store_seen:
  "stored c = Some q \<Longrightarrow> st_key q \<noteq> [] \<Longrightarrow> wanted d = Some (st_key q) \<Longrightarrow>
   e_get env (h @ [c, d]) = Inr (True, [], st_content q)"
  using get_ok[of d "st_key q" "h @ [c]" "st_content q"] by (simp add: store_step_def)

end

interpretation kernel_store: artifact_env "with_store env" for env
  by unfold_locales (auto simp: with_store_def store_answer_def get_answer_def)

end
