(* ===== verification/Tools.thy ===== *)
theory Tools
  imports PyValue Artifacts
begin

text \<open>
  The tool infrastructure of \<open>tools.py\<close>: the context that sends a tool's calls through
  the syscall stream when there is one and through the \<open>CoreClient\<close> otherwise, and the
  registry that an agent loop executes tools from.
\<close>

record tool_result =
  to_content :: string
  to_is_error :: bool

definition ToolResult :: "string \<Rightarrow> bool \<Rightarrow> tool_result" where
  "ToolResult content is_error = \<lparr>to_content = content, to_is_error = is_error\<rparr>"

record tool_context =
  tc_pid :: pid
  tc_core :: "core_client option"
  tc_syscall :: bool
  tc_workspace :: string

definition none_attribute :: "string \<Rightarrow> exn" where
  "none_attribute a = AttributeError (''NoneType has no attribute '' @ a)"

section \<open>Context\<close>

definition ctx_log :: "env \<Rightarrow> tool_context \<Rightarrow> string \<Rightarrow> string \<Rightarrow> params \<Rightarrow> ('z world_scheme, unit) eff" where
  "ctx_log env ctx level msg flds =
     (if tc_syscall ctx then sys_log env level msg flds
      else case tc_core ctx of None \<Rightarrow> ret () | Some c \<Rightarrow> core_log env c level msg flds)"

definition ctx_log_event :: "env \<Rightarrow> tool_context \<Rightarrow> string \<Rightarrow> string \<Rightarrow> params \<Rightarrow> ('z world_scheme, unit) eff" where
  "ctx_log_event env ctx event_type msg flds =
     ctx_log env ctx ''info'' msg (dset ''event_type'' event_type flds)"

definition ctx_store_artifact :: "env \<Rightarrow> tool_context \<Rightarrow> string \<Rightarrow> bytes \<Rightarrow> ('z world_scheme, string) eff" where
  "ctx_store_artifact env ctx key content =
     (if tc_syscall ctx then sys_store_artifact env key content ''text/plain'' 3
      else case tc_core ctx of
        None \<Rightarrow> throw (none_attribute ''store_artifact'')
      | Some c \<Rightarrow> store_artifact env c key content ''application/octet-stream'' 3)"

definition ctx_get_artifact :: "env \<Rightarrow> tool_context \<Rightarrow> string \<Rightarrow> ('z world_scheme, bytes) eff" where
  "ctx_get_artifact env ctx key =
     (if tc_syscall ctx then sys_get_artifact env key []
      else case tc_core ctx of
        None \<Rightarrow> throw (none_attribute ''get_artifact'')
      | Some c \<Rightarrow> get_artifact env c key [])"

lemmas tool_ctx_defs [op_defs] = ctx_log_def ctx_log_event_def ctx_store_artifact_def ctx_get_artifact_def

lemma keeps_ctx [keeps_rules]:
  assumes "traceless f"
  shows "keeps f (ctx_log env ctx level msg flds)" "keeps f (ctx_log_event env ctx ty msg flds)"
    "keeps f (ctx_store_artifact env ctx k b)" "keeps f (ctx_get_artifact env ctx k)"
  unfolding tool_ctx_defs sys_log_def core_log_def sys_store_artifact_def store_artifact_def
    sys_get_artifact_def get_artifact_def
  using assms by (intro keeps_rules; assumption)+

section \<open>Registry\<close>

record 'w tool =
  tl_name :: string
  tl_description :: string
  tl_parameters :: json
  tl_execute :: "tool_context \<Rightarrow> json \<Rightarrow> ('w, tool_result) eff"

type_synonym 'w tool_registry = "(string, 'w tool) dict"

definition ToolRegistry :: "'w tool_registry" where
  "ToolRegistry = []"

definition register :: "'w tool \<Rightarrow> 'w tool_registry \<Rightarrow> 'w tool_registry" where
  "register t reg = dset (tl_name t) t reg"

definition get_tool :: "'w tool_registry \<Rightarrow> string \<Rightarrow> 'w tool option" where
  "get_tool reg name = map_of reg name"

definition execute :: "'w tool_registry \<Rightarrow> string \<Rightarrow> tool_context \<Rightarrow> json \<Rightarrow> ('w, tool_result) eff" where
  "execute reg name ctx args = (case map_of reg name of
      None \<Rightarrow> ret (ToolResult (''Unknown tool: '' @ name) True)
    | Some t \<Rightarrow> tryc (tl_execute t ctx args)
        (\<lambda>e. ret (ToolResult (''Tool '' @ name @ '' failed: '' @ exn_str e) True)))"

definition get_summaries :: "'w tool_registry \<Rightarrow> string" where
  "get_summaries reg = join [CHR 0x0A]
     (map (\<lambda>(_, t). ''- '' @ tl_name t @ '': '' @ tl_description t) reg)"

definition tool_schema :: "'w tool \<Rightarrow> json" where
  "tool_schema t = JObj [(''type'', JStr ''function''),
     (''function'', JObj [(''name'', JStr (tl_name t)), (''description'', JStr (tl_description t)),
                         (''parameters'', tl_parameters t)])]"

definition to_openai_schema :: "'w tool_registry \<Rightarrow> json list" where
  "to_openai_schema reg = map (tool_schema \<circ> snd) reg"

text \<open>A registry holds each tool under its own name.\<close>

definition registry_ok :: "'w tool_registry \<Rightarrow> bool" where
  "registry_ok reg \<longleftrightarrow> dict_ok reg \<and> (\<forall>(n, t) \<in> set reg. tl_name t = n)"

lemma registry_ok_empty [simp]: "registry_ok ToolRegistry"
  by (simp add: registry_ok_def ToolRegistry_def)

lemma set_dset: "set (dset k v d) \<subseteq> insert (k, v) (set d)"
  by (induction d) auto

lemma registry_ok_register [simp, intro]: "registry_ok reg \<Longrightarrow> registry_ok (register t reg)"
  using set_dset[of "tl_name t" t reg] by (auto simp: registry_ok_def register_def)

lemma wp_execute [wp_simps]:
  "wp (execute reg name ctx args) Q E = (case map_of reg name of
      None \<Rightarrow> Q (ToolResult (''Unknown tool: '' @ name) True)
    | Some t \<Rightarrow> wp (tl_execute t ctx args) Q
        (\<lambda>e. Q (ToolResult (''Tool '' @ name @ '' failed: '' @ exn_str e) True)))"
  by (simp add: execute_def wp_simps split: option.splits)

text \<open>The registry as the map from names to tools that it implements.\<close>

lemma get_tool_register: "get_tool (register t reg) = (get_tool reg)(tl_name t \<mapsto> t)"
  by (simp add: get_tool_def register_def fun_eq_iff)

definition register_all :: "'w tool list \<Rightarrow> 'w tool_registry \<Rightarrow> 'w tool_registry" where
  "register_all ts reg = foldl (\<lambda>r t. register t r) reg ts"

lemma register_all_ok: "registry_ok reg \<Longrightarrow> registry_ok (register_all ts reg)"
  unfolding register_all_def by (induction ts arbitrary: reg) auto

lemma get_tool_register_all:
  "get_tool (register_all ts reg) n =
   (case find (\<lambda>t. tl_name t = n) (rev ts) of None \<Rightarrow> get_tool reg n | Some t \<Rightarrow> Some t)"
proof (induction ts rule: rev_induct)
  case (snoc t ts)
  then show ?case by (simp add: register_all_def get_tool_register)
qed (simp add: register_all_def)

lemma registered_subset: "snd ` set (register_all ts reg) \<subseteq> set ts \<union> snd ` set reg"
proof (induction ts rule: rev_induct)
  case (snoc t ts)
  have "snd ` set (register t (register_all ts reg)) \<subseteq> insert t (snd ` set (register_all ts reg))"
    using image_mono[OF set_dset[of "tl_name t" t "register_all ts reg"], of snd] by (simp add: register_def)
  also have "\<dots> \<subseteq> set (ts @ [t]) \<union> snd ` set reg"
    using insert_mono[OF snoc, of t] by simp
  finally show ?case by (simp only: register_all_def foldl_append foldl.simps)
qed (simp add: register_all_def)

lemma registry_names: "registry_ok reg \<Longrightarrow> map (tl_name \<circ> snd) reg = map fst reg"
  by (auto simp: registry_ok_def)

section \<open>Properties\<close>

text \<open>
  Executing a tool never raises: whatever name and arguments the model asks for, and
  whatever the tool does, the registry returns a result; an unknown name and a tool
  that raises give an error result that names the tool.
\<close>

theorem registry_execute_never_raises:
  "result (execute reg name ctx args) s = Inr (case get_tool reg name of
      None \<Rightarrow> ToolResult (''Unknown tool: '' @ name) True
    | Some t \<Rightarrow> (case result (tl_execute t ctx args) s of
          Inr r \<Rightarrow> r
        | Inl e \<Rightarrow> ToolResult (''Tool '' @ name @ '' failed: '' @ exn_str e) True))"
  by (simp add: execute_def get_tool_def eff_defs split: option.splits sum.splits prod.splits)

text \<open>
  Registering tools one after another gives a registry in which every name finds the
  tool registered last under it, and the schema sent to the LLM has exactly one entry
  for each name.
\<close>

theorem registry_holds_latest:
  "get_tool (register_all ts ToolRegistry) n = find (\<lambda>t. tl_name t = n) (rev ts) \<and>
   (\<exists>us. to_openai_schema (register_all ts ToolRegistry) = map tool_schema us \<and>
      set us \<subseteq> set ts \<and> distinct (map tl_name us) \<and> tl_name ` set us = tl_name ` set ts)"
proof -
  let ?reg = "register_all ts ToolRegistry"
  have ok: "registry_ok ?reg" by (simp add: register_all_ok)
  have "fst ` set ?reg = tl_name ` set ts"
    by (induction ts rule: rev_induct) (simp_all add: register_all_def ToolRegistry_def register_def)
  then have "tl_name ` set (map snd ?reg) = tl_name ` set ts" "distinct (map tl_name (map snd ?reg))"
    using registry_names[OF ok] ok unfolding registry_ok_def dict_ok_def
    by (metis image_set map_map)+
  moreover have "set (map snd ?reg) \<subseteq> set ts" using registered_subset[of ts ToolRegistry]
    by (simp add: ToolRegistry_def)
  moreover have "get_tool ?reg n = find (\<lambda>t. tl_name t = n) (rev ts)"
    unfolding get_tool_register_all by (simp add: get_tool_def ToolRegistry_def split: option.splits)
  moreover have "to_openai_schema ?reg = map tool_schema (map snd ?reg)"
    by (simp add: to_openai_schema_def)
  ultimately show ?thesis by blast
qed

end
