(* ===== verification/Memory.thy ===== *)
theory Memory
  imports Tools
begin

text \<open>
  \<open>AgentMemory\<close> of \<open>memory.py\<close>: the conversation an agent keeps, its persistence in
  the artifact store, the token estimates and the emergency compression.  A message is
  a JSON object, as the annotation \<open>list[dict]\<close> says; a session artifact that is JSON
  of another shape is not used (\<open>save\<close> never writes one).  \<open>int(total / 2.5)\<close> is
  \<open>2 * total div 5\<close>.
\<close>

type_synonym msg = "(string, json) dict"

record memory =
  mem_pid :: pid
  long_term :: string
  messages :: "msg list"
  summary :: string

definition AgentMemory :: "pid \<Rightarrow> memory" where
  "AgentMemory p = \<lparr>mem_pid = p, long_term = [], messages = [], summary = []\<rparr>"

section \<open>Persistence\<close>

definition mem_key :: "memory \<Rightarrow> string \<Rightarrow> string" where
  "mem_key m suffix = ''agent:'' @ str_int (mem_pid m) @ '':'' @ suffix"

fun as_message :: "json \<Rightarrow> msg option" where
  "as_message (JObj kvs) = Some kvs"
| "as_message _ = None"

fun as_messages :: "json \<Rightarrow> msg list option" where
  "as_messages (JList xs) = those (map as_message xs)"
| "as_messages _ = None"

definition load_long_term :: "env \<Rightarrow> tool_context \<Rightarrow> memory \<Rightarrow> ('z world_scheme, memory) eff" where
  "load_long_term env ctx m = tryc
     (bnd (ctx_get_artifact env ctx (mem_key m ''memory'')) (\<lambda>b. ret (m\<lparr>long_term := utf8_decode_replace b\<rparr>)))
     (\<lambda>_. ret m)"

definition load_session :: "env \<Rightarrow> tool_context \<Rightarrow> memory \<Rightarrow> ('z world_scheme, memory) eff" where
  "load_session env ctx m = tryc
     (bnd (ctx_get_artifact env ctx (mem_key m ''session'')) (\<lambda>b.
        let data = utf8_decode_replace b in
        if data = [] then ret m
        else case loads data of
            None \<Rightarrow> throw (JSONDecodeError ''session'')
          | Some j \<Rightarrow> ret (case as_messages j of None \<Rightarrow> m | Some ms \<Rightarrow> m\<lparr>messages := ms\<rparr>)))
     (\<lambda>_. ret m)"

definition load_summary :: "env \<Rightarrow> tool_context \<Rightarrow> memory \<Rightarrow> ('z world_scheme, memory) eff" where
  "load_summary env ctx m = tryc
     (bnd (ctx_get_artifact env ctx (mem_key m ''summary'')) (\<lambda>b. ret (m\<lparr>summary := utf8_decode_replace b\<rparr>)))
     (\<lambda>_. ret m)"

definition load :: "env \<Rightarrow> tool_context \<Rightarrow> memory \<Rightarrow> ('z world_scheme, memory) eff" where
  "load env ctx m = bnd (load_long_term env ctx m) (\<lambda>m1. bnd (load_session env ctx m1) (load_summary env ctx))"

definition session_json :: "memory \<Rightarrow> json" where
  "session_json m = JList (map JObj (messages m))"

definition save :: "env \<Rightarrow> tool_context \<Rightarrow> memory \<Rightarrow> ('z world_scheme, unit) eff" where
  "save env ctx m = tryc
     (seq (ctx_store_artifact env ctx (mem_key m ''memory'') (utf8_encode (long_term m)))
     (seq (ctx_store_artifact env ctx (mem_key m ''session'') (utf8_encode (dumps True (session_json m))))
     (seq (ctx_store_artifact env ctx (mem_key m ''summary'') (utf8_encode (summary m))) (ret ()))))
     (\<lambda>_. ret ())"

section \<open>Messages\<close>

definition mk_message :: "string \<Rightarrow> json \<Rightarrow> json \<Rightarrow> json \<Rightarrow> msg" where
  "mk_message role content tool_calls tool_call_id =
     [(''role'', JStr role), (''content'', content)] @
     (if truthy tool_calls then [(''tool_calls'', tool_calls)] else []) @
     (if truthy tool_call_id then [(''tool_call_id'', tool_call_id)] else [])"

definition add_message :: "string \<Rightarrow> json \<Rightarrow> json \<Rightarrow> json \<Rightarrow> memory \<Rightarrow> memory" where
  "add_message role content tool_calls tool_call_id m =
     m\<lparr>messages := messages m @ [mk_message role content tool_calls tool_call_id]\<rparr>"

definition nl :: string where
  "nl = [CHR 0x0A]"

definition system_content :: "memory \<Rightarrow> string \<Rightarrow> string" where
  "system_content m system_prompt = join nl ([system_prompt] @
     (if long_term m = [] then [] else [nl @ ''## Long-term Memory'' @ nl @ long_term m]) @
     (if summary m = [] then [] else [nl @ ''## Conversation Summary'' @ nl @ summary m]))"

definition get_context_messages :: "memory \<Rightarrow> string \<Rightarrow> msg list" where
  "get_context_messages m system_prompt =
     [(''role'', JStr ''system''), (''content'', JStr (system_content m system_prompt))] # messages m"

section \<open>Estimates\<close>

definition content_len :: "msg \<Rightarrow> nat" where
  "content_len x = length (py_str (dget x ''content'' (JStr [])))"

definition msg_len :: "msg \<Rightarrow> nat" where
  "msg_len x = content_len x + length (py_str (dget x ''tool_calls'' (JStr []))) * 2"

definition estimate_tokens :: "memory \<Rightarrow> nat" where
  "estimate_tokens m = 2 * sum_list (map content_len (messages m)) div 5"

definition total_len :: "memory \<Rightarrow> nat" where
  "total_len m = length (long_term m) + length (summary m) + sum_list (map msg_len (messages m))"

definition estimate_total_tokens :: "memory \<Rightarrow> nat" where
  "estimate_total_tokens m = 2 * total_len m div 5"

definition needs_summarization :: "nat \<Rightarrow> nat \<Rightarrow> memory \<Rightarrow> bool" where
  "needs_summarization threshold max_tokens m \<longleftrightarrow>
     length (messages m) > threshold \<or> estimate_total_tokens m > max_tokens"

section \<open>Compression\<close>

definition force_compress :: "memory \<Rightarrow> memory" where
  "force_compress m =
     (let n = length (messages m) in
      if n > 4 then m\<lparr>messages := last_n 4 (messages m),
                      summary := (if length (summary m) > 2000 then last_n 2000 (summary m) else summary m)\<rparr>
      else if n > 2 then m\<lparr>messages := last_n 2 (messages m), summary := []\<rparr>
      else m\<lparr>messages := (if n > 1 then last_n 1 (messages m) else messages m), summary := [],
             long_term := (if length (long_term m) > 1000 then last_n 1000 (long_term m) else long_term m)\<rparr>)"

lemma force_compress_suffix: "\<exists>ys. messages m = ys @ messages (force_compress m)"
  using last_n_suffix[of "messages m"] by (simp add: force_compress_def Let_def)

lemma force_compress_total_len: "total_len (force_compress m) \<le> total_len m"
  using sum_list_last_n_le[of msg_len 4 "messages m"] sum_list_last_n_le[of msg_len 2 "messages m"]
    sum_list_last_n_le[of msg_len 1 "messages m"]
  by (auto simp: force_compress_def total_len_def Let_def)

lemma force_compress_estimate: "estimate_total_tokens (force_compress m) \<le> estimate_total_tokens m"
  by (simp add: estimate_total_tokens_def div_le_mono force_compress_total_len)

lemma force_compress_last: "messages m \<noteq> [] \<Longrightarrow>
    messages (force_compress m) \<noteq> [] \<and> last (messages (force_compress m)) = last (messages m)"
  by (auto simp: force_compress_def last_n_def Let_def)

lemma force_compress_small:
  assumes "length (messages m) \<le> 1"
  shows "messages (force_compress m) = messages m" "summary (force_compress m) = []"
    "length (long_term (force_compress m)) \<le> 1000"
  using assms by (simp_all add: force_compress_def)

definition fully_compressed :: "memory \<Rightarrow> bool" where
  "fully_compressed m \<longleftrightarrow> length (messages m) \<le> 1 \<and> summary m = [] \<and> length (long_term m) \<le> 1000"

lemma fully_compressed_stays: "fully_compressed m \<Longrightarrow> force_compress m = m"
  by (simp add: fully_compressed_def force_compress_def)

lemma force_compress_phase:
  "length (messages (force_compress m)) =
     (let n = length (messages m) in if n > 4 then 4 else if n > 2 then 2 else min n 1)"
  by (simp add: force_compress_def Let_def)

lemma force_compress_full: "length (messages m) \<le> 2 \<Longrightarrow> fully_compressed (force_compress m)"
  by (auto simp: fully_compressed_def force_compress_def Let_def)

section \<open>Round trip\<close>

definition ctx_usable :: "tool_context \<Rightarrow> bool" where
  "ctx_usable ctx \<longleftrightarrow> tc_syscall ctx \<or> tc_core ctx \<noteq> None"

lemma mem_key_ne [simp]: "mem_key m suffix \<noteq> []"
  by (simp add: mem_key_def)

lemma mem_key_inject [simp]: "mem_key m a = mem_key m b \<longleftrightarrow> a = b"
  by (simp add: mem_key_def)

lemma wp_store:
  assumes "ctx_usable ctx" "k \<noteq> []"
    and "\<And>v t. store_of (trace t) = (store_of (trace s))(k \<mapsto> b) \<Longrightarrow> Q v t"
  shows "wp (ctx_store_artifact (with_store env) ctx k b) Q E s"
  using assms
  by (auto simp: ctx_store_artifact_def sys_store_artifact_def store_artifact_def wp_simps with_store_def
      store_answer_def rpc_def Let_def ctx_usable_def store_step_def)

lemma wp_get:
  assumes "ctx_usable ctx" "store_of (trace s) k = Some b"
    and "\<And>t. store_of (trace t) = store_of (trace s) \<Longrightarrow> Q b t"
  shows "wp (ctx_get_artifact (with_store env) ctx k) Q E s"
  using assms
  by (auto simp: ctx_get_artifact_def sys_get_artifact_def get_artifact_def wp_simps with_store_def
      get_answer_def rpc_def Let_def ctx_usable_def butlast_append)

lemma those_map_Some: "those (map Some xs) = Some xs"
  by (induction xs) simp_all

lemma as_messages_session: "as_messages (session_json m) = Some (messages m)"
  by (simp add: session_json_def comp_def those_map_Some)

definition memory_ok :: "memory \<Rightarrow> bool" where
  "memory_ok m \<longleftrightarrow> wf_json (session_json m)"

definition saved_in :: "(string \<rightharpoonup> bytes) \<Rightarrow> memory \<Rightarrow> bool" where
  "saved_in st m \<longleftrightarrow> st (mem_key m ''memory'') = Some (utf8_encode (long_term m)) \<and>
     st (mem_key m ''session'') = Some (utf8_encode (dumps True (session_json m))) \<and>
     st (mem_key m ''summary'') = Some (utf8_encode (summary m))"

lemma wp_save: "ctx_usable ctx \<Longrightarrow> wp (save (with_store env) ctx m) (\<lambda>_ t. saved_in (store_of (trace t)) m) E s"
  unfolding save_def by (simp add: wp_simps) (rule wp_store; simp add: saved_in_def)+

lemma mem_key_update [simp]:
  "mem_key (m\<lparr>long_term := l\<rparr>) suffix = mem_key m suffix"
  "mem_key (m\<lparr>messages := ms\<rparr>) suffix = mem_key m suffix"
  by (simp_all add: mem_key_def)

lemma wp_load:
  assumes "ctx_usable ctx" "memory_ok m" "saved_in (store_of (trace s)) m" "mem_pid m0 = mem_pid m"
  shows "wp (load (with_store env) ctx m0) (\<lambda>v _. v = m) E s"
proof -
  have key: "mem_key m0 = mem_key m" using assms(4) by (simp add: mem_key_def fun_eq_iff)
  have session: "loads (dumps True (session_json m)) = Some (session_json m)"
    using assms(2) by (simp add: memory_ok_def loads_dumps)
  have ne: "dumps True (session_json m) \<noteq> []" by (simp add: session_json_def)
  have s3: "wp (load_summary (with_store env) ctx (m0\<lparr>long_term := long_term m, messages := messages m\<rparr>))
      (\<lambda>v _. v = m) E t" if "store_of (trace t) = store_of (trace s)" for t
    unfolding load_summary_def wp_simps
    by (rule wp_get[OF assms(1), where b = "utf8_encode (summary m)"])
      (use assms that in \<open>auto intro!: memory.equality simp: key saved_in_def\<close>)
  have s2: "wp (load_session (with_store env) ctx (m0\<lparr>long_term := long_term m\<rparr>))
      (\<lambda>m2. wp (load_summary (with_store env) ctx m2) (\<lambda>v _. v = m) E) E t"
    if "store_of (trace t) = store_of (trace s)" for t
    unfolding load_session_def wp_simps
    by (rule wp_get[OF assms(1), where b = "utf8_encode (dumps True (session_json m))"])
      (use assms that s3 in \<open>simp_all add: key saved_in_def session ne as_messages_session wp_simps Let_def\<close>)
  show ?thesis
    unfolding load_def load_long_term_def wp_simps
    by (rule wp_get[OF assms(1), where b = "utf8_encode (long_term m)"]) (use assms s2 in \<open>simp_all add: key saved_in_def\<close>)
qed

section \<open>Properties\<close>


definition example_ctx :: tool_context where
  "example_ctx = \<lparr>tc_pid = 2, tc_core = Some (CoreClient 2), tc_syscall = False, tc_workspace = []\<rparr>"


text \<open>
  C23.  Emergency compression: a call never raises the token estimate, keeps a suffix of the
  conversation with its newest message, and three calls bring any memory to the floor:
  at most one message, no summary, at most 1000 characters of long-term memory; from
  there it changes nothing any more.
\<close>

theorem force_compress_progress:
  "estimate_total_tokens (force_compress m) \<le> estimate_total_tokens m \<and>
   (\<exists>ys. messages m = ys @ messages (force_compress m)) \<and>
   (messages m = [] \<or> last (messages (force_compress m)) = last (messages m) \<and> messages (force_compress m) \<noteq> []) \<and>
   fully_compressed ((force_compress ^^ 3) m) \<and> (force_compress ^^ 4) m = (force_compress ^^ 3) m"
proof -
  have "length (messages ((force_compress ^^ 2) m)) \<le> 2"
    by (auto simp: numeral_2_eq_2 force_compress_phase Let_def min_def)
  then have full: "fully_compressed ((force_compress ^^ 3) m)"
    using force_compress_full by (simp add: numeral_3_eq_3 numeral_2_eq_2)
  have "(force_compress ^^ 4) m = force_compress ((force_compress ^^ 3) m)"
    by (simp add: eval_nat_numeral)
  with full show ?thesis
    using force_compress_estimate force_compress_suffix force_compress_last fully_compressed_stays by metis
qed

end
