(* ===== verification/Agent.thy ===== *)
theory Agent
  imports Syscall
begin

text \<open>
  \<open>HiveAgent\<close> of \<open>agent.py\<close>: the identity set by \<open>Init\<close>, the mailbox with its two
  paths (a reply that someone awaits, a late \<open>task_response\<close>), correlated requests,
  and the \<open>AgentService\<close> handlers.  Methods that subclasses override are parameters
  of the methods that call them.  The \<open>Execute\<close> handler runs three coroutines; it is
  a step relation whose steps are the places where they can interleave.
\<close>

section \<open>State\<close>

record agent = world +
  a_pid :: pid
  a_ppid :: pid
  a_user :: string
  a_role :: string
  a_config :: agent_config
  a_core :: "core_client option"
  a_server :: bool
  pending_requests :: "message futures"
  pending_results :: "message list"

definition agent_ok :: "'z agent_scheme \<Rightarrow> bool" where
  "agent_ok s \<longleftrightarrow> futures_ok (pending_requests s) \<and>
     (\<forall>c. a_core s = Some c \<longrightarrow> core_ok c)"

section \<open>Messages\<close>

text \<open>
  The payload of a \<open>cron_task\<close> gets a \<open>task\<close> key.  \<open>in\<close> and indexing behave as
  Python's do on each kind of JSON value: on a number, a boolean or null \<open>in\<close> raises
  \<open>TypeError\<close>, on a list or a string indexing by a key does.
\<close>

definition add_task_key :: "json \<Rightarrow> exn + json" where
  "add_task_key j = (case j of
      JObj kvs \<Rightarrow> (case map_of kvs ''description'' of
          Some d \<Rightarrow> Inr (if dmem kvs ''task'' then j else JObj (dset ''task'' d kvs))
        | None \<Rightarrow> Inr j)
    | JList xs \<Rightarrow> if JStr ''description'' \<in> set xs \<and> JStr ''task'' \<notin> set xs
                  then Inl (TypeError ''list indices must be integers or slices, not str'') else Inr j
    | JStr t \<Rightarrow> if contains ''description'' t \<and> \<not> contains ''task'' t
                then Inl (TypeError ''string indices must be integers'') else Inr j
    | _ \<Rightarrow> Inl (TypeError ''argument is not iterable''))"

definition cron_payload :: "bytes \<Rightarrow> exn + bytes" where
  "cron_payload b = (case utf8_decode b of
      None \<Rightarrow> Inr b
    | Some t \<Rightarrow> (case loads t of
        None \<Rightarrow> Inr b
      | Some j \<Rightarrow> (case add_task_key j of
          Inl e \<Rightarrow> Inl e
        | Inr j' \<Rightarrow> Inr (if j' = j then b else utf8_encode (dumps False j')))))"

definition lift_sum :: "exn + 'a \<Rightarrow> ('s, 'a) eff" where
  "lift_sum x = (case x of Inl e \<Rightarrow> throw e | Inr v \<Rightarrow> ret v)"

lemma wp_lift_sum [wp_simps]:
  "wp (lift_sum x) Q E = (case x of Inl e \<Rightarrow> E e | Inr v \<Rightarrow> Q v)"
  by (simp add: lift_sum_def wp_simps split: sum.splits)

lemma keeps_lift_sum [keeps_rules]: "keeps f (lift_sum x)"
  unfolding lift_sum_def by (intro keeps_rules)

type_synonym 'z handler = "message \<Rightarrow> ('z agent_scheme, message_ack) eff"

definition on_message :: "'z handler \<Rightarrow> 'z handler" where
  "on_message handle m = bnd (gets pending_requests) (\<lambda>t.
     if ms_reply_to m \<noteq> [] \<and> dmem (awaited t) (ms_reply_to m) then
       seq (modify (\<lambda>s. s\<lparr>pending_requests := resolve (ms_reply_to m) m (pending_requests s)\<rparr>))
         (ret (MessageAck ACK_ACCEPTED))
     else if ms_type m = ''task_response'' \<and> ms_reply_to m \<noteq> [] then
       seq (modify (\<lambda>s. s\<lparr>pending_results := pending_results s @ [m]\<rparr>)) (ret (MessageAck ACK_ACCEPTED))
     else if ms_type m = ''cron_task'' then
       bnd (lift_sum (cron_payload (ms_payload m))) (\<lambda>b. handle (m\<lparr>ms_payload := b\<rparr>))
     else handle m)"

text \<open>The default \<open>handle_message\<close>, which subclasses override.\<close>

definition handle_message :: "'z handler" where
  "handle_message m = ret (MessageAck ACK_ACCEPTED)"

definition reply_to :: "env \<Rightarrow> message \<Rightarrow> bytes \<Rightarrow> string \<Rightarrow> ('z agent_scheme, unit) eff" where
  "reply_to env original payload ty = bnd (gets a_core) (\<lambda>c. case c of
      None \<Rightarrow> ret ()
    | Some core \<Rightarrow> seq (send_message env core (ms_from_pid original) [] ty payload ''normal'' False 0
                          (ms_message_id original)) (ret ()))"

definition drain_pending_results :: "('z agent_scheme, message list) eff" where
  "drain_pending_results = bnd (gets pending_results) (\<lambda>rs.
     seq (modify (\<lambda>s. s\<lparr>pending_results := []\<rparr>)) (ret rs))"

section \<open>Correlated requests\<close>

text \<open>
  \<open>send_and_wait\<close> and \<open>send_and_wait_core\<close> up to \<open>wait_for\<close>: draw the request id,
  register it, send.  Only a time-out unregisters it: a send that raises leaves the
  entry in the table.
\<close>

definition open_request :: "string \<Rightarrow> ('z agent_scheme, unit) eff" where
  "open_request rid = modify (\<lambda>s. s\<lparr>pending_requests := new_future rid (pending_requests s)\<rparr>)"

definition send_and_wait_start :: "env \<Rightarrow> pid \<Rightarrow> string \<Rightarrow> bytes \<Rightarrow> ('z agent_scheme, string) eff" where
  "send_and_wait_start env to_pid ty payload = bnd (uuid4 env) (\<lambda>rid. seq (open_request rid)
     (seq (sys_send env to_pid [] ty payload ''normal'' False 0 rid) (ret rid)))"

definition send_and_wait_core_start :: "env \<Rightarrow> pid \<Rightarrow> string \<Rightarrow> bytes \<Rightarrow> ('z agent_scheme, string) eff" where
  "send_and_wait_core_start env to_pid ty payload = bnd (gets a_core) (\<lambda>c. case c of
      None \<Rightarrow> throw (RuntimeError ''CoreClient not connected'')
    | Some core \<Rightarrow> bnd (uuid4 env) (\<lambda>rid. seq (open_request rid)
        (seq (send_message env core to_pid [] ty payload ''normal'' False 0 rid) (ret rid))))"

text \<open>
  The end of the wait: \<open>wait_for\<close> returns the message when the future is done, and
  at the deadline cancels it, which unregisters the request and raises.
\<close>

definition finish_wait :: "pid \<Rightarrow> string \<Rightarrow> string \<Rightarrow> ('z agent_scheme, message) eff" where
  "finish_wait to_pid timeout rid = bnd (gets (\<lambda>s. seen (pending_requests s) rid)) (\<lambda>f. case f of
      Some (Done m) \<Rightarrow> ret m
    | _ \<Rightarrow> seq (modify (\<lambda>s. s\<lparr>pending_requests := abandon rid (pending_requests s)\<rparr>))
        (throw (TimeoutError (''No reply from PID '' @ str_int to_pid @ '' within '' @ timeout @
           ''s (request_id='' @ rid @ '')''))))"

definition send_fire_and_forget :: "env \<Rightarrow> pid \<Rightarrow> string \<Rightarrow> bytes \<Rightarrow> ('z agent_scheme, string) eff" where
  "send_fire_and_forget env to_pid ty payload = bnd (uuid4 env) (\<lambda>rid.
     seq (sys_send env to_pid [] ty payload ''normal'' False 0 rid) (ret rid))"

section \<open>Service handlers\<close>

record init_request =
  iq_pid :: pid
  iq_ppid :: pid
  iq_user :: string
  iq_role :: int
  iq_config :: agent_config

definition set_identity :: "init_request \<Rightarrow> 'z agent_scheme \<Rightarrow> 'z agent_scheme" where
  "set_identity r s = s\<lparr>a_pid := iq_pid r, a_ppid := iq_ppid r, a_user := iq_user r,
     a_role := role_from_proto (iq_role r), a_core := map_option (set_pid (iq_pid r)) (a_core s),
     a_config := iq_config r\<rparr>"

text \<open>The response is the pair (ready, error).\<close>

definition Init :: "(agent_config \<Rightarrow> ('z agent_scheme, unit) eff) \<Rightarrow> init_request \<Rightarrow>
    ('z agent_scheme, bool \<times> string) eff" where
  "Init on_init r = seq (modify (set_identity r))
     (tryc (seq (on_init (iq_config r)) (ret (True, []))) (\<lambda>e. ret (False, exn_str e)))"

definition Shutdown :: "(string \<Rightarrow> ('z agent_scheme, bytes option) eff) \<Rightarrow> int \<Rightarrow>
    ('z agent_scheme, bytes) eff" where
  "Shutdown on_shutdown reason = bnd (on_shutdown (shutdown_reason reason)) (\<lambda>snapshot.
     bnd (gets a_server) (\<lambda>srv. seq (whenc srv (modify (emit StopServer)))
       (ret (case snapshot of None \<Rightarrow> [] | Some b \<Rightarrow> b))))"

definition Heartbeat :: int where
  "Heartbeat = 1"

text \<open>
  The fields of the request that \<open>DeliverMessage\<close> does not copy keep the defaults of
  the dataclass; the acknowledgement carries the id of the message.
\<close>

definition delivered :: "message \<Rightarrow> message" where
  "delivered r = r\<lparr>ms_relation := ''system'', ms_priority := ''normal''\<rparr>"

definition DeliverMessage :: "'z handler \<Rightarrow> 'z handler" where
  "DeliverMessage handle r = bnd (on_message handle (delivered r)) (\<lambda>ack.
     ret (ack\<lparr>ma_message_id := ms_message_id r\<rparr>))"

lemmas agent_defs [op_defs] = on_message_def handle_message_def reply_to_def drain_pending_results_def
  open_request_def send_and_wait_start_def send_and_wait_core_start_def finish_wait_def
  send_fire_and_forget_def Init_def Shutdown_def DeliverMessage_def

section \<open>The mailbox\<close>

definition deliver_all :: "'z handler \<Rightarrow> message list \<Rightarrow> 'z agent_scheme \<Rightarrow> 'z agent_scheme" where
  "deliver_all handle ms s = foldl (\<lambda>s m. final (on_message handle m) s) s ms"

text \<open>A handler that leaves the table of pending requests alone.\<close>

definition keeps_requests :: "'z handler \<Rightarrow> bool" where
  "keeps_requests handle \<longleftrightarrow> (\<forall>m s. pending_requests (final (handle m) s) = pending_requests s)"

lemma on_message_requests:
  assumes "keeps_requests handle" and "map_of (awaited (pending_requests s)) [] = None"
  shows "pending_requests (final (on_message handle m) s) =
         resolve (ms_reply_to m) m (pending_requests s)"
proof (cases "ms_reply_to m \<noteq> [] \<and> dmem (awaited (pending_requests s)) (ms_reply_to m)")
  case True
  then show ?thesis by (simp add: on_message_def eff_defs)
next
  case False
  then have "resolve (ms_reply_to m) m (pending_requests s) = pending_requests s"
    using assms(2) by (auto simp: resolve_def dmem_map_of split: option.splits)
  with False assms(1) show ?thesis
    by (auto simp: on_message_def eff_defs keeps_requests_def lift_sum_def split: sum.splits)
qed

lemma awaited_resolve: "map_of (awaited t) j = None \<Longrightarrow> map_of (awaited (resolve i r t)) j = None"
  by (auto simp: resolve_def split: option.splits)

lemma deliver_all_requests:
  "keeps_requests handle \<Longrightarrow> map_of (awaited (pending_requests s)) [] = None \<Longrightarrow>
   pending_requests (deliver_all handle ms s) =
   run_ops new_future resolve (map (\<lambda>m. Deliver (ms_reply_to m) m) ms) (pending_requests s)"
  unfolding deliver_all_def
  by (induction ms arbitrary: s) (simp_all add: on_message_requests awaited_resolve)

lemma fresh_deliveries: "fresh_ops (map (\<lambda>m. Deliver (f m) (g m)) ms) u"
  by (induction ms) simp_all

lemma first_delivery_find:
  "first_delivery i (map (\<lambda>m. Deliver (ms_reply_to m) m) ms) = find (\<lambda>m. ms_reply_to m = i) ms"
  by (induction ms) auto

text \<open>A request that has been opened under a fresh id sees the first message sent in reply to it.\<close>

lemma request_seen:
  assumes "futures_ok T" "seen T rid = None" "map_of (awaited T) [] = None" "rid \<noteq> []"
    "keeps_requests handle" and t: "pending_requests t = new_future rid T"
  shows "seen (pending_requests (deliver_all handle ms t)) rid =
         Some (case find (\<lambda>m. ms_reply_to m = rid) ms of None \<Rightarrow> Pending | Some m \<Rightarrow> Done m)"
proof -
  let ?ops = "map (\<lambda>m. Deliver (ms_reply_to m) m) ms"
  have "seen (run_ops new_future resolve (Register rid # ?ops) T) rid =
        Some (case first_delivery rid ?ops of None \<Rightarrow> Pending | Some r \<Rightarrow> Done r)"
    by (rule futs.own_result) (use assms in \<open>auto simp: fresh_deliveries domIff\<close>)
  moreover have "map_of (awaited (pending_requests t)) [] = None"
    using assms(3,4) t by (simp add: new_future_def)
  ultimately show ?thesis using assms(5) t
    by (simp add: deliver_all_requests first_delivery_find)
qed

lemma finish_wait_result:
  "result (finish_wait p tmo rid) s = (case seen (pending_requests s) rid of
     Some (Done m) \<Rightarrow> Inr m
   | _ \<Rightarrow> Inl (TimeoutError (''No reply from PID '' @ str_int p @ '' within '' @ tmo @
             ''s (request_id='' @ rid @ '')'')))"
  by (simp add: finish_wait_def eff_defs split: option.splits fut.splits)

lemma send_and_wait_core_start_ok:
  assumes "a_core s = Some core" "e_uuid env (trace s @ [Uuid]) = rid"
    "e_send env (trace s @ [Uuid, rpc core None (send_req p [] ty b ''normal'' False 0 rid)]) = Inr (True, err, mid)"
  shows "result (send_and_wait_core_start env p ty b) s = Inr rid"
    and "pending_requests (final (send_and_wait_core_start env p ty b) s) = new_future rid (pending_requests s)"
  using assms by (simp_all add: send_and_wait_core_start_def open_request_def send_message_def checked_def
      ask_env_def uuid4_def emit_def eff_defs)

lemma send_and_wait_core_start_refused:
  assumes "a_core s = Some core" "e_uuid env (trace s @ [Uuid]) = rid"
    "e_send env (trace s @ [Uuid, rpc core None (send_req p [] ty b ''normal'' False 0 rid)]) = Inr (False, err, mid)"
  shows "result (send_and_wait_core_start env p ty b) s = Inl (RuntimeError (''send failed: '' @ err))"
    and "pending_requests (final (send_and_wait_core_start env p ty b) s) = new_future rid (pending_requests s)"
  using assms by (simp_all add: send_and_wait_core_start_def open_request_def send_message_def checked_def
      ask_env_def uuid4_def emit_def eff_defs)

section \<open>The Execute stream\<close>

text \<open>
  The state that the three coroutines of \<open>Execute\<close> share.  Contexts are objects, so
  they live in a store: a second \<open>TaskRequest\<close> makes a new context current while the
  running task keeps the one it was given.  \<open>None\<close> in the queue is the sentinel that
  stops the writer.
\<close>

datatype runner = NotStarted | Running nat | Finished

record 'r exec =
  ex_ctxs :: "'r syscall_ctx list"
  ex_current :: "nat option"
  ex_task :: "task option"
  ex_runner :: runner
  ex_queue :: "task_progress option list"
  ex_written :: "task_progress list"
  ex_writer_done :: bool

definition exec_init :: "'r exec" where
  "exec_init = \<lparr>ex_ctxs = [], ex_current = None, ex_task = None, ex_runner = NotStarted,
     ex_queue = [], ex_written = [], ex_writer_done = False\<rparr>"

definition receive_task :: "task \<Rightarrow> 'r exec \<Rightarrow> 'r exec" where
  "receive_task t x = x\<lparr>ex_task := Some t, ex_current := Some (length (ex_ctxs x)),
     ex_ctxs := ex_ctxs x @ [SyscallContext (tk_task_id t)]\<rparr>"

definition receive_result :: "string \<Rightarrow> 'r \<Rightarrow> 'r exec \<Rightarrow> 'r exec" where
  "receive_result cid r x = (case ex_current x of
      None \<Rightarrow> x
    | Some n \<Rightarrow> x\<lparr>ex_ctxs := (ex_ctxs x)[n := resolve_syscall cid r (ex_ctxs x ! n)]\<rparr>)"

definition task_syscall :: "nat \<Rightarrow> string \<Rightarrow> request \<Rightarrow> 'r exec \<Rightarrow> 'r exec" where
  "task_syscall n cid r x = (case send_syscall cid r (ex_ctxs x ! n) [] of
      (ctx, ps) \<Rightarrow> x\<lparr>ex_ctxs := (ex_ctxs x)[n := ctx], ex_queue := ex_queue x @ map Some ps\<rparr>)"

definition task_update :: "nat \<Rightarrow> string \<Rightarrow> rat \<Rightarrow> 'r exec \<Rightarrow> 'r exec" where
  "task_update n msg pct x = x\<lparr>ex_queue := ex_queue x @ map Some (put_progress msg pct (ex_ctxs x ! n) [])\<rparr>"

fun final_progress :: "string \<Rightarrow> exn + task_result \<Rightarrow> task_progress" where
  "final_progress tid (Inr res) = \<lparr>tp_task_id = tid, tp_type = PROGRESS_COMPLETED, tp_message = ''completed'',
     tp_percent = 100, tp_syscalls = [], tp_result = Some res\<rparr>"
| "final_progress tid (Inl e) = \<lparr>tp_task_id = tid, tp_type = PROGRESS_FAILED, tp_message = exn_str e,
     tp_percent = 0, tp_syscalls = [], tp_result = Some (TaskResult 1 (exn_str e) [] [])\<rparr>"

definition task_return :: "task \<Rightarrow> exn + task_result \<Rightarrow> 'r exec \<Rightarrow> 'r exec" where
  "task_return t res x = x\<lparr>ex_runner := Finished,
     ex_queue := ex_queue x @ [Some (final_progress (tk_task_id t) res), None]\<rparr>"

definition is_final :: "task_progress \<Rightarrow> bool" where
  "is_final p \<longleftrightarrow> tp_type p = PROGRESS_COMPLETED \<or> tp_type p = PROGRESS_FAILED"

text \<open>
  A step of the reader, of the task, or of the writer.  The task is arbitrary: it may
  have any number of syscalls under way (\<open>asyncio.gather\<close>) and return or raise at any
  time.
\<close>

inductive exec_step :: "'r exec \<Rightarrow> 'r exec \<Rightarrow> bool" where
  read_task: "exec_step x (receive_task t x)"
| read_result: "exec_step x (receive_result cid r x)"
| start: "ex_runner x = NotStarted \<Longrightarrow> ex_current x = Some n \<Longrightarrow> exec_step x (x\<lparr>ex_runner := Running n\<rparr>)"
| syscall: "ex_runner x = Running n \<Longrightarrow> exec_step x (task_syscall n cid req x)"
| progress: "ex_runner x = Running n \<Longrightarrow> exec_step x (task_update n msg pct x)"
| return: "ex_runner x = Running n \<Longrightarrow> ex_task x = Some t \<Longrightarrow> exec_step x (task_return t res x)"
| write_item: "\<not> ex_writer_done x \<Longrightarrow> ex_queue x = Some p # q \<Longrightarrow>
    exec_step x (x\<lparr>ex_queue := q, ex_written := ex_written x @ [p]\<rparr>)"
| stop_writer: "\<not> ex_writer_done x \<Longrightarrow> ex_queue x = None # q \<Longrightarrow>
    exec_step x (x\<lparr>ex_queue := q, ex_writer_done := True\<rparr>)"

definition exec_reach :: "'r exec \<Rightarrow> bool" where
  "exec_reach x \<longleftrightarrow> exec_step\<^sup>*\<^sup>* exec_init x"

text \<open>
  Everything put so far, in order, is what was written and what is still queued;
  before the task returns none of it is final, afterwards exactly the last one is.
\<close>

definition stream :: "'r exec \<Rightarrow> task_progress option list" where
  "stream x = map Some (ex_written x) @ (if ex_writer_done x then [None] else []) @ ex_queue x"

definition exec_ok :: "'r exec \<Rightarrow> bool" where
  "exec_ok x \<longleftrightarrow> (\<exists>ps. (\<forall>p \<in> set ps. \<not> is_final p) \<and>
     (if ex_runner x = Finished
      then \<exists>t. is_final t \<and> stream x = map Some ps @ [Some t, None] \<and> (ex_writer_done x \<longrightarrow> ex_queue x = [])
      else stream x = map Some ps \<and> \<not> ex_writer_done x))"

lemma is_final_final_progress [simp]: "is_final (final_progress tid res)"
  by (cases res) (simp_all add: is_final_def)

lemma stream_simps [simp]:
  "stream (receive_task t x) = stream x" "stream (receive_result cid r x) = stream x"
  "stream (x\<lparr>ex_runner := rn\<rparr>) = stream x"
  "\<not> ex_writer_done x \<Longrightarrow> ex_queue x = Some p # q \<Longrightarrow>
     stream (x\<lparr>ex_queue := q, ex_written := ex_written x @ [p]\<rparr>) = stream x"
  "\<not> ex_writer_done x \<Longrightarrow> ex_queue x = None # q \<Longrightarrow>
     stream (x\<lparr>ex_queue := q, ex_writer_done := True\<rparr>) = stream x"
  by (simp_all add: stream_def receive_task_def receive_result_def split: option.split)

lemma stream_put:
  "\<exists>p. stream (task_syscall n cid r x) = stream x @ [Some p] \<and> \<not> is_final p"
  "\<exists>p. stream (task_update n msg pct x) = stream x @ [Some p] \<and> \<not> is_final p"
  "stream (task_return t res x) = stream x @ [Some (final_progress (tk_task_id t) res), None]"
  by (simp_all add: stream_def task_syscall_def send_syscall_def task_update_def put_progress_def
      task_return_def is_final_def)

lemma exec_fields [simp]:
  "ex_runner (receive_task t x) = ex_runner x" "ex_runner (receive_result cid r x) = ex_runner x"
  "ex_runner (task_syscall n cid req x) = ex_runner x" "ex_runner (task_update n msg pct x) = ex_runner x"
  "ex_runner (task_return t res x) = Finished"
  "ex_writer_done (receive_task t x) = ex_writer_done x"
  "ex_writer_done (receive_result cid r x) = ex_writer_done x"
  "ex_writer_done (task_syscall n cid req x) = ex_writer_done x"
  "ex_writer_done (task_update n msg pct x) = ex_writer_done x"
  "ex_writer_done (task_return t res x) = ex_writer_done x"
  "ex_queue (receive_task t x) = ex_queue x" "ex_queue (receive_result cid r x) = ex_queue x"
  by (simp_all add: receive_task_def receive_result_def task_syscall_def send_syscall_def
      task_update_def task_return_def split: option.split)

lemma running_ok:
  "ex_runner x \<noteq> Finished \<Longrightarrow> exec_ok x \<longleftrightarrow>
   \<not> ex_writer_done x \<and> (\<exists>ps. (\<forall>p \<in> set ps. \<not> is_final p) \<and> stream x = map Some ps)"
  by (auto simp: exec_ok_def)

lemma snoc_ok: "\<forall>p \<in> set ps. \<not> is_final p \<Longrightarrow> \<not> is_final q \<Longrightarrow>
    \<exists>qs. (\<forall>p \<in> set qs. \<not> is_final p) \<and> map Some ps @ [Some q] = map Some qs"
  by (rule exI[of _ "ps @ [q]"]) auto

lemma exec_ok_init: "exec_ok exec_init"
  by (simp add: exec_ok_def exec_init_def stream_def)

lemma stop_queue:
  assumes "exec_ok x" "\<not> ex_writer_done x" "ex_queue x = None # q"
  shows "ex_runner x = Finished \<and> q = []"
proof -
  from assms(1) obtain ps where ps: "if ex_runner x = Finished
      then \<exists>t. stream x = map Some ps @ [Some t, None] else stream x = map Some ps"
    by (auto simp: exec_ok_def split: if_splits)
  have st: "stream x = map Some (ex_written x) @ None # q" using assms(2,3) by (simp add: stream_def)
  have fin: "ex_runner x = Finished"
    using ps st by (metis in_set_conv_decomp in_set_conv_nth length_map nth_map option.distinct(1))
  with ps st obtain t where eq: "map Some (ex_written x) @ None # q = map Some (ps @ [t]) @ [None]" by auto
  have "q = []"
  proof (rule ccontr)
    assume "q \<noteq> []"
    then obtain q' z where "q = q' @ [z]" by (metis rev_exhaust)
    with eq have "None \<in> set (map Some (ps @ [t]))"
      by (metis append.assoc append_Cons append_same_eq butlast_snoc in_set_conv_decomp)
    then show False by auto
  qed
  with fin show ?thesis by simp
qed

lemma exec_ok_step: "exec_step x y \<Longrightarrow> exec_ok x \<Longrightarrow> exec_ok y"
proof (induction rule: exec_step.induct)
  case (syscall x n cid req)
  then show ?case using stream_put(1)[of n cid req x] by (auto simp: running_ok intro: snoc_ok)
next
  case (progress x n msg pct)
  then show ?case using stream_put(2)[of n msg pct x] by (auto simp: running_ok intro: snoc_ok)
next
  case (return x n t res)
  then show ?case by (auto simp: running_ok exec_ok_def stream_put(3))
next
  case (stop_writer x q)
  then show ?case using stop_queue[OF stop_writer.prems stop_writer.hyps] by (auto simp: exec_ok_def)
qed (auto simp: exec_ok_def)

lemma exec_reach_ok: "exec_reach x \<Longrightarrow> exec_ok x"
  unfolding exec_reach_def by (induction rule: rtranclp_induct) (auto intro: exec_ok_init exec_ok_step)

lemma finished_queue:
  assumes "exec_ok x" "ex_runner x = Finished" "\<not> ex_writer_done x"
  shows "ex_queue x \<noteq> []"
proof
  assume "ex_queue x = []"
  with assms obtain ps t where "map Some (ex_written x) = map Some ps @ [Some t, None]"
    by (auto simp: exec_ok_def stream_def)
  then have "None \<in> set (map Some (ex_written x))" by simp
  then show False by auto
qed

text \<open>After the task has returned, the writer alone brings the stream to its end.\<close>

lemma writer_drains:
  "exec_ok x \<Longrightarrow> ex_runner x = Finished \<Longrightarrow> \<exists>y. exec_step\<^sup>*\<^sup>* x y \<and> ex_writer_done y \<and> stream y = stream x"
proof (induction "length (ex_queue x)" arbitrary: x rule: less_induct)
  case less
  show ?case
  proof (cases "ex_writer_done x")
    case False
    with finished_queue less.prems obtain h q where q: "ex_queue x = h # q"
      by (cases "ex_queue x") auto
    show ?thesis
    proof (cases h)
      case None
      let ?y = "x\<lparr>ex_queue := q, ex_writer_done := True\<rparr>"
      have "exec_step x ?y" using exec_step.stop_writer[OF False] q None by simp
      moreover have "stream ?y = stream x" using False q None by simp
      ultimately show ?thesis by (intro exI[of _ ?y]) auto
    next
      case (Some p)
      let ?y = "x\<lparr>ex_queue := q, ex_written := ex_written x @ [p]\<rparr>"
      have step: "exec_step x ?y" using exec_step.write_item[OF False] q Some by simp
      have "length (ex_queue ?y) < length (ex_queue x)" "ex_runner ?y = Finished"
        using q less.prems by simp_all
      with less.hyps[of ?y] exec_ok_step[OF step] less.prems(1) obtain z where
        "exec_step\<^sup>*\<^sup>* ?y z" "ex_writer_done z" "stream z = stream ?y" by blast
      moreover have "stream ?y = stream x" using False q Some by simp
      ultimately show ?thesis using step by (metis converse_rtranclp_into_rtranclp)
    qed
  qed auto
qed

text \<open>The end of \<open>Execute\<close>: a one-shot agent stops its own server.\<close>

definition auto_exit :: "('z agent_scheme, unit) eff" where
  "auto_exit = bnd (gets (\<lambda>s. a_role s = ''task'' \<and> a_server s)) (\<lambda>b. whenc b (modify (emit StopServer)))"

section \<open>Properties\<close>

definition example_agent :: agent where
  "example_agent = \<lparr>trace = [], a_pid = 2, a_ppid = 1, a_user = ''u'', a_role = ''agent'',
     a_config = AgentConfig, a_core = Some (CoreClient 2), a_server = True,
     pending_requests = no_futures, pending_results = []\<rparr>"

definition example_message :: "string \<Rightarrow> string \<Rightarrow> message" where
  "example_message ty rep = \<lparr>ms_message_id = ''m'', ms_from_pid = 3, ms_from_name = ''b'',
     ms_relation = ''system'', ms_type = ty, ms_priority = ''normal'', ms_payload = [],
     ms_timestamp = 0, ms_requires_ack = False, ms_reply_to = rep\<rparr>"

text \<open>
  C2.  A correlated request gets its own reply: once \<open>send_and_wait_core\<close> has sent its
  message under a fresh request id, whatever messages arrive afterwards, in any order
  and of any type, the wait ends with the first one whose \<open>reply_to\<close> is that id, and
  with \<open>TimeoutError\<close> when there is none.
\<close>

theorem request_gets_first_reply:
  assumes "a_core s = Some core" "e_uuid env (trace s @ [Uuid]) = rid" "rid \<noteq> []"
    "e_send env (trace s @ [Uuid, rpc core None (send_req p [] ty b ''normal'' False 0 rid)]) = Inr (True, err, mid)"
    "futures_ok (pending_requests s)" "seen (pending_requests s) rid = None"
    "map_of (awaited (pending_requests s)) [] = None" "keeps_requests handle"
  shows "result (finish_wait p tmo rid)
           (deliver_all handle ms (final (send_and_wait_core_start env p ty b) s)) =
         (case find (\<lambda>m. ms_reply_to m = rid) ms of
            Some m \<Rightarrow> Inr m
          | None \<Rightarrow> Inl (TimeoutError (''No reply from PID '' @ str_int p @ '' within '' @ tmo @
              ''s (request_id='' @ rid @ '')'')))"
  using request_seen[OF assms(5,6,7,3,8) send_and_wait_core_start_ok(2)[OF assms(1,2,4)], of ms]
  by (simp add: finish_wait_result split: option.splits)

lemma keeps_requests_default: "keeps_requests handle_message"
  by (simp add: keeps_requests_def handle_message_def eff_defs)

theorem request_gets_first_reply_witness:
  "result (finish_wait 3 ''60.0'' ''id'') (deliver_all handle_message
     [example_message ''task_response'' ''other'', example_message ''x'' ''id'', example_message ''y'' ''id'']
     (final (send_and_wait_core_start example_env 3 ''t'' []) example_agent)) =
   Inr (example_message ''x'' ''id'')"
  by (subst request_gets_first_reply[where core = "CoreClient 2" and err = "[]" and mid = "''m''"])
    (simp_all add: example_agent_def example_env_def no_futures_def futures_ok_def seen_def
      keeps_requests_default example_message_def)

text \<open>
  C3.  No \<open>task_response\<close> is lost: a response that names a request either completes the
  request that awaits it or is appended to the async mailbox, never both and never
  neither, and it is acknowledged as accepted; the application handler is not called.
\<close>

theorem task_response_never_lost:
  assumes "futures_ok (pending_requests s)" "ms_type m = ''task_response''" "ms_reply_to m \<noteq> []"
  shows "result (on_message handle m) s = Inr (MessageAck ACK_ACCEPTED) \<and>
    (if seen (pending_requests s) (ms_reply_to m) = Some Pending
     then seen (pending_requests (final (on_message handle m) s)) =
            (seen (pending_requests s))(ms_reply_to m \<mapsto> Done m) \<and>
          pending_results (final (on_message handle m) s) = pending_results s
     else pending_requests (final (on_message handle m) s) = pending_requests s \<and>
          pending_results (final (on_message handle m) s) = pending_results s @ [m])"
proof -
  have "seen (pending_requests s) (ms_reply_to m) = Some Pending \<longleftrightarrow>
        dmem (awaited (pending_requests s)) (ms_reply_to m)"
    using seen_awaited[OF assms(1)] by (simp add: dmem_map_of)
  with assms show ?thesis by (simp add: on_message_def eff_defs seen_resolve)
qed

theorem task_response_never_lost_witness:
  "pending_results (final (on_message handle_message (example_message ''task_response'' ''q'')) example_agent) =
     [example_message ''task_response'' ''q'']"
  using task_response_never_lost[of example_agent "example_message ''task_response'' ''q''" handle_message]
  by (simp add: example_agent_def example_message_def)

text \<open>
  C40.  A reply sent with \<open>reply_to\<close> does not reach the requester's future: it carries the
  id the kernel gave the request message, not the request id that \<open>send_and_wait\<close>
  registered and sent along in the message's own \<open>reply_to\<close> field, so unless the two ids
  coincide the requester keeps waiting (until its time-out).
\<close>

theorem reply_to_misses_request:
  assumes "a_core b = Some core" "futures_ok (pending_requests a)"
    "seen (pending_requests a) (ms_reply_to original) = Some Pending"
    "ms_message_id original \<noteq> ms_reply_to original"
    "ms_reply_to reply = ms_message_id original" "ms_reply_to reply \<noteq> []" "ms_type reply = ''task_response''"
  shows "final (reply_to env original payload ''task_response'') b =
           emit (rpc core None (send_req (ms_from_pid original) [] ''task_response'' payload ''normal''
             False 0 (ms_message_id original))) b \<and>
         seen (pending_requests (final (on_message handle reply) a)) (ms_reply_to original) = Some Pending"
proof -
  have "final (reply_to env original payload ''task_response'') b =
        final (send_message env core (ms_from_pid original) [] ''task_response'' payload ''normal'' False 0
          (ms_message_id original)) b"
    using assms(1) by (auto simp: reply_to_def eff_defs split: prod.splits sum.splits)
  moreover have "seen (pending_requests (final (on_message handle reply) a)) (ms_reply_to original) = Some Pending"
    using assms by (simp add: on_message_def eff_defs seen_resolve)
  ultimately show ?thesis by (simp add: send_rpc.one_call)
qed

theorem reply_to_misses_request_witness:
  "seen (pending_requests (final (on_message handle_message (example_message ''task_response'' ''m''))
     (final (open_request ''q'') example_agent))) ''q'' = Some Pending"
  using reply_to_misses_request[of example_agent "CoreClient 2" "final (open_request ''q'') example_agent"
      "example_message ''task_request'' ''q''" "example_message ''task_response'' ''m''" example_env "[]" handle_message]
  by (simp add: example_agent_def example_message_def open_request_def eff_defs new_future_def no_futures_def
      futures_ok_def seen_def)

text \<open>
  A request whose send the kernel refuses raises, and its entry stays in the table of
  pending requests: only the time-out path removes it.
\<close>

theorem refused_send_leaks_request:
  assumes "a_core s = Some core" "e_uuid env (trace s @ [Uuid]) = rid"
    "e_send env (trace s @ [Uuid, rpc core None (send_req p [] ty b ''normal'' False 0 rid)]) = Inr (False, err, mid)"
  shows "result (send_and_wait_core_start env p ty b) s = Inl (RuntimeError (''send failed: '' @ err)) \<and>
         dmem (awaited (pending_requests (final (send_and_wait_core_start env p ty b) s))) rid"
  using send_and_wait_core_start_refused[OF assms] by (simp add: new_future_def dmem_map_of)

theorem refused_send_leaks_request_witness:
  "result (send_and_wait_core_start (example_env\<lparr>e_send := \<lambda>_. Inr (False, ''no such process'', [])\<rparr>) 3 ''t'' [])
     example_agent = Inl (RuntimeError ''send failed: no such process'')"
  using refused_send_leaks_request[of example_agent "CoreClient 2"
      "example_env\<lparr>e_send := \<lambda>_. Inr (False, ''no such process'', [])\<rparr>" "''id''" 3 "''t''" "[]" "''no such process''" "[]"]
  by (simp add: example_agent_def example_env_def)

text \<open>
  C6.  The output of \<open>Execute\<close>: however the reader, the task and the writer interleave,
  when the writer has stopped, what it wrote ends with one completed or failed message
  and contains no other.
\<close>

theorem execute_stream_ends_final:
  assumes "exec_reach x" "ex_writer_done x"
  shows "\<exists>ps t. ex_written x = ps @ [t] \<and> is_final t \<and> (\<forall>p \<in> set ps. \<not> is_final p)"
proof -
  from exec_reach_ok[OF assms(1)] assms(2) obtain ps t where ps: "\<forall>p \<in> set ps. \<not> is_final p" "is_final t"
    and "map Some (ex_written x) @ [None] = map Some (ps @ [t]) @ [None]"
    by (auto simp: exec_ok_def stream_def split: if_splits)
  then have "ex_written x = ps @ [t]" by (metis append_same_eq inj_map_eq_map inj_Some)
  with ps show ?thesis by blast
qed

text \<open>
  C7.  The stream always ends: from every reachable state in which the task has returned
  or raised, the writer can finish, whatever is still queued, and everything that was
  put is written in the order in which it was put.
\<close>

theorem execute_stream_completes:
  assumes "exec_reach x" "ex_runner x = Finished"
  shows "\<exists>y. exec_step\<^sup>*\<^sup>* x y \<and> ex_writer_done y \<and> map Some (ex_written y) @ [None] = stream x"
proof -
  obtain y where y: "exec_step\<^sup>*\<^sup>* x y" "ex_writer_done y" "stream y = stream x"
    using writer_drains exec_reach_ok assms by blast
  have "exec_reach y" using assms(1) y(1) by (simp add: exec_reach_def)
  from exec_reach_ok[OF this] y(2) have "ex_queue y = []" by (auto simp: exec_ok_def split: if_splits)
  with y show ?thesis by (intro exI[of _ y]) (simp add: stream_def)
qed

definition example_task :: task where
  "example_task = \<lparr>tk_task_id = ''t'', tk_description = ''d'', tk_params = [], tk_priority = ''normal'',
     tk_timeout_seconds = 0, tk_context = [], tk_parent_task_id = []\<rparr>"

lemma example_returned:
  "exec_reach (task_return example_task (Inl (ValueError ''x''))
     ((receive_task example_task exec_init :: nat exec)\<lparr>ex_runner := Running 0\<rparr>))"
proof -
  let ?a = "receive_task example_task exec_init :: nat exec"
  let ?b = "?a\<lparr>ex_runner := Running 0\<rparr>"
  have "exec_step exec_init ?a" by (rule exec_step.read_task)
  moreover have "exec_step ?a ?b"
    by (rule exec_step.start) (simp_all add: receive_task_def exec_init_def)
  moreover have "exec_step ?b (task_return example_task (Inl (ValueError ''x'')) ?b)"
    by (rule exec_step.return) (simp_all add: receive_task_def exec_init_def)
  ultimately show ?thesis unfolding exec_reach_def
    by (blast intro: converse_rtranclp_into_rtranclp)
qed

theorem execute_stream_completes_witness:
  "\<exists>y. exec_step\<^sup>*\<^sup>* (task_return example_task (Inl (ValueError ''x''))
       ((receive_task example_task exec_init :: nat exec)\<lparr>ex_runner := Running 0\<rparr>)) y \<and> ex_writer_done y"
  using execute_stream_completes[OF example_returned] by (auto simp: task_return_def)

theorem execute_stream_ends_final_witness:
  "\<exists>x :: nat exec. exec_reach x \<and> (\<exists>ps t. ex_written x = ps @ [t] \<and> is_final t)"
proof -
  obtain y where y: "exec_step\<^sup>*\<^sup>* (task_return example_task (Inl (ValueError ''x''))
       ((receive_task example_task exec_init :: nat exec)\<lparr>ex_runner := Running 0\<rparr>)) y" "ex_writer_done y"
    using writer_drains[OF exec_reach_ok[OF example_returned]] by (auto simp: task_return_def)
  then have "exec_reach y" using example_returned unfolding exec_reach_def by simp
  with execute_stream_ends_final[OF this y(2)] show ?thesis by blast
qed

text \<open>
  The payload of a \<open>cron_task\<close> that is a JSON object with a \<open>description\<close> is given a
  \<open>task\<close> entry: the one it had, or else the description; every other entry is as it was.
\<close>

theorem cron_task_gets_task_key:
  assumes "wf_json (JObj kvs)" "map_of kvs ''description'' = Some d"
  shows "\<exists>ea' kvs'. cron_payload (utf8_encode (dumps ea (JObj kvs))) = Inr (utf8_encode (dumps ea' (JObj kvs'))) \<and>
           loads (dumps ea' (JObj kvs')) = Some (JObj kvs') \<and>
           map_of kvs' = (map_of kvs)(''task'' \<mapsto> (case map_of kvs ''task'' of Some t \<Rightarrow> t | None \<Rightarrow> d))"
proof (cases "map_of kvs ''task''")
  case (Some t)
  with assms show ?thesis
    by (intro exI[of _ ea] exI[of _ kvs])
      (simp add: cron_payload_def add_task_key_def loads_dumps dmem_map_of fun_upd_idem del: dumps.simps)
next
  case None
  let ?kvs = "dset ''task'' d kvs"
  have "wf_json d" using assms by (metis map_of_SomeD snd_conv wf_json.simps(3))
  then have "\<forall>p \<in> set ?kvs. wf_json (snd p)" using assms None by (auto simp: dmem_map_of dset_fresh)
  then have "wf_json (JObj ?kvs)" using assms by simp
  moreover have "JObj ?kvs \<noteq> JObj kvs" using None by (metis fun_upd_same json.inject(6) map_of_dset option.distinct(1))
  ultimately show ?thesis using None assms
    by (intro exI[of _ False] exI[of _ ?kvs])
      (simp add: cron_payload_def add_task_key_def loads_dumps dmem_map_of del: dumps.simps wf_json.simps)
qed

theorem cron_task_gets_task_key_witness:
  "\<exists>ea' kvs'. cron_payload (utf8_encode (dumps False (JObj [(''description'', JStr ''d'')]))) =
       Inr (utf8_encode (dumps ea' (JObj kvs'))) \<and> map_of kvs' ''task'' = Some (JStr ''d'')"
  using cron_task_gets_task_key[of "[(''description'', JStr ''d'')]" "JStr ''d''" False]
  by (fastforce simp: dict_ok_def)

text \<open>
  \<open>Init\<close> never raises and reports what \<open>on_init\<close> did: ready when it returned, and the
  error text when it raised.  When \<open>on_init\<close> runs, the agent already has the identity of
  the request, and its core client sends that pid with every later call.
\<close>

theorem init_sets_identity:
  "result (Init on_init r) s = Inr (case result (on_init (iq_config r)) (set_identity r s) of
      Inr _ \<Rightarrow> (True, []) | Inl e \<Rightarrow> (False, exn_str e)) \<and>
   final (Init on_init r) s = final (on_init (iq_config r)) (set_identity r s) \<and>
   a_pid (set_identity r s) = iq_pid r \<and> a_role (set_identity r s) = role_from_proto (iq_role r) \<and>
   (case a_core (set_identity r s) of
      None \<Rightarrow> a_core s = None
    | Some c \<Rightarrow> rpc c t q = Rpc [(''x-hivekernel-pid'', str_int (iq_pid r))] t q)"
  by (auto simp: Init_def set_identity_def eff_defs set_pid_def rpc_def pid_metadata_def
      split: sum.splits prod.splits option.splits)

end
