(* ===== verification/Llm.thy ===== *)
theory Llm
  imports Agent PyValue
begin

text \<open>
  \<open>LLMClient\<close> of \<open>llm.py\<close> and \<open>LLMAgent\<close> of \<open>llm_agent.py\<close>.  The HTTP service is the
  environment; the parsing of its answer, the error texts and the usage counters are
  the client's.  Values from the service are JSON: a lookup on a value of the wrong
  kind raises what Python raises.  Token counts are taken to be integers, as the
  service documents.  The calls to the dialog log (theory \<open>DialogLog\<close>) are left out.
\<close>

section \<open>Access to JSON values\<close>

definition index0 :: "json \<Rightarrow> exn + json" where
  "index0 j = (case j of
      JList (x # _) \<Rightarrow> Inr x
    | JList [] \<Rightarrow> Inl (IndexError ''list index out of range'')
    | JStr (c # _) \<Rightarrow> Inr (JStr [c])
    | JStr [] \<Rightarrow> Inl (IndexError ''string index out of range'')
    | JObj _ \<Rightarrow> Inl (KeyError ''0'')
    | _ \<Rightarrow> Inl (TypeError ''object is not subscriptable''))"

definition index_key :: "string \<Rightarrow> json \<Rightarrow> exn + json" where
  "index_key k j = (case j of
      JObj kvs \<Rightarrow> (case map_of kvs k of None \<Rightarrow> Inl (KeyError k) | Some v \<Rightarrow> Inr v)
    | _ \<Rightarrow> Inl (TypeError ''object is not subscriptable by a key''))"

definition get_key :: "string \<Rightarrow> json \<Rightarrow> json \<Rightarrow> exn + json" where
  "get_key k d j = (case j of
      JObj kvs \<Rightarrow> Inr (dget kvs k d)
    | _ \<Rightarrow> Inl (AttributeError ''object has no attribute get''))"

definition as_count :: "json \<Rightarrow> exn + int" where
  "as_count j = (case j of
      JInt i \<Rightarrow> Inr i
    | JBool b \<Rightarrow> Inr (if b then 1 else 0)
    | _ \<Rightarrow> Inl (TypeError ''unsupported operand type(s) for +=''))"

text \<open>
  A value given for a text field of a protobuf message: \<open>None\<close> leaves the field empty, and
  what is neither raises \<open>TypeError\<close>.
\<close>

definition result_text :: "json \<Rightarrow> exn + string" where
  "result_text j = (case j of
      JStr t \<Rightarrow> Inr t
    | JNull \<Rightarrow> Inr []
    | _ \<Rightarrow> Inl (TypeError ''bad argument type for built-in operation''))"

text \<open>The range of a protobuf \<open>uint64\<close>, and a value given for such a field.\<close>

definition uint64 :: "int \<Rightarrow> exn + int" where
  "uint64 i = (if 0 \<le> i \<and> i < 2 ^ 64 then Inr i else Inl (ValueError ''Value out of range''))"

definition result_pid :: "json \<Rightarrow> exn + pid" where
  "result_pid j = (case j of
      JInt i \<Rightarrow> uint64 i
    | JBool b \<Rightarrow> Inr (if b then 1 else 0)
    | JNull \<Rightarrow> Inr 0
    | _ \<Rightarrow> Inl (TypeError ''bad argument type for built-in operation''))"

text \<open>The text of \<open>x[:n]\<close> in an f-string: a text or a list is cut, any other value raises.\<close>

definition slice_text :: "nat \<Rightarrow> json \<Rightarrow> exn + string" where
  "slice_text n j = (case j of
      JStr t \<Rightarrow> Inr (take n t)
    | JList xs \<Rightarrow> Inr (py_str (JList (take n xs)))
    | _ \<Rightarrow> Inl (TypeError ''object is not subscriptable''))"

text \<open>\<open>round(x, 1)\<close>, and \<open>str\<close> of a float with one decimal.\<close>

definition round1 :: "rat \<Rightarrow> rat" where
  "round1 x = (let y = 10 * x; f = \<lfloor>y\<rfloor> in
     of_int (if y - of_int f < 1 / 2 then f
             else if y - of_int f > 1 / 2 then f + 1
             else if even f then f else f + 1) / 10)"

definition str_float1 :: "rat \<Rightarrow> string" where
  "str_float1 x = (let n = \<lfloor>10 * x\<rfloor> in
     (if n < 0 then ''-'' else []) @ str_nat (nat \<bar>n\<bar> div 10) @ ''.'' @ str_nat (nat \<bar>n\<bar> mod 10))"

section \<open>The client\<close>

record last_call =
  lc_model :: string
  lc_prompt_tokens :: int
  lc_completion_tokens :: int
  lc_total_tokens :: int
  lc_latency_ms :: rat

record llm_client =
  api_key :: string
  default_model :: string
  total_tokens :: int
  prompt_tokens :: int
  completion_tokens :: int
  llm_calls :: int
  total_latency_ms :: rat
  last_call :: "last_call option"

definition MODEL_MAP :: "(string, string) dict" where
  "MODEL_MAP = [(''opus'', ''anthropic/claude-opus-4''), (''sonnet'', ''anthropic/claude-sonnet-4-5''),
     (''mini'', ''google/gemini-2.5-flash''), (''haiku'', ''anthropic/claude-haiku-3-5'')]"

definition llm_url :: string where
  "llm_url = ''https://openrouter.ai/api/v1/chat/completions''"

definition LLMClient :: "string \<Rightarrow> string \<Rightarrow> llm_client" where
  "LLMClient key model = \<lparr>api_key = key,
     default_model = (if model = [] then dget MODEL_MAP ''mini'' [] else model),
     total_tokens = 0, prompt_tokens = 0, completion_tokens = 0, llm_calls = 0,
     total_latency_ms = 0, last_call = None\<rparr>"

record llm_agent = agent +
  llm :: "llm_client option"
  system_prompt :: string

definition get_llm :: "('z llm_agent_scheme, llm_client) eff" where
  "get_llm = bnd (gets llm) (of_opt (AttributeError ''NoneType has no attribute llm''))"

definition upd_llm :: "(llm_client \<Rightarrow> llm_client) \<Rightarrow> ('z llm_agent_scheme, unit) eff" where
  "upd_llm f = modify (\<lambda>s. s\<lparr>llm := map_option f (llm s)\<rparr>)"

definition resolve_model :: "llm_client \<Rightarrow> string \<Rightarrow> string" where
  "resolve_model c model = (if model \<noteq> [] then dget MODEL_MAP model model else default_model c)"

definition with_system :: "string \<Rightarrow> json list \<Rightarrow> json list" where
  "with_system sys ms = (if sys = [] then ms
     else JObj [(''role'', JStr ''system''), (''content'', JStr sys)] # ms)"

text \<open>\<open>_do_request\<close>: the decoded body, or the HTTP error as a \<open>RuntimeError\<close>.\<close>

definition do_request :: "env \<Rightarrow> string \<Rightarrow> json \<Rightarrow> ('z world_scheme, string) eff" where
  "do_request env key body = bnd (ask_env (e_http env) (Http llm_url key body)) (\<lambda>(ok, code, b).
     if ok then of_opt (UnicodeDecodeError ''invalid start byte'') (utf8_decode b)
     else throw (RuntimeError (''OpenRouter HTTP '' @ str_int code @ '': '' @ take 500 (utf8_decode_replace b))))"

definition error_detail :: "json \<Rightarrow> string" where
  "error_detail err = (case err of
      JObj kvs \<Rightarrow> (let code = dget kvs ''code'' (JStr []); msg = dget kvs ''message'' (JStr (py_str err)) in
        if truthy code then ''['' @ py_str code @ ''] '' @ py_str msg else py_str msg)
    | _ \<Rightarrow> py_str err)"

text \<open>\<open>if "error" in resp: ... raise\<close>, which also fails on a response that is no object.\<close>

definition check_response :: "json \<Rightarrow> exn + unit" where
  "check_response resp = (case resp of
      JObj kvs \<Rightarrow> (case map_of kvs ''error'' of
          None \<Rightarrow> Inr ()
        | Some err \<Rightarrow> Inl (RuntimeError (''OpenRouter API error: '' @ error_detail err)))
    | JList xs \<Rightarrow> Inl (if JStr ''error'' \<in> set xs then TypeError ''list indices must be integers or slices, not str''
                       else AttributeError ''list has no attribute get'')
    | JStr t \<Rightarrow> Inl (if contains ''error'' t then TypeError ''string indices must be integers''
                     else AttributeError ''str has no attribute get'')
    | _ \<Rightarrow> Inl (TypeError ''argument is not iterable''))"

text \<open>The usage counters, updated one after the other before the choices are looked at.\<close>

definition count_usage :: "string \<Rightarrow> rat \<Rightarrow> json \<Rightarrow> ('z llm_agent_scheme, unit) eff" where
  "count_usage model latency resp =
     bnd (lift_sum (get_key ''usage'' (JObj []) resp)) (\<lambda>usage.
     bnd (lift_sum (get_key ''total_tokens'' (JInt 0) usage)) (\<lambda>jt.
     bnd (lift_sum (as_count jt)) (\<lambda>t. seq (upd_llm (\<lambda>c. c\<lparr>total_tokens := total_tokens c + t\<rparr>))
     (bnd (lift_sum (get_key ''prompt_tokens'' (JInt 0) usage)) (\<lambda>jp.
     bnd (lift_sum (as_count jp)) (\<lambda>p. seq (upd_llm (\<lambda>c. c\<lparr>prompt_tokens := prompt_tokens c + p\<rparr>))
     (bnd (lift_sum (get_key ''completion_tokens'' (JInt 0) usage)) (\<lambda>jc.
     bnd (lift_sum (as_count jc)) (\<lambda>n.
       upd_llm (\<lambda>c. c\<lparr>completion_tokens := completion_tokens c + n, llm_calls := llm_calls c + 1,
         total_latency_ms := total_latency_ms c + latency,
         last_call := Some \<lparr>lc_model = model, lc_prompt_tokens = p, lc_completion_tokens = n,
           lc_total_tokens = t, lc_latency_ms = round1 latency\<rparr>\<rparr>))))))))))"

text \<open>What \<open>chat\<close> and \<open>chat_with_tools\<close> share: the request, the checks, the counters, the first choice.\<close>

definition completion :: "env \<Rightarrow> string \<Rightarrow> (string \<times> json) list \<Rightarrow> ('z llm_agent_scheme, json) eff" where
  "completion env resolved body = bnd get_llm (\<lambda>c. bnd (time_time env) (\<lambda>t0.
     bnd (do_request env (api_key c) (JObj body)) (\<lambda>data. bnd (time_time env) (\<lambda>t1.
     bnd (of_opt (JSONDecodeError ''Expecting value'') (loads data)) (\<lambda>resp.
     seq (lift_sum (check_response resp)) (seq (count_usage resolved ((t1 - t0) * 1000) resp)
     (bnd (lift_sum (get_key ''choices'' (JList []) resp)) (\<lambda>choices.
       if truthy choices then lift_sum (index0 choices)
       else throw (RuntimeError ''OpenRouter returned no choices'')))))))))"

definition chat_body :: "string \<Rightarrow> json list \<Rightarrow> int \<Rightarrow> string \<Rightarrow> (string \<times> json) list" where
  "chat_body resolved full_messages max_tokens temperature =
     [(''model'', JStr resolved), (''messages'', JList full_messages), (''max_tokens'', JInt max_tokens),
      (''temperature'', JFloat temperature)]"

definition chat :: "env \<Rightarrow> json list \<Rightarrow> string \<Rightarrow> string \<Rightarrow> int \<Rightarrow> string \<Rightarrow> ('z llm_agent_scheme, json) eff" where
  "chat env msgs model sys max_tokens temperature = bnd get_llm (\<lambda>c.
     bnd (completion env (resolve_model c model)
       (chat_body (resolve_model c model) (with_system sys msgs) max_tokens temperature)) (\<lambda>choice.
     bnd (lift_sum (index_key ''message'' choice)) (\<lambda>message. lift_sum (index_key ''content'' message))))"

text \<open>The result is the pair (message, finish reason).\<close>

definition chat_with_tools :: "env \<Rightarrow> json list \<Rightarrow> json list option \<Rightarrow> string \<Rightarrow> string \<Rightarrow> int \<Rightarrow> string \<Rightarrow>
    ('z llm_agent_scheme, (string, json) dict \<times> json) eff" where
  "chat_with_tools env msgs tools model sys max_tokens temperature = bnd get_llm (\<lambda>c.
     bnd (completion env (resolve_model c model)
       (chat_body (resolve_model c model) (with_system sys msgs) max_tokens temperature @
        (case tools of Some (t # ts) \<Rightarrow> [(''tools'', JList (t # ts)), (''tool_choice'', JStr ''auto'')] | _ \<Rightarrow> [])))
     (\<lambda>choice. bnd (lift_sum (get_key ''message'' (JObj []) choice)) (\<lambda>message.
       case message of
         JObj kvs \<Rightarrow> bnd (lift_sum (get_key ''finish_reason'' (JStr ''stop'') choice)) (\<lambda>fr.
           ret (if dget kvs ''content'' JNull = JNull then dset ''content'' (JStr []) kvs else kvs, fr))
       | _ \<Rightarrow> throw (AttributeError ''object has no attribute get''))))"

definition complete :: "env \<Rightarrow> string \<Rightarrow> string \<Rightarrow> string \<Rightarrow> int \<Rightarrow> string \<Rightarrow> ('z llm_agent_scheme, json) eff" where
  "complete env prompt model sys max_tokens temperature =
     chat env [JObj [(''role'', JStr ''user''), (''content'', JStr prompt)]] model sys max_tokens temperature"

section \<open>The agent\<close>

text \<open>\<open>on_init\<close>; the key comes from the process environment or the \<open>.env\<close> file.\<close>

definition llm_on_init :: "string option \<Rightarrow> agent_config \<Rightarrow> ('z llm_agent_scheme, unit) eff" where
  "llm_on_init key cfg = (case key of
      None \<Rightarrow> throw (RuntimeError ''OPENROUTER_API_KEY not set (no .env file found)'')
    | Some k \<Rightarrow> if k = [] then throw (RuntimeError ''OPENROUTER_API_KEY not set (no .env file found)'')
        else modify (\<lambda>s. s\<lparr>llm := Some (LLMClient k (if ac_model cfg = [] then []
               else dget MODEL_MAP (ac_model cfg) (ac_model cfg))), system_prompt := ac_system_prompt cfg\<rparr>))"

definition ask :: "env \<Rightarrow> string \<Rightarrow> string \<Rightarrow> int \<Rightarrow> string \<Rightarrow> ('z llm_agent_scheme, json) eff" where
  "ask env prompt model max_tokens temperature = bnd (gets system_prompt) (\<lambda>sys.
     complete env prompt model sys max_tokens temperature)"

definition agent_chat :: "env \<Rightarrow> json list \<Rightarrow> string \<Rightarrow> int \<Rightarrow> string \<Rightarrow> ('z llm_agent_scheme, json) eff" where
  "agent_chat env msgs model max_tokens temperature = bnd (gets system_prompt) (\<lambda>sys.
     chat env msgs model sys max_tokens temperature)"

section \<open>What LLM calls keep\<close>

text \<open>An LLM call changes the history and the client's counters, nothing else.\<close>

definition llm_free :: "('z llm_agent_scheme \<Rightarrow> 'x) \<Rightarrow> bool" where
  "llm_free f \<longleftrightarrow> ignores f Clock \<and> (\<forall>u k b. ignores f (Http u k b)) \<and> (\<forall>s c. f (s\<lparr>llm := c\<rparr>) = f s)"

lemma keeps_llm [keeps_rules]:
  assumes "llm_free f"
  shows "keeps f (do_request env key body)" "keeps f get_llm" "keeps f (upd_llm g)"
  unfolding do_request_def get_llm_def upd_llm_def
  by (intro keeps_rules keeps_modify keeps_ignored; simp add: assms[unfolded llm_free_def])+

lemma keeps_completion [keeps_rules]:
  assumes "llm_free f"
  shows "keeps f (count_usage model lat resp)" "keeps f (completion env resolved body)"
proof -
  show "keeps f (count_usage model lat resp)" for model lat resp
    unfolding count_usage_def by (intro keeps_rules assms)
  then show "keeps f (completion env resolved body)"
    unfolding completion_def
    by (intro keeps_rules keeps_ignored assms; simp add: assms[unfolded llm_free_def])
qed

lemma keeps_chat [keeps_rules]:
  assumes "llm_free f"
  shows "keeps f (chat env msgs model sys mt temp)" "keeps f (chat_with_tools env msgs tools model sys mt temp)"
    "keeps f (ask env prompt model mt temp)"
  unfolding chat_def chat_with_tools_def ask_def complete_def
  by (intro keeps_rules assms; simp split: json.split add: keeps_rules)+

section \<open>Examples\<close>

text \<open>An environment whose LLM service always gives the same answer.\<close>

definition answering :: "string \<Rightarrow> env" where
  "answering body = example_env\<lparr>e_http := \<lambda>_. Inr (True, 200, utf8_encode body)\<rparr>"

definition example_answer :: json where
  "example_answer = JObj [(''choices'', JList [JObj [(''message'', JObj [(''content'', JStr ''hello'')])]])]"

lemma example_answer_loads: "loads (dumps False example_answer) = Some example_answer"
  by (rule loads_dumps) (simp add: example_answer_def dict_ok_def)

lemma answering_simps [simp]:
  "e_http (answering b) h = Inr (True, 200, utf8_encode b)" "e_time (answering b) h = 0"
  "e_uuid (answering b) h = ''id''" "e_log (answering b) h = Inr ()" "e_store (answering b) h = Inr (True, [], ''a'')"
  "e_spawn (answering b) h = Inr (True, [], 7)" "e_kill (answering b) h = Inr (True, [], [7])"
  "e_exec (answering b) h = Inr (True, [], TaskResult 0 ''done'' [] [])"
  by (simp_all add: answering_def example_env_def)

lemma example_answer_parts [simp]:
  "check_response example_answer = Inr ()"
  "get_key ''usage'' d example_answer = Inr d"
  "get_key ''choices'' d example_answer = Inr (JList [JObj [(''message'', JObj [(''content'', JStr ''hello'')])]])"
  by (simp_all add: example_answer_def check_response_def get_key_def)

lemma example_chat:
  "wp (chat (answering (dumps False example_answer)) msgs model sys mt temp)
     (\<lambda>v t. v = JStr ''hello'' \<and> llm t \<noteq> None) (\<lambda>_ _. False) s"
  if "llm s = Some c" for s :: "'z llm_agent_scheme"
  using that
  by (simp add: wp_simps chat_def completion_def do_request_def get_llm_def example_answer_loads
      count_usage_def as_count_def upd_llm_def index0_def emit_def del: dumps.simps)
    (simp add: wp_simps get_key_def as_count_def index0_def index_key_def example_answer_def)

definition example_llm_agent :: llm_agent where
  "example_llm_agent = \<lparr>trace = [], a_pid = 2, a_ppid = 1, a_user = ''u'', a_role = ''agent'',
     a_config = AgentConfig, a_core = Some (CoreClient 2), a_server = True,
     pending_requests = no_futures, pending_results = [], llm = Some (LLMClient ''k'' []), system_prompt = []\<rparr>"

end
