(* ===== verification/Loop.thy ===== *)
theory Loop
  imports Memory Llm
begin

text \<open>
  \<open>AgentLoop\<close> of \<open>loop.py\<close>: the iteration of LLM calls and tool executions.  The loop
  holds references to the agent's LLM client and memory, so its state is the state of
  the agent that owns them.  Tools are arbitrary effects on that state.  The \<open>while\<close>
  loop of the pre-flight compression is a function with a termination proof, the
  \<open>for\<close> loops are recursions over their ranges.
\<close>

record tool_agent = llm_agent +
  agent_memory :: memory

abbreviation upd_mem :: "(memory \<Rightarrow> memory) \<Rightarrow> ('z tool_agent_scheme, unit) eff" where
  "upd_mem f \<equiv> modify (\<lambda>s. s\<lparr>agent_memory := f (agent_memory s)\<rparr>)"

section \<open>Recognising a context overflow\<close>

text \<open>
  The patterns are regular expressions made of literal parts with \<open>.*\<close> between them,
  which matches within a line: the parts must occur in this order in one line.
\<close>

definition CONTEXT_OVERFLOW_PATTERNS :: "string list list" where
  "CONTEXT_OVERFLOW_PATTERNS = [[''context length''], [''context_length''], [''too many tokens''],
     [''too long''], [''max'', ''token'', ''exceed''], [''request too large''], [''maximum'', ''tokens''],
     [''prompt'', ''exceed'']]"

fun parts_in_order :: "string list \<Rightarrow> string \<Rightarrow> bool" where
  "parts_in_order [] s = True"
| "parts_in_order (p # ps) s = (case find_sub p s of
      None \<Rightarrow> False | Some i \<Rightarrow> parts_in_order ps (drop (i + length p) s))"

definition is_context_overflow :: "string \<Rightarrow> bool" where
  "is_context_overflow error_msg = (let low = lower error_msg in
     list_ex (\<lambda>pat. list_ex (parts_in_order pat) (split_on (CHR 0x0A) low)) CONTEXT_OVERFLOW_PATTERNS)"

section \<open>Pre-flight compression\<close>

definition context_budget :: nat where
  "context_budget = 80000"

function preflight :: "nat \<Rightarrow> memory \<Rightarrow> memory" where
  "preflight overhead m =
     (if estimate_total_tokens m + overhead > context_budget then
        (let m' = force_compress m in
         if estimate_total_tokens m' \<ge> estimate_total_tokens m then m' else preflight overhead m')
      else m)"
  by pat_completeness auto
termination
  by (relation "measure (\<lambda>(_, m). estimate_total_tokens m)") (auto simp: Let_def)

declare preflight.simps [simp del]

definition tools_overhead :: "json list \<Rightarrow> nat" where
  "tools_overhead schema = (if schema = [] then 0 else length (dumps True (JList schema)) div 3)"

section \<open>One LLM call\<close>

text \<open>
  Up to three tries; after a context overflow the memory is compressed and the
  messages are built again.  The first component of the result is the messages of the
  last try.
\<close>

definition try_llm :: "env \<Rightarrow> json list option \<Rightarrow> string \<Rightarrow> msg list \<Rightarrow>
    ('z tool_agent_scheme, (string, json) dict \<times> json) eff" where
  "try_llm env tools model msgs = chat_with_tools env (map JObj (tl msgs)) tools model
     (case msgs of [] \<Rightarrow> [] | m # _ \<Rightarrow> (case dget m ''content'' JNull of JStr t \<Rightarrow> t | _ \<Rightarrow> [])) 4096 ''0.7''"

definition log_llm_error :: "env \<Rightarrow> tool_context \<Rightarrow> nat \<Rightarrow> exn \<Rightarrow> ('z world_scheme, unit) eff" where
  "log_llm_error env ctx iterations e =
     tryc (ctx_log_event env ctx ''error'' (''LLM error: '' @ take 300 (exn_str e)) [(''iteration'', str_nat iterations)])
       (\<lambda>_. ret ())"

fun llm_retry :: "env \<Rightarrow> tool_context \<Rightarrow> json list option \<Rightarrow> string \<Rightarrow> string \<Rightarrow> nat \<Rightarrow> nat \<Rightarrow> exn option \<Rightarrow> msg list \<Rightarrow>
    ('z tool_agent_scheme, msg list \<times> ((string, json) dict \<times> json)) eff" where
  "llm_retry env ctx tools model sys iterations 0 last_error msgs =
     throw (RuntimeError (''Context overflow after 3 retries: '' @
       (case last_error of None \<Rightarrow> ''None'' | Some e \<Rightarrow> exn_str e)))"
| "llm_retry env ctx tools model sys iterations (Suc k) last_error msgs =
     tryp is_RuntimeError
       (bnd (try_llm env tools model msgs) (\<lambda>choice. ret (msgs, choice)))
       (\<lambda>e. if is_context_overflow (exn_str e)
            then seq (upd_mem force_compress) (bnd (gets agent_memory) (\<lambda>m.
              llm_retry env ctx tools model sys iterations k (Some e) (get_context_messages m sys)))
            else seq (log_llm_error env ctx iterations e) (throw e))"

section \<open>Events\<close>

text \<open>Events are best effort: an exception, also from building the fields, is dropped.\<close>

definition str_field :: "json \<Rightarrow> string option" where
  "str_field j = (case j of JStr t \<Rightarrow> Some t | _ \<Rightarrow> None)"

definition last_user :: "msg list \<Rightarrow> json" where
  "last_user msgs = (case find (\<lambda>m. dget m ''role'' JNull = JStr ''user'') (rev msgs) of
      None \<Rightarrow> JStr []
    | Some m \<Rightarrow> (let c = dget m ''content'' (JStr []) in if truthy c then c else JStr []))"

definition log_llm_call :: "env \<Rightarrow> tool_context \<Rightarrow> nat \<Rightarrow> msg list \<Rightarrow> json \<Rightarrow> ('z llm_agent_scheme, unit) eff" where
  "log_llm_call env ctx iterations msgs content = bnd get_llm (\<lambda>c.
     (case (str_field (last_user msgs), str_field content) of
        (Some prompt, Some response) \<Rightarrow>
          tryc (ctx_log_event env ctx ''llm_call''
            (''LLM call: '' @ (case last_call c of None \<Rightarrow> [] | Some l \<Rightarrow> lc_model l))
            [(''model'', case last_call c of None \<Rightarrow> [] | Some l \<Rightarrow> lc_model l),
             (''prompt_tokens'', case last_call c of None \<Rightarrow> ''0'' | Some l \<Rightarrow> str_int (lc_prompt_tokens l)),
             (''completion_tokens'', case last_call c of None \<Rightarrow> ''0'' | Some l \<Rightarrow> str_int (lc_completion_tokens l)),
             (''total_tokens'', case last_call c of None \<Rightarrow> ''0'' | Some l \<Rightarrow> str_int (lc_total_tokens l)),
             (''latency_ms'', case last_call c of None \<Rightarrow> ''0'' | Some l \<Rightarrow> str_float1 (lc_latency_ms l)),
             (''iteration'', str_nat iterations), (''prompt_preview'', take 500 prompt),
             (''response_preview'', take 500 response)])
            (\<lambda>_. ret ())
      | _ \<Rightarrow> ret ()))"

section \<open>Tool calls\<close>

definition parse_args :: "json \<Rightarrow> json" where
  "parse_args raw = (case raw of
      JStr t \<Rightarrow> (case loads t of None \<Rightarrow> JObj [] | Some j \<Rightarrow> j)
    | _ \<Rightarrow> JObj [])"

text \<open>A name that is no string finds no tool; a list or an object is not hashable.\<close>

definition execute_named :: "'w tool_registry \<Rightarrow> json \<Rightarrow> tool_context \<Rightarrow> json \<Rightarrow> ('w, tool_result) eff" where
  "execute_named reg name ctx args = (case name of
      JStr n \<Rightarrow> execute reg n ctx args
    | JList _ \<Rightarrow> throw (TypeError ''unhashable type: list'')
    | JObj _ \<Rightarrow> throw (TypeError ''unhashable type: dict'')
    | _ \<Rightarrow> ret (ToolResult (''Unknown tool: '' @ py_str name) True))"

definition log_tool_call :: "env \<Rightarrow> tool_context \<Rightarrow> json \<Rightarrow> json \<Rightarrow> tool_result \<Rightarrow> rat \<Rightarrow> ('z world_scheme, unit) eff" where
  "log_tool_call env ctx name args res duration = (case str_field name of
      None \<Rightarrow> ret ()
    | Some n \<Rightarrow> tryc (ctx_log_event env ctx ''tool_call'' (''Tool: '' @ n)
        [(''tool_name'', n), (''args_preview'', take 200 (py_str args)),
         (''result_preview'', take 200 (to_content res)), (''duration_ms'', str_float1 (round1 duration)),
         (''is_error'', if to_is_error res then ''True'' else ''False'')]) (\<lambda>_. ret ()))"

definition run_tool_call :: "env \<Rightarrow> 'z tool_agent_scheme tool_registry \<Rightarrow> tool_context \<Rightarrow> json \<Rightarrow>
    ('z tool_agent_scheme, unit) eff" where
  "run_tool_call env reg ctx tc =
     bnd (lift_sum (get_key ''id'' (JStr []) tc)) (\<lambda>tc_id.
     bnd (lift_sum (get_key ''function'' (JObj []) tc)) (\<lambda>func.
     bnd (lift_sum (get_key ''name'' (JStr []) func)) (\<lambda>name.
     bnd (lift_sum (get_key ''arguments'' (JStr ''{}'') func)) (\<lambda>raw.
     let args = parse_args raw in
     bnd (time_time env) (\<lambda>t0. bnd (execute_named reg name ctx args) (\<lambda>res. bnd (time_time env) (\<lambda>t1.
     seq (log_tool_call env ctx name args res ((t1 - t0) * 1000))
       (upd_mem (add_message ''tool'' (JStr (to_content res)) JNull tc_id)))))))))"

text \<open>Iterating over the \<open>tool_calls\<close> value: a list, or the keys or characters of something else.\<close>

definition call_list :: "json \<Rightarrow> exn + json list" where
  "call_list j = (case j of
      JList xs \<Rightarrow> Inr xs
    | JObj kvs \<Rightarrow> Inr (map (JStr \<circ> fst) kvs)
    | JStr t \<Rightarrow> Inr (map (\<lambda>c. JStr [c]) t)
    | _ \<Rightarrow> Inl (TypeError ''object is not iterable''))"

section \<open>The loop\<close>

record loop_result =
  lr_content :: json
  lr_iterations :: nat
  lr_tool_calls_total :: nat
  lr_prompt_tokens :: int
  lr_completion_tokens :: int
  lr_total_tokens :: int
  lr_llm_calls :: int
  lr_total_latency_ms :: rat

text \<open>
  One round: \<open>Inl\<close> the final text, or \<open>Inr\<close> the text of a round with tool calls and
  the number of them.
\<close>

definition finish_round :: "env \<Rightarrow> 'z tool_agent_scheme tool_registry \<Rightarrow> tool_context \<Rightarrow> json \<Rightarrow> json \<Rightarrow>
    ('z tool_agent_scheme, json + json \<times> nat) eff" where
  "finish_round env reg ctx content tool_calls =
     (if \<not> truthy tool_calls
      then seq (upd_mem (add_message ''assistant'' content JNull (JStr []))) (ret (Inl content))
      else seq (upd_mem (add_message ''assistant'' content tool_calls (JStr [])))
        (bnd (lift_sum (call_list tool_calls)) (\<lambda>tcs.
           seq (foreach (run_tool_call env reg ctx) tcs) (ret (Inr (content, length tcs))))))"

definition loop_round :: "env \<Rightarrow> 'z tool_agent_scheme tool_registry \<Rightarrow> tool_context \<Rightarrow> string \<Rightarrow> string \<Rightarrow> nat \<Rightarrow>
    ('z tool_agent_scheme, json + json \<times> nat) eff" where
  "loop_round env reg ctx sys model iterations = bnd (gets agent_memory) (\<lambda>m.
     bnd (llm_retry env ctx (Some (to_openai_schema reg)) model sys iterations 3 None (get_context_messages m sys))
     (\<lambda>(msgs, message, finish_reason).
       let content0 = dget message ''content'' (JStr []);
           content = (if truthy content0 then content0 else JStr []);
           tool_calls = dget message ''tool_calls'' JNull in
       seq (log_llm_call env ctx iterations msgs content) (finish_round env reg ctx content tool_calls)))"

text \<open>
  The rounds: the remaining number, the rounds and tool calls so far, and the text of
  the last round, which is unbound before the first.
\<close>

fun loop_rounds :: "env \<Rightarrow> 'z tool_agent_scheme tool_registry \<Rightarrow> tool_context \<Rightarrow> string \<Rightarrow> string \<Rightarrow>
    nat \<Rightarrow> nat \<Rightarrow> nat \<Rightarrow> json option \<Rightarrow> ('z tool_agent_scheme, json \<times> nat \<times> nat) eff" where
  "loop_rounds env reg ctx sys model 0 iterations calls content = (case content of
      None \<Rightarrow> throw (UnboundLocalError ''cannot access local variable content'')
    | Some c \<Rightarrow> ret (if truthy c then c else JStr ''Max iterations reached'', iterations, calls))"
| "loop_rounds env reg ctx sys model (Suc n) iterations calls content =
     bnd (loop_round env reg ctx sys model (Suc iterations)) (\<lambda>r. case r of
         Inl final_content \<Rightarrow> ret (final_content, Suc iterations, calls)
       | Inr (c, k) \<Rightarrow> loop_rounds env reg ctx sys model n (Suc iterations) (calls + k) (Some c))"

definition summary_line :: "msg \<Rightarrow> string" where
  "summary_line m = (let c = dget m ''content'' (JStr []) in
     if truthy c then py_str (dget m ''role'' (JStr ''?'')) @ '': '' @ py_str c @ nl else [])"

definition summary_prompt :: "msg list \<Rightarrow> string" where
  "summary_prompt old = ''Summarize this conversation concisely, preserving key facts, decisions, and results:'' @
     nl @ nl @ concat (map summary_line old)"

definition combine_summary :: "string \<Rightarrow> string \<Rightarrow> string" where
  "combine_summary existing new = (if existing = [] then new
     else let combined = existing @ nl @ nl @ new in
       if length combined > 4000 then last_n 4000 combined else combined)"

text \<open>
  \<open>_summarize\<close>.  A completion without text counts as a failed one.  The older messages
  are dropped whether or not the LLM call succeeded.
\<close>

definition summarize :: "env \<Rightarrow> string \<Rightarrow> string \<Rightarrow> ('z tool_agent_scheme, unit) eff" where
  "summarize env sys model = bnd (gets agent_memory) (\<lambda>m.
     if length (messages m) \<le> 4 then ret ()
     else let n = length (messages m) - 4 in
       seq (tryc (bnd (chat env [JObj [(''role'', JStr ''user''),
                  (''content'', JStr (summary_prompt (take n (messages m))))]] model sys 1024 ''0.7'')
              (\<lambda>new. case str_field new of
                  None \<Rightarrow> throw (TypeError ''no text'')
                | Some t \<Rightarrow> upd_mem (\<lambda>m. m\<lparr>summary := combine_summary (summary m) t\<rparr>)))
            (\<lambda>_. ret ()))
         (upd_mem (\<lambda>m'. m'\<lparr>messages := last_n 4 (messages m)\<rparr>)))"

definition loop_run :: "env \<Rightarrow> 'z tool_agent_scheme tool_registry \<Rightarrow> int \<Rightarrow> json \<Rightarrow> tool_context \<Rightarrow> string \<Rightarrow> string \<Rightarrow>
    ('z tool_agent_scheme, loop_result) eff" where
  "loop_run env reg max_iterations prompt ctx sys model =
     seq (upd_mem (add_message ''user'' prompt JNull (JStr [])))
     (bnd get_llm (\<lambda>c0.
      seq (upd_mem (preflight (tools_overhead (to_openai_schema reg) + length sys div 3)))
      (bnd (loop_rounds env reg ctx sys model (nat max_iterations) 0 0 None) (\<lambda>(content, iterations, calls).
       bnd (gets (\<lambda>s. needs_summarization 10 30000 (agent_memory s))) (\<lambda>need.
       seq (whenc need (summarize env sys model))
       (bnd (gets agent_memory) (\<lambda>m. seq (save env ctx m)
       (bnd get_llm (\<lambda>c. ret \<lparr>lr_content = content, lr_iterations = iterations, lr_tool_calls_total = calls,
          lr_prompt_tokens = prompt_tokens c - prompt_tokens c0,
          lr_completion_tokens = completion_tokens c - completion_tokens c0,
          lr_total_tokens = total_tokens c - total_tokens c0, lr_llm_calls = llm_calls c - llm_calls c0,
          lr_total_latency_ms = round1 (total_latency_ms c - total_latency_ms c0)\<rparr>)))))))))"

section \<open>What the parts of a round keep\<close>

lemma llm_free_memory: "llm_free agent_memory"
  by (simp add: llm_free_def ignores_def emit_def)

lemma traceless_memory: "traceless agent_memory"
  by (simp add: traceless_def emit_def)

lemmas mem_frame = llm_free_memory traceless_memory

text \<open>Tools that leave the memory of the loop alone.\<close>

definition tools_keep_memory :: "'z tool_agent_scheme tool_registry \<Rightarrow> bool" where
  "tools_keep_memory reg \<longleftrightarrow> (\<forall>(n, t) \<in> set reg. \<forall>ctx args. keeps agent_memory (tl_execute t ctx args))"

lemma keeps_execute:
  assumes "tools_keep_memory reg"
  shows "keeps agent_memory (execute reg n ctx args)"
proof (cases "map_of reg n")
  case (Some t)
  then have "keeps agent_memory (tl_execute t ctx args)"
    using assms unfolding tools_keep_memory_def by (fastforce dest: map_of_SomeD)
  with Some show ?thesis by (simp add: execute_def keeps_rules)
qed (simp add: execute_def keeps_rules)

lemma keeps_logs:
  "keeps agent_memory (log_tool_call env ctx name args res d)"
  "keeps agent_memory (log_llm_call env ctx i msgs content)"
  "keeps agent_memory (log_llm_error env ctx i e)"
  unfolding log_tool_call_def log_llm_call_def log_llm_error_def
  by (intro keeps_rules mem_frame)+

lemma wp_quiet:
  assumes "keeps f m" "\<And>s. \<exists>v t. m s = (Inr v, t)" "\<And>v t. f t = f s \<Longrightarrow> Q v t"
  shows "wp m Q E s"
  using assms(2)[of s] keeps_snd[OF assms(1), of s] assms(3) by (auto simp: wp_def)

lemma log_tool_call_total: "\<exists>v t. log_tool_call env ctx name args res d s = (Inr v, t)"
  by (auto simp: log_tool_call_def eff_defs split: option.splits prod.splits sum.splits)

lemma execute_total: "\<exists>v t. execute reg n ctx args s = (Inr v, t)"
  by (cases "map_of reg n"; cases "fst (tl_execute (the (map_of reg n)) ctx args s)")
    (auto simp: execute_def eff_defs split: prod.splits)

text \<open>A call as the LLM service documents it: an object with a function object that has a name.\<close>

definition call_ok :: "json \<Rightarrow> bool" where
  "call_ok tc = (case tc of
      JObj kvs \<Rightarrow> (case dget kvs ''function'' JNull of
          JObj f \<Rightarrow> (case dget f ''name'' JNull of JStr _ \<Rightarrow> True | _ \<Rightarrow> False)
        | _ \<Rightarrow> False)
    | _ \<Rightarrow> False)"

fun call_id :: "json \<Rightarrow> json" where
  "call_id (JObj kvs) = dget kvs ''id'' (JStr [])"
| "call_id _ = JStr []"

definition tool_reply :: "json \<Rightarrow> string \<Rightarrow> msg" where
  "tool_reply tc out = mk_message ''tool'' (JStr out) JNull (call_id tc)"

lemma call_okE:
  assumes "call_ok tc"
  obtains kvs f n where "tc = JObj kvs" "dget kvs ''function'' JNull = JObj f" "dget f ''name'' JNull = JStr n"
  using assms by (auto simp: call_ok_def split: json.splits)

lemma dget_default: "dget d k x = v \<Longrightarrow> v \<noteq> x \<Longrightarrow> dget d k y = v"
  by (auto simp: dget_def split: option.splits)

text \<open>The rest of a call once its name and arguments are known.\<close>

definition finish_call :: "env \<Rightarrow> 'z tool_agent_scheme tool_registry \<Rightarrow> tool_context \<Rightarrow> json \<Rightarrow> json \<Rightarrow> json \<Rightarrow>
    ('z tool_agent_scheme, unit) eff" where
  "finish_call env reg ctx tc_id name args =
     bnd (time_time env) (\<lambda>t0. bnd (execute_named reg name ctx args) (\<lambda>res. bnd (time_time env) (\<lambda>t1.
     seq (log_tool_call env ctx name args res ((t1 - t0) * 1000))
       (upd_mem (add_message ''tool'' (JStr (to_content res)) JNull tc_id)))))"

lemma wp_finish_call:
  assumes "tools_keep_memory reg"
  shows "wp (finish_call env reg ctx i name args)
    (\<lambda>_ t. \<exists>out. agent_memory t = add_message ''tool'' (JStr out) JNull i (agent_memory s))
    (\<lambda>_ _. is_JList name \<or> is_JObj name) s"
proof -
  have step: "wp (execute_named reg name ctx args) Q (\<lambda>_ _. is_JList name \<or> is_JObj name) t"
    if "\<And>v u. agent_memory u = agent_memory t \<Longrightarrow> Q v u" for Q t
    using that wp_quiet[OF keeps_execute[OF assms] execute_total, of t Q]
    by (cases name) (auto simp: execute_named_def wp_simps simp del: wp_execute)
  show ?thesis unfolding finish_call_def
    apply (simp add: wp_simps)
    apply (rule step)
    apply (rule wp_quiet[OF keeps_logs(1) log_tool_call_total])
    apply (auto simp: add_message_def emit_def)
    done
qed

lemma run_tool_call_appends:
  assumes "tools_keep_memory reg"
  shows "wp (run_tool_call env reg ctx tc)
    (\<lambda>_ t. \<exists>out. agent_memory t = (agent_memory s)\<lparr>messages := messages (agent_memory s) @ [tool_reply tc out]\<rparr>)
    (\<lambda>_ _. \<not> call_ok tc) s"
proof (cases tc)
  case tc: (JObj kvs)
  show ?thesis
  proof (cases "dget kvs ''function'' (JObj [])")
    case func: (JObj f)
    let ?name = "dget f ''name'' (JStr [])"
    have bad: "\<not> call_ok tc" if "is_JList ?name \<or> is_JObj ?name"
      using that tc func dget_default[of f "''name''" "JStr []" _ JNull]
      by (cases ?name) (auto simp: call_ok_def dget_def split: option.splits)
    have "wp (finish_call env reg ctx (call_id tc) ?name (parse_args (dget f ''arguments'' (JStr ''{}''))))
      (\<lambda>_ t. \<exists>out. agent_memory t = add_message ''tool'' (JStr out) JNull (call_id tc) (agent_memory s))
      (\<lambda>_ _. \<not> call_ok tc) s"
      by (rule wp_mono[OF wp_finish_call[OF assms]]) (use bad in auto)
    then show ?thesis using tc func
      by (simp add: run_tool_call_def wp_simps get_key_def Let_def finish_call_def add_message_def tool_reply_def)
  qed (use tc in \<open>auto simp: run_tool_call_def wp_simps get_key_def call_ok_def dget_def split: option.splits\<close>)
qed (auto simp: run_tool_call_def wp_simps get_key_def call_ok_def)

text \<open>The memory after the tool calls of a round: one reply for each call, in order.\<close>

definition replied :: "memory \<Rightarrow> json list \<Rightarrow> memory \<Rightarrow> bool" where
  "replied m tcs m' \<longleftrightarrow> (\<exists>outs. length outs = length tcs \<and>
     m' = m\<lparr>messages := messages m @ map2 tool_reply tcs outs\<rparr>)"

lemma replied_Cons:
  "m1 = m\<lparr>messages := messages m @ [tool_reply tc out]\<rparr> \<Longrightarrow> replied m1 tcs m2 \<Longrightarrow> replied m (tc # tcs) m2"
  unfolding replied_def by (elim exE, rule_tac x = "out # outs" in exI) simp

lemma run_tool_calls_append:
  assumes "tools_keep_memory reg"
  shows "wp (foreach (run_tool_call env reg ctx) tcs) (\<lambda>_ t. replied (agent_memory s) tcs (agent_memory t))
    (\<lambda>_ _. \<exists>tc \<in> set tcs. \<not> call_ok tc) s"
proof (induction tcs arbitrary: s)
  case Nil
  then show ?case by (simp add: wp_simps replied_def)
next
  case (Cons tc tcs)
  have "wp (run_tool_call env reg ctx tc) (\<lambda>_. wp (foreach (run_tool_call env reg ctx) tcs)
      (\<lambda>_ t. replied (agent_memory s) (tc # tcs) (agent_memory t)) (\<lambda>_ _. \<exists>tc \<in> set (tc # tcs). \<not> call_ok tc))
      (\<lambda>_ _. \<exists>tc \<in> set (tc # tcs). \<not> call_ok tc) s"
    by (rule wp_mono[OF run_tool_call_appends[OF assms]])
      (auto intro!: wp_mono[OF Cons.IH] intro: replied_Cons)
  then show ?case by (simp add: wp_seq)
qed

lemma keeps_try_llm: "keeps agent_memory (try_llm env tools model msgs)"
  unfolding try_llm_def by (intro keeps_rules mem_frame)

text \<open>The retries compress the memory fewer than \<open>n\<close> times before they succeed.\<close>

lemma wp_llm_retry:
  fixes s :: "'z tool_agent_scheme"
  shows "wp (llm_retry env ctx tools model sys i n le msgs)
     (\<lambda>_ t. \<exists>k < n. agent_memory t = (force_compress ^^ k) (agent_memory s))
     (\<lambda>_ t. \<exists>k \<le> n. agent_memory t = (force_compress ^^ k) (agent_memory s)) s"
proof (induction n arbitrary: le msgs s)
  case 0
  show ?case by (simp add: wp_simps)
next
  case (Suc n)
  let ?t = "\<lambda>t. t\<lparr>agent_memory := force_compress (agent_memory t)\<rparr>"
  have retry: "wp (llm_retry env ctx tools model sys i n le' msgs')
     (\<lambda>_ u. \<exists>k < Suc n. agent_memory u = (force_compress ^^ k) (agent_memory s))
     (\<lambda>_ u. \<exists>k \<le> Suc n. agent_memory u = (force_compress ^^ k) (agent_memory s)) (?t t)"
    if "agent_memory t = agent_memory s" for t :: "'z tool_agent_scheme" and le' msgs'
    by (rule wp_mono[OF Suc.IH])
      (use that in \<open>auto simp: funpow_swap1 intro: exI[of _ "Suc k" for k]\<close>)
  have log: "wp (log_llm_error env ctx i e) (\<lambda>_. wp (throw e) Q (\<lambda>_ u. \<exists>k \<le> Suc n. agent_memory u = (force_compress ^^ k) (agent_memory s)))
     (\<lambda>_ u. \<exists>k \<le> Suc n. agent_memory u = (force_compress ^^ k) (agent_memory s)) t"
    if "agent_memory t = agent_memory s" for t :: "'z tool_agent_scheme" and e and Q :: "msg list \<times> msg \<times> json \<Rightarrow> 'z tool_agent_scheme \<Rightarrow> bool"
    by (rule wp_keeps[OF keeps_logs(3)]) (use that in \<open>auto simp: wp_simps intro: exI[of _ 0]\<close>)
  show ?case unfolding llm_retry.simps wp_simps
    by (rule wp_keeps[OF keeps_try_llm]) (use retry log in \<open>auto simp: wp_simps intro: exI[of _ 0]\<close>)
qed

section \<open>Rounds\<close>

definition round_outcome :: "memory \<Rightarrow> json + json \<times> nat \<Rightarrow> memory \<Rightarrow> bool" where
  "round_outcome m0 r m' \<longleftrightarrow> (\<exists>k < 3. case r of
      Inl c \<Rightarrow> m' = add_message ''assistant'' c JNull (JStr []) ((force_compress ^^ k) m0)
    | Inr (c, n) \<Rightarrow> \<exists>calls tcs. truthy calls \<and> call_list calls = Inr tcs \<and> length tcs = n \<and>
        replied (add_message ''assistant'' c calls (JStr []) ((force_compress ^^ k) m0)) tcs m')"

lemma wp_finish_round:
  assumes "tools_keep_memory reg" "k < 3" "agent_memory s = (force_compress ^^ k) m0"
  shows "wp (finish_round env reg ctx c calls) (\<lambda>r t. round_outcome m0 r (agent_memory t)) (\<lambda>_ _. True) s"
proof (cases "truthy calls")
  case False
  then show ?thesis using assms(2,3) by (auto simp: finish_round_def wp_simps round_outcome_def)
next
  case True
  let ?s = "s\<lparr>agent_memory := add_message ''assistant'' c calls (JStr []) (agent_memory s)\<rparr>"
  have "wp (foreach (run_tool_call env reg ctx) tcs)
      (\<lambda>_ t. round_outcome m0 (Inr (c, length tcs)) (agent_memory t)) (\<lambda>_ _. True) ?s"
    if "call_list calls = Inr tcs" for tcs
    by (rule wp_mono[OF run_tool_calls_append[OF assms(1)]])
      (use True assms(2,3) that in \<open>auto simp: round_outcome_def\<close>)
  then show ?thesis using True
    by (simp add: finish_round_def wp_simps split: sum.splits)
qed

lemma wp_loop_round:
  assumes "tools_keep_memory reg"
  shows "wp (loop_round env reg ctx sys model i) (\<lambda>r t. round_outcome (agent_memory s) r (agent_memory t))
    (\<lambda>_ _. True) s"
proof -
  have "wp (log_llm_call env ctx i msgs content) (\<lambda>_. wp (finish_round env reg ctx content calls)
      (\<lambda>r u. round_outcome (agent_memory s) r (agent_memory u)) (\<lambda>_ _. True)) (\<lambda>_ _. True) t"
    if "k < 3" "agent_memory t = (force_compress ^^ k) (agent_memory s)" for k t msgs content calls
    by (rule wp_keeps[OF keeps_logs(2)]) (use that in \<open>auto intro: wp_finish_round[OF assms]\<close>)
  then show ?thesis unfolding loop_round_def wp_bnd wp_gets
    by (intro wp_mono[OF wp_llm_retry]) (auto simp: Let_def wp_seq)
qed

lemma wp_loop_rounds:
  "wp (loop_rounds env reg ctx sys model n i calls c)
     (\<lambda>(_, i', _) _. i \<le> i' \<and> i' \<le> i + n \<and> (c = None \<longrightarrow> i < i')) (\<lambda>_ _. True) s"
proof (induction n arbitrary: i calls c s)
  case 0
  show ?case by (auto simp: wp_simps split: option.splits)
next
  case (Suc n)
  have "wp (case r of Inl fc \<Rightarrow> ret (fc, Suc i, calls)
       | Inr (c', k) \<Rightarrow> loop_rounds env reg ctx sys model n (Suc i) (calls + k) (Some c'))
     (\<lambda>(_, i', _) _. i \<le> i' \<and> i' \<le> i + Suc n \<and> (c = None \<longrightarrow> i < i')) (\<lambda>_ _. True) t" for r t
    by (cases r) (auto simp: wp_simps intro!: wp_mono[OF Suc.IH])
  then show ?case unfolding loop_rounds.simps wp_bnd
    by (auto simp: wp_def split: prod.splits sum.splits)
qed

section \<open>Compression before the first call\<close>

lemma preflight_iterates: "\<exists>k. preflight overhead m = (force_compress ^^ k) m"
proof (induction overhead m rule: preflight.induct)
  case (1 overhead m)
  let ?m' = "force_compress m"
  show ?case
  proof (cases "estimate_total_tokens m + overhead > context_budget \<and> estimate_total_tokens ?m' < estimate_total_tokens m")
    case True
    then obtain k where "preflight overhead ?m' = (force_compress ^^ k) ?m'" using 1 by auto
    with True show ?thesis by (subst preflight.simps) (auto simp: Let_def funpow_swap1 intro: exI[of _ "Suc k"])
  next
    case False
    then show ?thesis
      by (subst preflight.simps) (auto simp: Let_def intro: exI[of _ 0] exI[of _ "Suc 0"])
  qed
qed

lemma preflight_fixed: "fully_compressed m \<Longrightarrow> preflight overhead m = m"
  by (subst preflight.simps) (simp add: fully_compressed_stays)

lemma funpow_compress_last: "messages m \<noteq> [] \<Longrightarrow>
    messages ((force_compress ^^ k) m) \<noteq> [] \<and> last (messages ((force_compress ^^ k) m)) = last (messages m)"
  by (induction k) (auto simp: force_compress_last)

lemma funpow_compress_estimate: "estimate_total_tokens ((force_compress ^^ k) m) \<le> estimate_total_tokens m"
  by (induction k) (auto intro: order_trans[OF force_compress_estimate])

lemma preflight_within_or_stuck:
  "estimate_total_tokens (preflight overhead m) + overhead \<le> context_budget \<or>
   (\<exists>m0. preflight overhead m = force_compress m0 \<and>
      estimate_total_tokens (force_compress m0) = estimate_total_tokens m0)"
proof (induction overhead m rule: preflight.induct)
  case (1 overhead m)
  then show ?case using force_compress_estimate[of m]
    by (subst (1 2) preflight.simps) (auto simp: Let_def intro: exI[of _ m])
qed

section \<open>Long-term memory in the loop\<close>

text \<open>The loop only ever shortens the long-term memory, from its front.\<close>

definition ltm_from :: "memory \<Rightarrow> memory \<Rightarrow> bool" where
  "ltm_from m m' \<longleftrightarrow> mem_pid m' = mem_pid m \<and> (\<exists>ys. long_term m = ys @ long_term m')"

lemma ltm_refl [simp, intro]: "ltm_from m m"
  by (simp add: ltm_from_def)

lemma ltm_trans: "ltm_from m m' \<Longrightarrow> ltm_from m' m'' \<Longrightarrow> ltm_from m m''"
  by (auto simp: ltm_from_def)

lemma ltm_update [simp]:
  "ltm_from m (m'\<lparr>messages := ms\<rparr>) = ltm_from m m'" "ltm_from m (m'\<lparr>summary := x\<rparr>) = ltm_from m m'"
  by (simp_all add: ltm_from_def)

lemma ltm_add_message [simp]: "ltm_from m (add_message r c calls i m') = ltm_from m m'"
  by (simp add: ltm_from_def add_message_def)

lemma ltm_compress: "ltm_from m (force_compress m)"
  using last_n_suffix[of "long_term m" 1000] by (auto simp: ltm_from_def force_compress_def Let_def)

lemma ltm_funpow_compress: "ltm_from m ((force_compress ^^ k) m)"
  by (induction k) (auto intro: ltm_trans ltm_compress)

lemma ltm_preflight: "ltm_from m (preflight overhead m)"
  using preflight_iterates[of overhead m] ltm_funpow_compress[of m] by auto

lemma ltm_round: "round_outcome m0 r m' \<Longrightarrow> ltm_from m0 m'"
  using ltm_funpow_compress[of m0] by (cases r) (auto simp: round_outcome_def replied_def)

lemma wp_rounds_ltm:
  assumes "tools_keep_memory reg"
  shows "wp (loop_rounds env reg ctx sys model n i calls c)
     (\<lambda>_ t. ltm_from (agent_memory s) (agent_memory t)) (\<lambda>_ _. True) s"
proof (induction n arbitrary: i calls c s)
  case 0
  show ?case by (auto simp: wp_simps split: option.splits)
next
  case (Suc n)
  have "wp (case r of Inl fc \<Rightarrow> ret (fc, Suc i, calls)
       | Inr (c', k) \<Rightarrow> loop_rounds env reg ctx sys model n (Suc i) (calls + k) (Some c'))
     (\<lambda>_ u. ltm_from (agent_memory s) (agent_memory u)) (\<lambda>_ _. True) t"
    if "ltm_from (agent_memory s) (agent_memory t)" for r t
    using that by (auto simp: wp_ret split: sum.splits intro!: wp_mono[OF Suc.IH] intro: ltm_trans)
  then show ?case unfolding loop_rounds.simps wp_bnd
    by (intro wp_mono[OF wp_loop_round[OF assms]]) (auto dest: ltm_round)
qed

lemma wp_summarize_ltm:
  "wp (summarize env sys model) (\<lambda>_ t. ltm_from (agent_memory s) (agent_memory t)) (\<lambda>_ _. True) s"
  unfolding summarize_def wp_bnd wp_gets wp_if Let_def wp_seq wp_tryc
  by (auto simp: wp_simps split: option.splits intro!: wp_keeps[where f = agent_memory] keeps_rules mem_frame)

lemma keeps_save: "traceless f \<Longrightarrow> keeps f (save env ctx m)"
  unfolding save_def by (intro keeps_rules)

text \<open>What a run leaves in the artifact store is the memory it ends with.\<close>

lemma wp_loop_run_saves:
  assumes "tools_keep_memory reg" "ctx_usable ctx"
  shows "wp (loop_run (with_store env) reg max_iterations prompt ctx sys model)
     (\<lambda>_ t. saved_in (store_of (trace t)) (agent_memory t) \<and> ltm_from (agent_memory s) (agent_memory t)) (\<lambda>_ _. True) s"
proof -
  let ?P = "\<lambda>t. ltm_from (agent_memory s) (agent_memory t)"
  have save: "wp (save (with_store env) ctx (agent_memory t)) (\<lambda>_ u. wp get_llm (\<lambda>_ u.
      saved_in (store_of (trace u)) (agent_memory u) \<and> ?P u) (\<lambda>_ _. True) u) (\<lambda>_ _. True) t" if "?P t" for t
  proof (rule wp_mono[OF wp_and_keeps[OF keeps_save[OF traceless_memory] wp_save[OF assms(2)]]], goal_cases)
    case (1 v u)
    then show ?case using that by (simp add: get_llm_def wp_simps split: option.splits)
  qed simp
  have rest: "wp (whenc need (summarize (with_store env) sys model)) (\<lambda>_ t.
      wp (save (with_store env) ctx (agent_memory t)) (\<lambda>_ u. wp get_llm (\<lambda>_ u.
      saved_in (store_of (trace u)) (agent_memory u) \<and> ?P u) (\<lambda>_ _. True) u) (\<lambda>_ _. True) t) (\<lambda>_ _. True) t"
    if "?P t" for t need
    unfolding wp_whenc using that save
    by (auto intro!: wp_mono[OF wp_summarize_ltm] intro: ltm_trans)
  show ?thesis
    unfolding loop_run_def wp_seq wp_bnd wp_modify wp_gets wp_ret
  proof (rule wp_keeps[where f = agent_memory], goal_cases)
    case (2 c t)
    then have "?P (t\<lparr>agent_memory := preflight overhead (agent_memory t)\<rparr>)" for overhead
      by (simp add: ltm_trans[OF _ ltm_preflight])
    then have "?P u" if "ltm_from (preflight overhead (agent_memory t)) (agent_memory u)" for u overhead
      using ltm_trans that by auto
    then show ?case
      by (intro wp_mono[OF wp_rounds_ltm[OF assms(1)]]) (auto simp: wp_bnd wp_seq wp_gets wp_ret intro!: rest)
  qed (simp_all add: get_llm_def keeps_rules)
qed

section \<open>Properties\<close>

text \<open>
  C18.  A round of the loop keeps the conversation in the shape the LLM service requires: it
  first compresses the memory fewer than three times, then appends either the final
  assistant message, or the assistant message with its tool calls followed by exactly
  one \<open>tool\<close> message for each call, in order and under the id of the call, whatever the
  tools return or raise.
\<close>

theorem loop_round_protocol:
  assumes "tools_keep_memory reg" "result (loop_round env reg ctx sys model i) s = Inr r"
  shows "round_outcome (agent_memory s) r (agent_memory (final (loop_round env reg ctx sys model i) s))"
  using wp_loop_round[OF assms(1), of env ctx sys model i s] assms(2)
  by (auto simp: wp_def result_def final_def split: prod.splits sum.splits)

text \<open>
  C21.  The loop is bounded: when it returns, it has made at least one round and at most
  \<open>max_iterations\<close> of them.
\<close>

theorem loop_iterations_bounded:
  assumes "result (loop_run env reg max_iterations prompt ctx sys model) s = Inr r"
  shows "1 \<le> lr_iterations r \<and> int (lr_iterations r) \<le> max_iterations"
proof -
  have "wp (loop_run env reg max_iterations prompt ctx sys model)
      (\<lambda>r _. 1 \<le> lr_iterations r \<and> int (lr_iterations r) \<le> max_iterations) (\<lambda>_ _. True) s"
    unfolding loop_run_def wp_seq wp_bnd wp_modify wp_gets wp_ret
    by (rule wp_always, rule wp_mono[OF wp_loop_rounds])
      (auto intro!: wp_always simp: wp_simps)
  then show ?thesis using assms by (auto simp: wp_def result_def split: prod.splits sum.splits)
qed


text \<open>
  A loop configured with no rounds (\<open>max_iterations\<close> zero or negative) raises
  \<open>UnboundLocalError\<close> instead of returning a result, because the \<open>else\<close> branch of the
  \<open>for\<close> loop reads \<open>content\<close>, which only a round binds.
\<close>

theorem loop_without_rounds_raises:
  assumes "max_iterations \<le> 0" "llm s = Some c"
  shows "result (loop_run env reg max_iterations prompt ctx sys model) s =
         Inl (UnboundLocalError ''cannot access local variable content'')"
  using assms by (simp add: loop_run_def get_llm_def eff_defs)

definition example_tool_agent :: tool_agent where
  "example_tool_agent = \<lparr>trace = [], a_pid = 2, a_ppid = 1, a_user = ''u'', a_role = ''agent'',
     a_config = AgentConfig, a_core = Some (CoreClient 2), a_server = True,
     pending_requests = no_futures, pending_results = [], llm = Some (LLMClient ''k'' []),
     system_prompt = [], agent_memory = AgentMemory 2\<rparr>"

theorem loop_without_rounds_raises_witness:
  "result (loop_run example_env ToolRegistry 0 (JStr ''hi'') example_ctx [] []) example_tool_agent =
   Inl (UnboundLocalError ''cannot access local variable content'')"
  by (rule loop_without_rounds_raises) (simp_all add: example_tool_agent_def)

text \<open>An environment whose LLM always answers \<open>hello\<close>.\<close>

definition hello :: "env \<Rightarrow> bool" where
  "hello env \<longleftrightarrow> e_http env = e_http (answering (dumps False example_answer)) \<and> e_log env = e_log example_env"

lemma hello_envs: "hello (answering (dumps False example_answer))" "hello env \<Longrightarrow> hello (with_store env)"
  by (simp_all add: hello_def answering_def with_store_def del: dumps.simps)

lemma example_llm:
  "wp (chat_with_tools env msgs tools model sys mt temp)
     (\<lambda>v t. v = ([(''content'', JStr ''hello'')], JStr ''stop'') \<and> llm t \<noteq> None \<and> agent_memory t = agent_memory s)
     (\<lambda>_ _. False) s"
  if "llm s = Some c" "hello env" for s :: "'z tool_agent_scheme"
  using that
  by (simp add: wp_simps chat_with_tools_def completion_def do_request_def get_llm_def example_answer_loads hello_def
      count_usage_def as_count_def upd_llm_def index0_def emit_def del: dumps.simps)
    (simp add: wp_simps get_key_def as_count_def index0_def example_answer_def)

lemma example_log:
  assumes "llm s = Some c" "hello env" "\<And>v t. llm t = llm s \<Longrightarrow> agent_memory t = agent_memory s \<Longrightarrow> Q v t"
  shows "wp (log_llm_call env ctx i msgs content) Q E s"
  using assms by (auto simp: log_llm_call_def get_llm_def wp_simps ctx_log_event_def ctx_log_def core_log_def hello_def
      sys_log_def Let_def example_env_def emit_def split: option.splits)

lemma example_round:
  assumes "llm s = Some c" "hello env"
  shows "wp (loop_round env reg ctx sys model i)
     (\<lambda>r t. r = Inl (JStr ''hello'') \<and> llm t \<noteq> None \<and>
        agent_memory t = add_message ''assistant'' (JStr ''hello'') JNull (JStr []) (agent_memory s))
     (\<lambda>_ _. False) s"
  unfolding loop_round_def
  apply (simp add: wp_simps numeral_3_eq_3 try_llm_def del: dumps.simps)
  apply (rule wp_mono[OF example_llm[OF assms]])
  apply (auto simp: wp_simps Let_def finish_round_def simp del: dumps.simps intro!: example_log assms(2))
  done

lemma save_total: "\<exists>v t. save env ctx m s = (Inr v, t)"
  by (auto simp: save_def tryc_def ret_def split: prod.splits sum.splits)

lemma example_tool_agent_simps [simp]:
  "llm example_tool_agent = Some (LLMClient ''k'' [])" "agent_memory example_tool_agent = AgentMemory 2"
  by (simp_all add: example_tool_agent_def)

lemma traceless_llm: "traceless llm"
  by (simp add: traceless_def emit_def)

text \<open>A run on a fresh memory: one round, and the two messages are in the memory.\<close>

definition greeted :: "json \<Rightarrow> pid \<Rightarrow> memory" where
  "greeted prompt p = add_message ''assistant'' (JStr ''hello'') JNull (JStr [])
     (add_message ''user'' prompt JNull (JStr []) (AgentMemory p))"

lemma wp_example_run:
  assumes "hello env" "llm s = Some c" "agent_memory s = AgentMemory p"
  shows "wp (loop_run env reg 3 (JStr ''hi'') ctx sys model)
    (\<lambda>r t. lr_content r = JStr ''hello'' \<and> agent_memory t = greeted (JStr ''hi'') p) (\<lambda>_ _. False) s"
proof -
  let ?m = "add_message ''user'' (JStr ''hi'') JNull (JStr []) (AgentMemory p)"
  let ?f = "\<lambda>s. (llm s, agent_memory s)"
  have pre: "preflight k ?m = ?m" for k
    by (rule preflight_fixed) (simp add: fully_compressed_def AgentMemory_def add_message_def)
  have three: "nat 3 = Suc 2" by simp
  have small: "\<not> needs_summarization 10 30000 (greeted (JStr ''hi'') p)"
    by (simp add: needs_summarization_def estimate_total_tokens_def total_len_def AgentMemory_def add_message_def
        mk_message_def msg_len_def content_len_def greeted_def)
  have frame: "traceless ?f" by (simp add: traceless_def emit_def)
  have round: "wp (loop_round env reg ctx sys model 1) (\<lambda>r t. r = Inl (JStr ''hello'') \<and> llm t \<noteq> None \<and>
      agent_memory t = greeted (JStr ''hi'') p) (\<lambda>_ _. False) t" if "llm t = Some c" "agent_memory t = ?m" for t
    by (rule wp_mono[OF example_round[OF that(1) assms(1)]]) (simp_all add: that greeted_def)
  show ?thesis
    unfolding loop_run_def three loop_rounds.simps
    apply (simp add: wp_simps get_llm_def pre assms(2,3) del: dumps.simps loop_rounds.simps)
    apply (rule wp_mono[OF round[simplified]])
      apply (simp_all add: assms wp_simps del: dumps.simps loop_rounds.simps)
    apply (auto simp: small wp_simps simp del: dumps.simps loop_rounds.simps
        intro!: wp_quiet[OF keeps_save[OF frame] save_total] split: option.splits)
    done
qed

lemma example_run:
  assumes "hello env"
  shows "\<exists>r. result (loop_run env reg 3 (JStr ''hi'') ctx sys model) example_tool_agent = Inr r"
  using wp_total[OF wp_example_run[OF assms example_tool_agent_simps], of reg ctx sys model]
  by (auto simp: result_def)

theorem loop_round_protocol_witness:
  "round_outcome (AgentMemory 2) (Inl (JStr ''hello'')) (agent_memory (final
     (loop_round (answering (dumps False example_answer)) ToolRegistry example_ctx [] [] 1) example_tool_agent))"
proof -
  have ok: "tools_keep_memory (ToolRegistry :: tool_agent tool_registry)"
    by (simp add: tools_keep_memory_def ToolRegistry_def)
  have r: "result (loop_round (answering (dumps False example_answer)) ToolRegistry example_ctx [] [] 1) example_tool_agent =
      Inr (Inl (JStr ''hello''))"
    using example_round[of example_tool_agent "LLMClient ''k'' []" _ ToolRegistry example_ctx "[]" "[]" 1, OF _ hello_envs(1)]
    by (auto simp: example_tool_agent_def wp_def result_def split: prod.splits sum.splits)
  show ?thesis using loop_round_protocol[OF ok r] by (simp add: example_tool_agent_def)
qed

theorem loop_iterations_bounded_witness:
  "\<exists>r. result (loop_run (answering (dumps False example_answer)) ToolRegistry 3 (JStr ''hi'') example_ctx [] [])
     example_tool_agent = Inr r \<and> 1 \<le> lr_iterations r \<and> int (lr_iterations r) \<le> 3"
  using example_run[OF hello_envs(1)] loop_iterations_bounded by blast


text \<open>
  The pre-flight compression always ends, only ever compresses (the newest message
  stays and the estimate never grows), and stops within the budget or after a
  compression that did not lower the estimate.
\<close>

theorem preflight_compresses:
  "(\<exists>k. preflight overhead m = (force_compress ^^ k) m) \<and>
   estimate_total_tokens (preflight overhead m) \<le> estimate_total_tokens m \<and>
   (messages m = [] \<or> last (messages (preflight overhead m)) = last (messages m)) \<and>
   (estimate_total_tokens (preflight overhead m) + overhead \<le> context_budget \<or>
    (\<exists>m0. preflight overhead m = force_compress m0 \<and>
       estimate_total_tokens (force_compress m0) = estimate_total_tokens m0))"
  using preflight_iterates[of overhead m] preflight_within_or_stuck[of overhead m]
    funpow_compress_last[of m] funpow_compress_estimate[of _ m] by metis

text \<open>
  The pre-flight loop can stop too early: there are memories over the budget for which
  it breaks off with the comment that no further compression is possible, although
  compressing once more would bring them within the budget (an old message that
  contributes nothing to the estimate uses up the first phase).
\<close>

theorem preflight_stops_early:
  "\<exists>m. estimate_total_tokens (preflight 0 m) > context_budget \<and>
       estimate_total_tokens (force_compress (preflight 0 m)) \<le> context_budget"
proof -
  let ?big = "[(''content'', JStr (replicate 200000 CHR ''x''))]"
  let ?m = "\<lparr>mem_pid = 1, long_term = [], messages = [[], ?big, ?big, [], []], summary = []\<rparr>"
  let ?n = "\<lparr>mem_pid = 1, long_term = [], messages = [?big, ?big, [], []], summary = []\<rparr>"
  have c: "force_compress ?m = ?n" by (simp add: force_compress_def last_n_def)
  have e: "estimate_total_tokens ?m = 160000" "estimate_total_tokens ?n = 160000"
    by (simp_all add: estimate_total_tokens_def total_len_def msg_len_def content_len_def)
  have p: "preflight 0 ?m = ?n" by (subst preflight.simps) (simp add: c e context_budget_def)
  have "estimate_total_tokens (force_compress ?n) = 0"
    by (simp add: force_compress_def last_n_def estimate_total_tokens_def total_len_def msg_len_def content_len_def)
  then show ?thesis using p e by (intro exI[of _ ?m]) (simp add: context_budget_def)
qed

text \<open>
  Summarising never raises and always leaves exactly the last four messages (all of
  them, when there are fewer); the older ones are dropped also when the LLM call
  failed, in which case the summary does not mention them.  A summary that was there
  before grows to at most 4000 characters.
\<close>

theorem summarize_keeps_last_four:
  "\<exists>t. summarize env sys model s = (Inr (), t) \<and>
     messages (agent_memory t) = last_n 4 (messages (agent_memory s)) \<and>
     (summary (agent_memory t) = summary (agent_memory s) \<or>
      (\<exists>new. summary (agent_memory t) = combine_summary (summary (agent_memory s)) new \<and>
        (summary (agent_memory s) = [] \<or> length (summary (agent_memory t)) \<le> 4000)))"
proof (cases "length (messages (agent_memory s)) \<le> 4")
  case True
  then show ?thesis by (simp add: summarize_def eff_defs last_n_all)
next
  case False
  have cap: "old = [] \<or> length (combine_summary old new) \<le> 4000" for old new
    by (simp add: combine_summary_def Let_def)
  have "wp (summarize env sys model) (\<lambda>_ t. messages (agent_memory t) = last_n 4 (messages (agent_memory s)) \<and>
     (summary (agent_memory t) = summary (agent_memory s) \<or>
      (\<exists>new. summary (agent_memory t) = combine_summary (summary (agent_memory s)) new \<and>
        (summary (agent_memory s) = [] \<or> length (summary (agent_memory t)) \<le> 4000)))) (\<lambda>_ _. False) s"
    unfolding summarize_def wp_bnd wp_gets using False
    by (simp add: wp_seq wp_tryc wp_bnd Let_def)
      (rule wp_keeps[OF keeps_chat(1)[OF llm_free_memory]]; auto simp: wp_simps cap split: option.splits)
  from wp_total[OF this] show ?thesis by auto
qed

end
