(* ===== verification/BuiltinTools.thy ===== *)
theory BuiltinTools
  imports Loop
begin

text \<open>
  The built-in tools of \<open>builtin_tools.py\<close>: each wraps one call of the \<open>CoreClient\<close>.  The
  arguments are the JSON value the model sent, so a missing key, a value of the wrong
  type or a number out of range raises, which the registry turns into an error result.
  The tools work on any state that has a history of calls.
\<close>

section \<open>Schemas\<close>

definition schema_prop :: "string \<Rightarrow> string \<Rightarrow> string \<Rightarrow> string \<times> json" where
  "schema_prop name ty description = (name, JObj [(''type'', JStr ty), (''description'', JStr description)])"

definition params_schema :: "(string \<times> json) list \<Rightarrow> string list \<Rightarrow> json" where
  "params_schema props required = JObj ([(''type'', JStr ''object''), (''properties'', JObj props)] @
     (if required = [] then [] else [(''required'', JList (map JStr required))]))"

section \<open>Arguments\<close>

definition tool_core :: "tool_context \<Rightarrow> string \<Rightarrow> ('z world_scheme, core_client) eff" where
  "tool_core ctx name = (case tc_core ctx of None \<Rightarrow> throw (none_attribute name) | Some c \<Rightarrow> ret c)"

definition text_arg :: "string \<Rightarrow> json \<Rightarrow> ('s, string) eff" where
  "text_arg k args = bnd (lift_sum (index_key k args)) (\<lambda>j. lift_sum (result_text j))"

definition text_opt :: "string \<Rightarrow> string \<Rightarrow> json \<Rightarrow> ('s, string) eff" where
  "text_opt k d args = bnd (lift_sum (get_key k (JStr d) args)) (\<lambda>j. lift_sum (result_text j))"

definition pid_arg :: "string \<Rightarrow> json \<Rightarrow> ('s, pid) eff" where
  "pid_arg k args = bnd (lift_sum (index_key k args)) (\<lambda>j. lift_sum (result_pid j))"

text \<open>A name looked up in an enum table: what is no text finds the default, what has no hash raises.\<close>

definition enum_arg :: "string \<Rightarrow> json \<Rightarrow> ('s, string) eff" where
  "enum_arg k args = bnd (lift_sum (index_key k args)) (\<lambda>j. case j of
      JStr t \<Rightarrow> ret t
    | JList _ \<Rightarrow> throw (TypeError ''unhashable type: list'')
    | JObj _ \<Rightarrow> throw (TypeError ''unhashable type: dict'')
    | _ \<Rightarrow> ret [])"

text \<open>\<open>args[k].encode("utf-8")\<close>.\<close>

definition bytes_arg :: "string \<Rightarrow> json \<Rightarrow> ('s, bytes) eff" where
  "bytes_arg k args = bnd (lift_sum (index_key k args)) (\<lambda>j. case j of
      JStr t \<Rightarrow> ret (utf8_encode t)
    | _ \<Rightarrow> throw (AttributeError ''object has no attribute encode''))"

text \<open>A timeout: an \<open>int32\<close> to which ten seconds are added.\<close>

definition timeout_arg :: "string \<Rightarrow> int \<Rightarrow> json \<Rightarrow> ('s, int) eff" where
  "timeout_arg k d args = bnd (lift_sum (get_key k (JInt d) args)) (\<lambda>j. case j of
      JInt i \<Rightarrow> if - (2 ^ 31) \<le> i \<and> i < 2 ^ 31 then ret i else throw (ValueError ''Value out of range'')
    | JBool b \<Rightarrow> ret (if b then 1 else 0)
    | _ \<Rightarrow> throw (TypeError ''bad argument type for built-in operation''))"

section \<open>Tools\<close>

definition SpawnChildTool :: "env \<Rightarrow> 'z world_scheme tool" where
  "SpawnChildTool env = \<lparr>tl_name = ''spawn_child'',
     tl_description = ''Spawn a new child agent with specified name, role, and configuration'',
     tl_parameters = params_schema [schema_prop ''name'' ''string'' ''Name for the child agent'',
       schema_prop ''role'' ''string'' ''Role: worker, task, agent, lead'',
       schema_prop ''cognitive_tier'' ''string'' ''Tier: strategic, tactical, operational'',
       schema_prop ''system_prompt'' ''string'' ''System prompt for the child'',
       schema_prop ''model'' ''string'' ''LLM model to use''] [''name'', ''role'', ''cognitive_tier''],
     tl_execute = (\<lambda>ctx args. bnd (tool_core ctx ''spawn_child'') (\<lambda>c.
       bnd (text_arg ''name'' args) (\<lambda>name. bnd (enum_arg ''role'' args) (\<lambda>role.
       bnd (enum_arg ''cognitive_tier'' args) (\<lambda>tier. bnd (text_opt ''system_prompt'' [] args) (\<lambda>sp.
       bnd (text_opt ''model'' [] args) (\<lambda>model.
       bnd (spawn_child env c name role tier sp model None [] None [] ''python'') (\<lambda>p.
         ret (ToolResult (''Spawned child agent with PID '' @ str_int p) False)))))))))\<rparr>"

definition task_result_json :: "task_result \<Rightarrow> json" where
  "task_result_json r = JObj [(''exit_code'', JInt (tr_exit_code r)), (''output'', JStr (tr_output r)),
     (''artifacts'', JObj (map (\<lambda>(k, v). (k, JStr v)) (tr_artifacts r))),
     (''metadata'', JObj (map (\<lambda>(k, v). (k, JStr v)) (tr_metadata r)))]"

definition ExecuteTaskTool :: "env \<Rightarrow> 'z world_scheme tool" where
  "ExecuteTaskTool env = \<lparr>tl_name = ''execute_task'',
     tl_description = ''Execute a task on another agent by PID'',
     tl_parameters = params_schema [schema_prop ''target_pid'' ''integer'' ''PID of the target agent'',
       schema_prop ''description'' ''string'' ''Task description'',
       schema_prop ''timeout_seconds'' ''integer'' ''Timeout in seconds''] [''target_pid'', ''description''],
     tl_execute = (\<lambda>ctx args. bnd (tool_core ctx ''execute_task'') (\<lambda>c.
       bnd (pid_arg ''target_pid'' args) (\<lambda>p. bnd (text_arg ''description'' args) (\<lambda>d.
       bnd (timeout_arg ''timeout_seconds'' 120 args) (\<lambda>tmo.
       bnd (execute_task env c p d None tmo) (\<lambda>r. ret (ToolResult (dumps True (task_result_json r)) False)))))))\<rparr>"

definition SendMessageTool :: "env \<Rightarrow> 'z world_scheme tool" where
  "SendMessageTool env = \<lparr>tl_name = ''send_message'',
     tl_description = ''Send an IPC message to another agent by PID'',
     tl_parameters = params_schema [schema_prop ''to_pid'' ''integer'' ''Target agent PID'',
       schema_prop ''type'' ''string'' ''Message type'', schema_prop ''payload'' ''string'' ''Message content'']
       [''to_pid'', ''type'', ''payload''],
     tl_execute = (\<lambda>ctx args. bnd (tool_core ctx ''send_message'') (\<lambda>c.
       bnd (pid_arg ''to_pid'' args) (\<lambda>p. bnd (text_arg ''type'' args) (\<lambda>ty. bnd (bytes_arg ''payload'' args) (\<lambda>b.
       bnd (send_message env c p [] ty b ''normal'' False 0 []) (\<lambda>mid.
         ret (ToolResult (''Message sent, id='' @ mid) False)))))))\<rparr>"

definition StoreArtifactTool :: "env \<Rightarrow> 'z world_scheme tool" where
  "StoreArtifactTool env = \<lparr>tl_name = ''store_artifact'',
     tl_description = ''Store data persistently in the artifact store'',
     tl_parameters = params_schema [schema_prop ''key'' ''string'' ''Storage key'', schema_prop ''content'' ''string'' ''Content to store'']
       [''key'', ''content''],
     tl_execute = (\<lambda>ctx args. bnd (tool_core ctx ''store_artifact'') (\<lambda>c.
       bnd (text_arg ''key'' args) (\<lambda>k. bnd (bytes_arg ''content'' args) (\<lambda>b.
       bnd (store_artifact env c k b ''application/octet-stream'' 3) (\<lambda>i.
         ret (ToolResult (''Artifact stored, id='' @ i) False))))))\<rparr>"

text \<open>\<open>get_artifact\<close> returns the response message, which is true and has a content.\<close>

definition GetArtifactTool :: "env \<Rightarrow> 'z world_scheme tool" where
  "GetArtifactTool env = \<lparr>tl_name = ''get_artifact'',
     tl_description = ''Retrieve data from the artifact store by key'',
     tl_parameters = params_schema [schema_prop ''key'' ''string'' ''Storage key to retrieve''] [''key''],
     tl_execute = (\<lambda>ctx args. bnd (tool_core ctx ''get_artifact'') (\<lambda>c. bnd (text_arg ''key'' args) (\<lambda>k.
       bnd (get_artifact env c k []) (\<lambda>b. ret (ToolResult (utf8_decode_replace b) False)))))\<rparr>"

text \<open>\<open>list_children\<close> returns protobuf messages, which \<open>json.dumps\<close> cannot serialise.\<close>

definition ListChildrenTool :: "env \<Rightarrow> 'z world_scheme tool" where
  "ListChildrenTool env = \<lparr>tl_name = ''list_children'',
     tl_description = ''List all child agents of this agent'', tl_parameters = params_schema [] [],
     tl_execute = (\<lambda>ctx args. bnd (tool_core ctx ''list_children'') (\<lambda>c. bnd (list_children env c False) (\<lambda>ps.
       if ps = [] then ret (ToolResult (dumps True (JList [])) False)
       else throw (TypeError ''Object of type ProcessInfo is not JSON serializable''))))\<rparr>"

definition sibling_json :: "sibling \<Rightarrow> json" where
  "sibling_json s = JObj [(''pid'', JInt (sb_pid s)), (''name'', JStr (sb_name s)), (''role'', JStr (sb_role s)),
     (''state'', JStr (sb_state s))]"

definition ListSiblingsTool :: "env \<Rightarrow> 'z world_scheme tool" where
  "ListSiblingsTool env = \<lparr>tl_name = ''list_siblings'',
     tl_description = ''List sibling agents (same parent, excluding self)'', tl_parameters = params_schema [] [],
     tl_execute = (\<lambda>ctx args. bnd (tool_core ctx ''list_siblings'') (\<lambda>c. bnd (list_siblings env c) (\<lambda>ss.
       ret (ToolResult (dumps True (JList (map sibling_json ss))) False))))\<rparr>"

definition memory_key :: "tool_context \<Rightarrow> string" where
  "memory_key ctx = ''agent:'' @ str_int (tc_pid ctx) @ '':memory''"

definition MemoryStoreTool :: "env \<Rightarrow> 'z world_scheme tool" where
  "MemoryStoreTool env = \<lparr>tl_name = ''memory_store'',
     tl_description = ''Save information to long-term memory for recall across sessions'',
     tl_parameters = params_schema [schema_prop ''content'' ''string'' ''Content to remember''] [''content''],
     tl_execute = (\<lambda>ctx args. bnd (tool_core ctx ''store_artifact'') (\<lambda>c. bnd (bytes_arg ''content'' args) (\<lambda>b.
       seq (store_artifact env c (memory_key ctx) b ''application/octet-stream'' 3)
         (ret (ToolResult ''Memory saved'' False)))))\<rparr>"

definition MemoryRecallTool :: "env \<Rightarrow> 'z world_scheme tool" where
  "MemoryRecallTool env = \<lparr>tl_name = ''memory_recall'',
     tl_description = ''Recall information from long-term memory'', tl_parameters = params_schema [] [],
     tl_execute = (\<lambda>ctx args. bnd (tool_core ctx ''get_artifact'') (\<lambda>c.
       bnd (get_artifact env c (memory_key ctx) []) (\<lambda>b. ret (ToolResult (utf8_decode_replace b) False))))\<rparr>"

definition ScheduleCronTool :: "env \<Rightarrow> 'z world_scheme tool" where
  "ScheduleCronTool env = \<lparr>tl_name = ''schedule_cron'',
     tl_description = ''Schedule a recurring task via cron expression'',
     tl_parameters = params_schema [schema_prop ''name'' ''string'' ''Name for the cron entry'',
       schema_prop ''cron_expression'' ''string'' (''Cron expression (e.g. '' @ [CHR 0x27] @ ''*/5 * * * *'' @ [CHR 0x27] @ '')''),
       schema_prop ''target_pid'' ''integer'' ''PID of the agent to execute on'',
       schema_prop ''description'' ''string'' ''Task description for the cron entry'',
       schema_prop ''action'' ''string'' ''Action type: execute, message, spawn, wake'']
       [''name'', ''cron_expression'', ''target_pid''],
     tl_execute = (\<lambda>ctx args. bnd (tool_core ctx ''add_cron'') (\<lambda>c.
       bnd (text_arg ''name'' args) (\<lambda>name. bnd (text_arg ''cron_expression'' args) (\<lambda>expr.
       bnd (pid_arg ''target_pid'' args) (\<lambda>p. bnd (text_opt ''description'' [] args) (\<lambda>d.
       bnd (text_opt ''action'' ''execute'' args) (\<lambda>a.
       bnd (add_cron env c name expr p d None a) (\<lambda>i. ret (ToolResult (''Cron scheduled, id='' @ i) False)))))))))\<rparr>"

definition info_json :: "proc_info \<Rightarrow> json" where
  "info_json i = JObj [(''pid'', JInt (pi_pid i)), (''ppid'', JInt (pi_ppid i)), (''name'', JStr (pi_name i)),
     (''role'', JInt (pi_role i)), (''state'', JInt (pi_state i)), (''cognitive_tier'', JInt (pi_cognitive_tier i)),
     (''model'', JStr (pi_model i))]"

definition GetProcessInfoTool :: "env \<Rightarrow> 'z world_scheme tool" where
  "GetProcessInfoTool env = \<lparr>tl_name = ''get_process_info'',
     tl_description = ''Get information about a process by PID (0 = self)'',
     tl_parameters = params_schema [schema_prop ''pid'' ''integer'' ''PID to query (0 = self)''] [''pid''],
     tl_execute = (\<lambda>ctx args. bnd (tool_core ctx ''get_process_info'') (\<lambda>c. bnd (pid_arg ''pid'' args) (\<lambda>p.
       bnd (get_process_info env c p) (\<lambda>i. ret (ToolResult (dumps True (info_json i)) False)))))\<rparr>"

definition ALL_BUILTIN_TOOLS :: "env \<Rightarrow> 'z world_scheme tool list" where
  "ALL_BUILTIN_TOOLS env = [SpawnChildTool env, ExecuteTaskTool env, SendMessageTool env, StoreArtifactTool env,
     GetArtifactTool env, ListChildrenTool env, ListSiblingsTool env, MemoryStoreTool env, MemoryRecallTool env,
     ScheduleCronTool env, GetProcessInfoTool env]"

definition register_builtin_tools :: "env \<Rightarrow> 'z world_scheme tool_registry \<Rightarrow> 'z world_scheme tool_registry" where
  "register_builtin_tools env reg = register_all (ALL_BUILTIN_TOOLS env) reg"

lemmas tool_defs = SpawnChildTool_def ExecuteTaskTool_def SendMessageTool_def StoreArtifactTool_def GetArtifactTool_def
  ListChildrenTool_def ListSiblingsTool_def MemoryStoreTool_def MemoryRecallTool_def ScheduleCronTool_def GetProcessInfoTool_def

lemmas arg_defs = tool_core_def text_arg_def text_opt_def pid_arg_def enum_arg_def bytes_arg_def timeout_arg_def

section \<open>Schemas are well formed\<close>

fun obj_get :: "string \<Rightarrow> json \<Rightarrow> json option" where
  "obj_get k (JObj kvs) = map_of kvs k"
| "obj_get _ _ = None"

fun obj_keys :: "json \<Rightarrow> string list" where
  "obj_keys (JObj kvs) = map fst kvs"
| "obj_keys _ = []"

fun names_of :: "json \<Rightarrow> string list" where
  "names_of (JList xs) = concat (map (\<lambda>j. case j of JStr t \<Rightarrow> [t] | _ \<Rightarrow> []) xs)"
| "names_of _ = []"

definition required_of :: "json \<Rightarrow> string list" where
  "required_of j = (case obj_get ''required'' j of None \<Rightarrow> [] | Some r \<Rightarrow> names_of r)"

definition properties_of :: "json \<Rightarrow> string list" where
  "properties_of j = (case obj_get ''properties'' j of None \<Rightarrow> [] | Some r \<Rightarrow> obj_keys r)"

text \<open>An object schema whose required names are among its properties, none given twice.\<close>

definition schema_ok :: "json \<Rightarrow> bool" where
  "schema_ok j \<longleftrightarrow> obj_get ''type'' j = Some (JStr ''object'') \<and> distinct (properties_of j) \<and>
     distinct (required_of j) \<and> list_all (\<lambda>n. n \<in> set (properties_of j)) (required_of j)"

lemma required_params [simp]: "required_of (params_schema props required) = required"
  by (induction required) (auto simp: required_of_def params_schema_def split: if_splits)

lemma properties_params [simp]: "properties_of (params_schema props required) = map fst props"
  by (simp add: properties_of_def params_schema_def)

lemma type_params [simp]: "obj_get ''type'' (params_schema props required) = Some (JStr ''object'')"
  by (simp add: params_schema_def)

lemma fst_schema_prop [simp]: "fst (schema_prop n ty d) = n"
  by (simp add: schema_prop_def)

lemma builtin_names: "map tl_name (ALL_BUILTIN_TOOLS env) =
   [''spawn_child'', ''execute_task'', ''send_message'', ''store_artifact'', ''get_artifact'', ''list_children'',
    ''list_siblings'', ''memory_store'', ''memory_recall'', ''schedule_cron'', ''get_process_info'']"
  by (simp add: ALL_BUILTIN_TOOLS_def tool_defs)

lemma builtin_distinct: "distinct (map tl_name (ALL_BUILTIN_TOOLS env))"
  unfolding builtin_names by simp

lemma builtin_schemas: "list_all (\<lambda>t. schema_ok (tl_parameters t)) (ALL_BUILTIN_TOOLS env)"
  by (simp add: ALL_BUILTIN_TOOLS_def tool_defs schema_ok_def)

text \<open>Registering tools of distinct names into an empty registry keeps all of them, in order.\<close>

lemma register_fresh: "tl_name t \<notin> fst ` set reg \<Longrightarrow> register t reg = reg @ [(tl_name t, t)]"
  unfolding register_def by (induction reg) auto

lemma register_all_distinct:
  "distinct (map tl_name ts) \<Longrightarrow> register_all ts ToolRegistry = map (\<lambda>t. (tl_name t, t)) ts"
proof (induction ts rule: rev_induct)
  case Nil
  then show ?case by (simp add: register_all_def ToolRegistry_def)
next
  case (snoc t ts)
  then have "register_all (ts @ [t]) ToolRegistry = register t (map (\<lambda>t. (tl_name t, t)) ts)"
    by (simp add: register_all_def)
  also have "\<dots> = map (\<lambda>t. (tl_name t, t)) (ts @ [t])"
    using snoc.prems by (subst register_fresh) (auto simp: image_iff)
  finally show ?case .
qed

lemma builtin_registry:
  "register_builtin_tools env ToolRegistry = map (\<lambda>t. (tl_name t, t)) (ALL_BUILTIN_TOOLS env)"
  unfolding register_builtin_tools_def by (rule register_all_distinct[OF builtin_distinct])

section \<open>Arguments are read before the call\<close>

text \<open>Reading an argument changes nothing, and a missing one raises.\<close>

lemma wp_tool_core [wp_simps]:
  "wp (tool_core ctx n) Q E = (case tc_core ctx of None \<Rightarrow> E (none_attribute n) | Some c \<Rightarrow> Q c)"
  by (simp add: tool_core_def wp_simps split: option.splits)

definition reads :: "('s, 'a) eff \<Rightarrow> bool" where
  "reads m \<longleftrightarrow> (\<forall>s. \<exists>r. m s = (r, s))"

lemma reads_args: "reads (tool_core ctx n)" "reads (text_arg k args)" "reads (text_opt k d args)"
  "reads (pid_arg k args)" "reads (enum_arg k args)" "reads (bytes_arg k args)" "reads (timeout_arg k i args)"
  by (auto simp: reads_def arg_defs lift_sum_def bnd_def throw_def ret_def split: option.splits sum.splits json.splits)

lemma wp_reads: "reads m \<Longrightarrow> (\<And>v. Q v s) \<Longrightarrow> (\<And>e. E e s) \<Longrightarrow> wp m Q E s"
  unfolding reads_def wp_def by (metis (mono_tags, lifting) case_prod_conv sum.case sum.exhaust)

lemma wp_arg_missing [simp]:
  assumes "map_of kvs k = None"
  shows "wp (text_arg k (JObj kvs)) Q E = E (KeyError k)" "wp (pid_arg k (JObj kvs)) Q' E = E (KeyError k)"
    "wp (enum_arg k (JObj kvs)) Q E = E (KeyError k)" "wp (bytes_arg k (JObj kvs)) Q'' E = E (KeyError k)"
  using assms by (simp_all add: arg_defs index_key_def wp_simps)

lemmas read_args = reads_args[THEN wp_reads]

text \<open>A tool called without an argument that its schema requires raises before it makes a call.\<close>

definition needs :: "'w tool \<Rightarrow> bool" where
  "needs t \<longleftrightarrow> list_all (\<lambda>k. \<forall>kvs ctx s. map_of kvs k = None \<longrightarrow>
     wp (tl_execute t ctx (JObj kvs)) (\<lambda>_ _. False) (\<lambda>_ u. u = s) s) (required_of (tl_parameters t))"

lemma builtin_needs: "list_all needs (ALL_BUILTIN_TOOLS env)"
  unfolding ALL_BUILTIN_TOOLS_def list.pred_inject
  by (intro conjI; simp add: needs_def tool_defs; intro conjI impI allI;
      simp add: wp_simps split: option.splits; (intro allI impI read_args; simp?)+)

section \<open>The tools in the loop\<close>

lemma find_builtin:
  "t \<in> set (ALL_BUILTIN_TOOLS env) \<Longrightarrow> map_of (register_builtin_tools env ToolRegistry) (tl_name t) = Some t"
  unfolding builtin_registry using builtin_distinct[of env]
  by (intro map_of_is_SomeI) (simp_all add: comp_def image_iff)

lemma execute_builtin:
  "t \<in> set (ALL_BUILTIN_TOOLS env) \<Longrightarrow> execute (register_builtin_tools env ToolRegistry) (tl_name t) ctx args =
   tryc (tl_execute t ctx args) (\<lambda>e. ret (ToolResult (''Tool '' @ tl_name t @ '' failed: '' @ exn_str e) True))"
  by (simp add: execute_def find_builtin)

lemma keeps_reads: "reads m \<Longrightarrow> keeps f m"
  unfolding reads_def keeps_def by (metis snd_conv)

lemmas keeps_args [keeps_rules] = reads_args[THEN keeps_reads]

lemma keeps_builtin:
  assumes "traceless f"
  shows "list_all (\<lambda>t. \<forall>ctx args. keeps f (tl_execute t ctx args)) (ALL_BUILTIN_TOOLS env)"
  unfolding ALL_BUILTIN_TOOLS_def list.pred_inject(2) tool_defs tool.simps
    spawn_child_def execute_task_def send_message_def store_artifact_def get_artifact_def list_children_def
    list_siblings_def add_cron_def get_process_info_def
  using assms by (intro conjI allI keeps_rules; (assumption | simp))

lemma builtin_keep_memory: "tools_keep_memory (register_builtin_tools env ToolRegistry)"
  using keeps_builtin[OF traceless_memory] unfolding tools_keep_memory_def builtin_registry
  by (auto simp: list_all_iff)

section \<open>The memory tools on the kernel's store\<close>

abbreviation core_ctx :: "core_client \<Rightarrow> tool_context" where
  "core_ctx c \<equiv> \<lparr>tc_pid = 0, tc_core = Some c, tc_syscall = False, tc_workspace = []\<rparr>"

lemma core_ctx_calls:
  "ctx_usable (core_ctx c)"
  "ctx_store_artifact env (core_ctx c) k b = store_artifact env c k b ''application/octet-stream'' 3"
  "ctx_get_artifact env (core_ctx c) k = get_artifact env c k []"
  by (simp_all add: ctx_usable_def ctx_store_artifact_def ctx_get_artifact_def)

lemmas wp_core_store = wp_store[OF core_ctx_calls(1), unfolded core_ctx_calls(2)]
lemmas wp_core_get = wp_get[OF core_ctx_calls(1), unfolded core_ctx_calls(3)]

lemma memory_key_ne [simp]: "memory_key ctx \<noteq> []"
  by (simp add: memory_key_def)

lemma memory_key_mem: "mem_pid m = tc_pid ctx \<Longrightarrow> mem_key m ''memory'' = memory_key ctx"
  by (simp add: mem_key_def memory_key_def)

lemma wp_memory_store:
  assumes "tc_core ctx = Some c" "map_of kvs ''content'' = Some (JStr x)"
  shows "wp (tl_execute (MemoryStoreTool (with_store env)) ctx (JObj kvs))
     (\<lambda>r t. r = ToolResult ''Memory saved'' False \<and> store_of (trace t) (memory_key ctx) = Some (utf8_encode x)) E s"
  using assms unfolding MemoryStoreTool_def tool.simps
  by (simp add: wp_simps bytes_arg_def index_key_def) (rule wp_core_store; simp)

lemma wp_memory_recall:
  assumes "tc_core ctx = Some c" "store_of (trace s) (memory_key ctx) = Some (utf8_encode x)"
  shows "wp (tl_execute (MemoryRecallTool (with_store env)) ctx args) (\<lambda>r _. r = ToolResult x False) E s"
  using assms unfolding MemoryRecallTool_def tool.simps
  by (simp add: wp_simps) (rule wp_core_get[OF assms(2)]; simp)

lemma execute_memory_tools:
  "execute (register_builtin_tools env ToolRegistry) ''memory_store'' ctx args = tryc (tl_execute (MemoryStoreTool env) ctx args)
     (\<lambda>e. ret (ToolResult (''Tool memory_store failed: '' @ exn_str e) True))"
  "execute (register_builtin_tools env ToolRegistry) ''memory_recall'' ctx args = tryc (tl_execute (MemoryRecallTool env) ctx args)
     (\<lambda>e. ret (ToolResult (''Tool memory_recall failed: '' @ exn_str e) True))"
  using execute_builtin[of "MemoryStoreTool env" env ctx args] execute_builtin[of "MemoryRecallTool env" env ctx args]
  by (simp_all add: ALL_BUILTIN_TOOLS_def MemoryStoreTool_def MemoryRecallTool_def)

lemma list_children_name: "tl_name (ListChildrenTool env) = ''list_children''"
  by (simp add: ListChildrenTool_def)

section \<open>Properties\<close>

text \<open>
  The built-in tools are registered under eleven distinct names, in the order of the
  source, and each is described to the LLM by a well-formed schema: an object whose
  required parameters are among its properties.
\<close>

theorem builtin_tools_well_formed:
  "register_builtin_tools env ToolRegistry = map (\<lambda>t. (tl_name t, t)) (ALL_BUILTIN_TOOLS env) \<and>
   registry_ok (register_builtin_tools env ToolRegistry) \<and>
   length (to_openai_schema (register_builtin_tools env ToolRegistry)) = 11 \<and>
   list_all (\<lambda>t. schema_ok (tl_parameters t)) (ALL_BUILTIN_TOOLS env)"
proof (intro conjI)
  show "registry_ok (register_builtin_tools env ToolRegistry)"
    by (simp add: register_builtin_tools_def register_all_ok)
  show "length (to_openai_schema (register_builtin_tools env ToolRegistry)) = 11"
    by (simp add: builtin_registry to_openai_schema_def ALL_BUILTIN_TOOLS_def)
qed (fact builtin_registry builtin_schemas)+

text \<open>
  A built-in tool that the LLM calls without one of the parameters its schema requires
  gives an error result and makes no call to the kernel: every argument is read before
  the call.
\<close>

theorem builtin_missing_argument:
  fixes t :: "'z world_scheme tool" and s :: "'z world_scheme"
  assumes "t \<in> set (ALL_BUILTIN_TOOLS env)" "k \<in> set (required_of (tl_parameters t))" "map_of kvs k = None"
  shows "\<exists>e. execute (register_builtin_tools env ToolRegistry) (tl_name t) ctx (JObj kvs) s =
     (Inr (ToolResult (''Tool '' @ tl_name t @ '' failed: '' @ e) True), s)"
proof -
  have "wp (tl_execute t ctx (JObj kvs)) (\<lambda>_ _. False) (\<lambda>_ u. u = s) s"
    using builtin_needs[of env] assms by (auto simp: list_all_iff needs_def)
  then show ?thesis
    by (auto simp: execute_builtin[OF assms(1)] wp_def tryc_def ret_def split: prod.splits sum.splits)
qed

theorem builtin_missing_argument_witness:
  "\<exists>e. execute (register_builtin_tools example_env ToolRegistry) ''memory_store'' example_ctx (JObj []) \<lparr>trace = []\<rparr> =
     (Inr (ToolResult (''Tool memory_store failed: '' @ e) True), \<lparr>trace = []\<rparr>)"
  using builtin_missing_argument[of "MemoryStoreTool example_env" example_env "''content''" "[]" example_ctx "\<lparr>trace = []\<rparr>"]
  by (simp add: ALL_BUILTIN_TOOLS_def MemoryStoreTool_def)

text \<open>
  What \<open>memory_store\<close> saves is what \<open>memory_recall\<close> gives back, on the kernel's store, whatever
  other arguments the two calls carry and whatever the store held before.
\<close>

theorem memory_tools_round_trip:
  assumes "tc_core ctx = Some c" "map_of kvs ''content'' = Some (JStr x)"
    and "reg = register_builtin_tools (with_store env) ToolRegistry"
  shows "result (execute reg ''memory_recall'' ctx args) (final (execute reg ''memory_store'' ctx (JObj kvs)) s) =
    Inr (ToolResult x False)"
proof -
  let ?t = "final (execute reg ''memory_store'' ctx (JObj kvs)) s"
  have "wp (execute reg ''memory_store'' ctx (JObj kvs)) (\<lambda>_ t. store_of (trace t) (memory_key ctx) = Some (utf8_encode x))
      (\<lambda>_ _. False) s"
    unfolding assms(3) execute_memory_tools wp_tryc by (rule wp_mono[OF wp_memory_store[OF assms(1,2)]]) auto
  then have "store_of (trace ?t) (memory_key ctx) = Some (utf8_encode x)"
    by (auto simp: wp_def final_def split: prod.splits sum.splits)
  then have "wp (execute reg ''memory_recall'' ctx args) (\<lambda>r _. r = ToolResult x False) (\<lambda>_ _. False) ?t"
    unfolding assms(3) execute_memory_tools wp_tryc by (rule wp_memory_recall[OF assms(1)])
  then show ?thesis by (auto simp: wp_def result_def split: prod.splits sum.splits)
qed

theorem memory_tools_round_trip_witness:
  "let reg = register_builtin_tools (with_store example_env) ToolRegistry in
   result (execute reg ''memory_recall'' example_ctx (JObj []))
     (final (execute reg ''memory_store'' example_ctx (JObj [(''content'', JStr ''note'')])) \<lparr>trace = []\<rparr>) =
   Inr (ToolResult ''note'' False)"
  unfolding Let_def by (rule memory_tools_round_trip) (simp_all add: example_ctx_def)

text \<open>
  But a run of the agent loop with the built-in tools loses it: after a run that returns,
  the artifact \<open>memory_recall\<close> reads holds a suffix of the long-term memory the run started
  with, whatever the model stored on the way, because \<open>AgentMemory.save\<close> writes the
  in-memory text, which no tool changes, over the key that \<open>memory_store\<close> wrote.
\<close>

theorem memory_store_overwritten:
  assumes "ctx_usable ctx" "mem_pid (agent_memory s) = tc_pid ctx"
    and "result (loop_run (with_store env) (register_builtin_tools (with_store env) ToolRegistry) n prompt ctx sys model) s = Inr r"
  shows "\<exists>l ys. long_term (agent_memory s) = ys @ l \<and>
    store_of (trace (final (loop_run (with_store env) (register_builtin_tools (with_store env) ToolRegistry) n prompt ctx sys model) s))
      (memory_key ctx) = Some (utf8_encode l)"
proof -
  define u where "u = final (loop_run (with_store env) (register_builtin_tools (with_store env) ToolRegistry) n prompt ctx sys model) s"
  have "saved_in (store_of (trace u)) (agent_memory u)" "ltm_from (agent_memory s) (agent_memory u)"
    using wp_returns[OF wp_loop_run_saves[OF builtin_keep_memory assms(1)] assms(3)] unfolding u_def by auto
  then show ?thesis using assms(2) memory_key_mem[of "agent_memory u" ctx] unfolding u_def[symmetric]
    by (auto simp: ltm_from_def saved_in_def)
qed

theorem memory_store_overwritten_witness:
  "store_of (trace (final (loop_run (with_store (answering (dumps False example_answer)))
     (register_builtin_tools (with_store (answering (dumps False example_answer))) ToolRegistry) 3 (JStr ''hi'') example_ctx [] [])
     example_tool_agent)) (memory_key example_ctx) = Some (utf8_encode [])"
proof -
  let ?env = "with_store (answering (dumps False example_answer))"
  obtain r where r: "result (loop_run ?env (register_builtin_tools ?env ToolRegistry) 3 (JStr ''hi'') example_ctx [] [])
      example_tool_agent = Inr r"
    using example_run[OF hello_envs(2)[OF hello_envs(1)]] by blast
  have "ctx_usable example_ctx" "mem_pid (agent_memory example_tool_agent) = tc_pid example_ctx"
    by (simp_all add: ctx_usable_def example_ctx_def AgentMemory_def)
  from memory_store_overwritten[OF this r] show ?thesis by (simp add: AgentMemory_def)
qed

text \<open>
  \<open>list_children\<close> fails as soon as there is a child: the client returns protobuf messages,
  which \<open>json.dumps\<close> cannot serialise, so the LLM is told of an error and never sees the
  children.
\<close>

theorem list_children_tool_fails:
  fixes s :: "'z world_scheme"
  assumes "tc_core ctx = Some c" "e_children env (trace s @ [rpc c None (ListChildrenRequest False)]) = Inr (p # ps)"
  shows "\<exists>e. result (execute (register_builtin_tools env ToolRegistry) ''list_children'' ctx args) s =
    Inr (ToolResult (''Tool list_children failed: '' @ e) True)"
proof -
  have "(ListChildrenTool env :: 'z world_scheme tool) \<in> set (ALL_BUILTIN_TOOLS env)" by (simp add: ALL_BUILTIN_TOOLS_def)
  note run = execute_builtin[OF this, of ctx args, unfolded list_children_name]
  have "wp (tl_execute (ListChildrenTool env) ctx args) (\<lambda>_ _. False) (\<lambda>_ _. True) s"
    using assms by (simp add: ListChildrenTool_def list_children_def wp_simps)
  then show ?thesis unfolding run by (auto simp: wp_def result_def tryc_def ret_def split: prod.splits sum.splits)
qed

theorem list_children_tool_fails_witness:
  "\<exists>e. result (execute (register_builtin_tools (example_env\<lparr>e_children := \<lambda>_. Inr [example_proc 1 0]\<rparr>) ToolRegistry)
     ''list_children'' example_ctx (JObj [])) \<lparr>trace = []\<rparr> =
   Inr (ToolResult (''Tool list_children failed: '' @ e) True)"
  by (rule list_children_tool_fails) (simp_all add: example_ctx_def)

end
