(* ===== verification/Accounting.thy ===== *)
theory Accounting
  imports Llm
begin

text \<open>
  Views of the history of calls that the properties of the agents are about: the pids an
  agent was given for its spawns, the pids it sent a kill for, and the messages it sent,
  over the syscall stream or the core client.  Operations that make none of these calls
  keep the views (collection \<open>keeps_rules\<close>).
\<close>

section \<open>Workers spawned and workers killed\<close>

fun killed_pid :: "call \<Rightarrow> pid list" where
  "killed_pid (Sys _ (KillRequest p True)) = [p]"
| "killed_pid (Rpc _ _ (KillRequest p True)) = [p]"
| "killed_pid _ = []"

definition kills :: "call list \<Rightarrow> pid list" where
  "kills h = concat (map killed_pid h)"

text \<open>The pids the kernel answered to the spawn calls of a history, in order.\<close>

fun is_spawn :: "call \<Rightarrow> bool" where
  "is_spawn (Sys _ (SpawnRequest _)) = True"
| "is_spawn (Rpc _ _ (SpawnRequest _)) = True"
| "is_spawn _ = False"

definition spawn_answer :: "env \<Rightarrow> call list \<Rightarrow> pid list" where
  "spawn_answer env h = (if is_spawn (last h)
     then (case e_spawn env h of Inr (ok, _, p) \<Rightarrow> if ok then [p] else [] | Inl _ \<Rightarrow> []) else [])"

definition spawned :: "env \<Rightarrow> call list \<Rightarrow> pid list" where
  "spawned env h = concat (map (\<lambda>i. spawn_answer env (take (Suc i) h)) [0..<length h])"

lemma spawned_snoc [simp]: "spawned env (h @ [c]) = spawned env h @ spawn_answer env (h @ [c])"
proof -
  have "concat (map (\<lambda>i. spawn_answer env (take (Suc i) (h @ [c]))) [0..<length h]) =
        concat (map (\<lambda>i. spawn_answer env (take (Suc i) h)) [0..<length h])"
    by (intro arg_cong[where f = concat] map_cong) auto
  then show ?thesis by (simp only: spawned_def) (simp del: take_append)
qed

lemma spawned_snoc2 [simp]:
  "spawned env (h @ [c, d]) = spawned env h @ spawn_answer env (h @ [c]) @ spawn_answer env (h @ [c, d])"
  using spawned_snoc[of env "h @ [c]" d] by (simp del: spawned_snoc add: spawned_snoc[of env h c])

lemma kills_snoc [simp]: "kills (h @ [c]) = kills h @ killed_pid c"
  by (simp add: kills_def)

lemma kills_snoc2 [simp]: "kills (h @ [c, d]) = kills h @ killed_pid c @ killed_pid d"
  by (simp add: kills_def)

definition workers :: "env \<Rightarrow> 'z world_scheme \<Rightarrow> pid list \<times> pid list" where
  "workers env s = (spawned env (trace s), kills (trace s))"

lemma ignores_workers: "\<not> is_spawn c \<Longrightarrow> killed_pid c = [] \<Longrightarrow> ignores (workers env) c"
  by (simp add: ignores_def workers_def spawn_answer_def)

lemma llm_free_workers: "llm_free (workers env)"
  by (simp add: llm_free_def ignores_workers workers_def)

lemma keeps_workers [keeps_rules]:
  "keeps (workers env) (sys_log env' l m f)" "keeps (workers env) (report_progress m p)"
  "keeps (workers env) (sys_execute_on env' q d ps tmo)" "keeps (workers env) (sys_store_artifact env' k b ct v)"
  "keeps (workers env) (uuid4 env')"
  unfolding sys_log_def report_progress_def sys_execute_on_def sys_store_artifact_def do_syscall_def
  by (intro keeps_rules keeps_ignored ignores_workers; simp)+

lemma keeps_workers_core [keeps_rules]:
  "keeps (workers env) (core_log env' c l m f)" "keeps (workers env) (execute_task env' c q d ps tmo)"
  "keeps (workers env) (store_artifact env' c k b ct v)" "keeps (workers env) (get_artifact env' c k i)"
  "keeps (workers env) (get_process_info env' c q)" "keeps (workers env) (time_time env')"
  "keeps (workers env) (send_message env' c q to_q ty b pr ack ttl rt)"
  unfolding core_log_def execute_task_def store_artifact_def get_artifact_def get_process_info_def send_message_def
    send_req_def rpc_def
  by (intro keeps_rules keeps_ignored ignores_workers; simp)+

lemma wp_sys_spawn:
  "wp (sys_spawn env n r ct sp m tools it lms img rt)
     (\<lambda>p t. workers env t = (spawned env (trace s) @ [p], kills (trace s))) (\<lambda>_ t. kills (trace t) = kills (trace s)) s"
  by (auto simp: sys_spawn_def spawn_req_def wp_simps Let_def workers_def spawn_answer_def split: sum.splits)

lemma wp_spawn_child:
  "wp (spawn_child env c n r ct sp m tools it lms img rt)
     (\<lambda>p t. workers env t = (spawned env (trace s) @ [p], kills (trace s)))
     (\<lambda>_ t. workers env t = (spawned env (trace s), kills (trace s))) s"
  by (auto simp: spawn_child_def spawn_req_def rpc_def wp_simps workers_def spawn_answer_def split: sum.splits)

lemma wp_kill_child:
  "wp (kill_child env c p True)
     (\<lambda>_ t. workers env' t = (spawned env' (trace s), kills (trace s) @ [p]))
     (\<lambda>_ t. workers env' t = (spawned env' (trace s), kills (trace s) @ [p])) s"
  by (auto simp: kill_child_def rpc_def wp_simps workers_def spawn_answer_def split: sum.splits)

section \<open>Messages sent\<close>

fun sent_message :: "call \<Rightarrow> send_request list" where
  "sent_message (Sys _ (SendMessageRequest q)) = [q]"
| "sent_message (Rpc _ _ (SendMessageRequest q)) = [q]"
| "sent_message _ = []"

definition sent :: "'z world_scheme \<Rightarrow> send_request list" where
  "sent s = concat (map sent_message (trace s))"

lemma sent_emit [simp]: "sent (emit c s) = sent s @ sent_message c"
  by (simp add: sent_def)

lemma ignores_sent: "sent_message c = [] \<Longrightarrow> ignores sent c"
  by (simp add: ignores_def)

lemma llm_free_sent: "llm_free sent"
  by (simp add: llm_free_def ignores_sent sent_def)

lemma keeps_sent [keeps_rules]:
  "keeps sent (core_log env c l m f)" "keeps sent (execute_task env c q d ps tmo)"
  "keeps sent (store_artifact env c k b ct v)" "keeps sent (get_artifact env c k i)"
  "keeps sent (get_process_info env c q)" "keeps sent (time_time env)" "keeps sent (uuid4 env)"
  "keeps sent (spawn_child env c n r tier sp m tools it lms img rt)" "keeps sent (kill_child env c q rec)"
  unfolding core_log_def execute_task_def store_artifact_def get_artifact_def get_process_info_def
    spawn_child_def spawn_req_def kill_child_def rpc_def
  by (intro keeps_rules keeps_ignored ignores_sent; simp)+

lemma wp_send_message:
  "wp (send_message env c q to_q ty b pr ack ttl rt)
     (\<lambda>_ t. sent t = sent s @ [\<lparr>mq_to_pid = q, mq_to_queue = to_q, mq_type = ty, mq_priority = priority_to_proto pr,
        mq_payload = b, mq_requires_ack = ack, mq_ttl_seconds = ttl, mq_reply_to = rt\<rparr>])
     (\<lambda>_ t. sent t = sent s @ [\<lparr>mq_to_pid = q, mq_to_queue = to_q, mq_type = ty, mq_priority = priority_to_proto pr,
        mq_payload = b, mq_requires_ack = ack, mq_ttl_seconds = ttl, mq_reply_to = rt\<rparr>]) s"
  by (auto simp: send_message_def send_req_def rpc_def wp_simps split: sum.splits)

end
