(* ===== verification/ToolAgent.thy ===== *)
theory ToolAgent
  imports BuiltinTools Accounting
begin

text \<open>
  \<open>ToolAgent\<close> of \<open>tool_agent.py\<close>: an LLM agent whose tasks and messages run the agent loop.
  What \<open>on_init\<close> sets up once (the registry, the number of rounds, the workspace) is the
  record \<open>tool_setup\<close>, an argument of the handlers; the memory and the prompt are in the
  agent's state.  The tools of the extension modules and the tools a subclass adds with
  \<open>get_tools\<close> are arguments of \<open>on_init\<close>.
\<close>

record 'w tool_setup =
  ts_registry :: "'w tool_registry"
  ts_max_iter :: int
  ts_workspace :: string

section \<open>Initialisation\<close>

definition get_all_available_tools :: "env \<Rightarrow> 'z world_scheme tool list \<Rightarrow> 'z world_scheme tool list" where
  "get_all_available_tools env extensions = ALL_BUILTIN_TOOLS env @ extensions"

definition allowed_tools :: "string \<Rightarrow> string list" where
  "allowed_tools tools_filter = filter (\<lambda>t. t \<noteq> []) (map strip (split_on (CHR '','') tools_filter))"

definition select_tools :: "env \<Rightarrow> 'z world_scheme tool list \<Rightarrow> 'z world_scheme tool list \<Rightarrow> string \<Rightarrow>
    'z world_scheme tool_registry \<Rightarrow> 'z world_scheme tool_registry" where
  "select_tools env extensions custom tools_filter reg =
     (if tools_filter \<noteq> []
      then register_all (filter (\<lambda>t. tl_name t \<in> set (allowed_tools tools_filter))
             (get_all_available_tools env extensions @ custom)) reg
      else register_all custom (register_builtin_tools env reg))"

definition build_system_prompt :: "agent_config \<Rightarrow> pid \<Rightarrow> 'w tool_registry \<Rightarrow> string" where
  "build_system_prompt cfg p reg =
     (let base = strip (ac_system_prompt cfg);
          tier = dget (ac_metadata cfg) ''cognitive_tier'' ''operational'';
          role = dget (ac_metadata cfg) ''role'' ''agent'';
          summaries = get_summaries reg
      in join nl ((if base = [] then [] else [base]) @
           [nl @ ''## Identity'' @ nl @ ''You are '' @ ac_name cfg @ '' (PID '' @ str_int p @ ''), role='' @ role @
              '', tier='' @ tier @ ''.''] @
           (if summaries = [] then [] else [nl @ ''## Available Tools'' @ nl @ summaries])))"

definition tool_on_init :: "env \<Rightarrow> string option \<Rightarrow> 'z tool_agent_scheme tool list \<Rightarrow> 'z tool_agent_scheme tool list \<Rightarrow>
    'z tool_agent_scheme tool_registry \<Rightarrow> agent_config \<Rightarrow> ('z tool_agent_scheme, 'z tool_agent_scheme tool_setup) eff" where
  "tool_on_init env key extensions custom reg0 cfg = seq (llm_on_init key cfg)
     (let reg = select_tools env extensions custom (dget (ac_metadata cfg) ''agent.tools'' []) reg0 in
      bnd (gets a_pid) (\<lambda>p.
      seq (modify (\<lambda>s. s\<lparr>system_prompt := build_system_prompt cfg p reg, agent_memory := AgentMemory p\<rparr>))
      (bnd (of_opt (ValueError ''invalid literal for int() with base 10'')
              (parse_int (dget (ac_metadata cfg) ''max_iterations'' ''15''))) (\<lambda>n.
        ret \<lparr>ts_registry = reg, ts_max_iter = n, ts_workspace = dget (ac_metadata cfg) ''agent.workspace'' []\<rparr>))))"

section \<open>Handlers\<close>

definition make_tool_ctx :: "'w tool_setup \<Rightarrow> bool \<Rightarrow> 'z agent_scheme \<Rightarrow> tool_context" where
  "make_tool_ctx su syscall s = \<lparr>tc_pid = a_pid s, tc_core = a_core s, tc_syscall = syscall, tc_workspace = ts_workspace su\<rparr>"

text \<open>\<open>self.memory.load(tool_ctx)\<close>, and the loop with the agent's prompt.\<close>

definition load_memory :: "env \<Rightarrow> tool_context \<Rightarrow> ('z tool_agent_scheme, unit) eff" where
  "load_memory env ctx = bnd (gets agent_memory) (\<lambda>m. bnd (load env ctx m) (\<lambda>m'.
     modify (\<lambda>s. s\<lparr>agent_memory := m'\<rparr>)))"

definition run_loop :: "env \<Rightarrow> 'z tool_agent_scheme tool_setup \<Rightarrow> json \<Rightarrow> tool_context \<Rightarrow> ('z tool_agent_scheme, loop_result) eff" where
  "run_loop env su prompt ctx = bnd (gets system_prompt) (\<lambda>sys.
     loop_run env (ts_registry su) (ts_max_iter su) prompt ctx sys [])"

definition loop_metadata :: "loop_result \<Rightarrow> params" where
  "loop_metadata r = [(''iterations'', str_nat (lr_iterations r)), (''tool_calls'', str_nat (lr_tool_calls_total r)),
     (''tokens_used'', str_int (lr_total_tokens r)), (''prompt_tokens'', str_int (lr_prompt_tokens r)),
     (''completion_tokens'', str_int (lr_completion_tokens r)), (''llm_calls'', str_int (lr_llm_calls r)),
     (''latency_ms'', str_float1 (lr_total_latency_ms r))]"

definition tool_handle_task :: "env \<Rightarrow> 'z tool_agent_scheme tool_setup \<Rightarrow> task \<Rightarrow> ('z tool_agent_scheme, task_result) eff" where
  "tool_handle_task env su task = bnd (gets (make_tool_ctx su True)) (\<lambda>ctx.
     seq (load_memory env ctx)
     (seq (if dget (tk_params task) ''trace_id'' [] = [] then seq (uuid4 env) (ret ()) else ret ())
     (bnd (run_loop env su (JStr (dget (tk_params task) ''task'' (tk_description task))) ctx) (\<lambda>r.
      bnd (lift_sum (result_text (lr_content r))) (\<lambda>out. ret (TaskResult 0 out [] (loop_metadata r)))))))"

definition message_prompt :: "bytes \<Rightarrow> exn + json" where
  "message_prompt b = (case utf8_decode b of
      None \<Rightarrow> Inr (JStr (utf8_decode_replace b))
    | Some t \<Rightarrow> (case loads t of
        None \<Rightarrow> Inr (JStr (utf8_decode_replace b))
      | Some (JObj kvs) \<Rightarrow> Inr (dget kvs ''task'' (dget kvs ''description'' (JStr [])))
      | Some _ \<Rightarrow> Inl (AttributeError ''object has no attribute get'')))"

definition reply_text :: "json \<Rightarrow> exn + string" where
  "reply_text content = (case content of
      JStr t \<Rightarrow> Inr (take 200 t)
    | _ \<Rightarrow> Inl (TypeError ''bad argument type for built-in operation''))"

definition tool_handle_message :: "env \<Rightarrow> 'z tool_agent_scheme tool_setup \<Rightarrow> message \<Rightarrow> ('z tool_agent_scheme, message_ack) eff" where
  "tool_handle_message env su m =
     (if ms_type m = ''task_request'' \<or> ms_type m = ''cron_task'' then
        bnd (lift_sum (message_prompt (ms_payload m))) (\<lambda>prompt.
        bnd (gets (make_tool_ctx su False)) (\<lambda>ctx.
        seq (load_memory env ctx)
        (bnd (run_loop env su prompt ctx) (\<lambda>r.
         seq (reply_to env m (utf8_encode (dumps True (JObj [(''output'', lr_content r)]))) ''task_response'')
         (bnd (lift_sum (reply_text (lr_content r))) (\<lambda>t.
           ret \<lparr>ma_message_id = ms_message_id m, ma_status = ACK_ACCEPTED, ma_reply = t\<rparr>))))))
      else handle_message m)"

section \<open>Which tools are registered\<close>

lemma find_filter: "find P (filter Q xs) = find (\<lambda>x. Q x \<and> P x) xs"
  by (induction xs) auto

lemma find_named:
  "find (\<lambda>t. tl_name t \<in> A \<and> tl_name t = n) ts = (if n \<in> A then find (\<lambda>t. tl_name t = n) ts else None)"
  by (induction ts) auto

lemma register_builtin_all: "register_all custom (register_builtin_tools env reg) = register_all (ALL_BUILTIN_TOOLS env @ custom) reg"
  by (simp add: register_builtin_tools_def register_all_def)

lemma get_tool_registered: "get_tool (register_all ts ToolRegistry) n = find (\<lambda>t. tl_name t = n) (rev ts)"
  unfolding get_tool_register_all by (simp add: get_tool_def ToolRegistry_def split: option.splits)

section \<open>When the LLM cannot be reached\<close>

lemma keeps_sent_ctx [keeps_rules]:
  "keeps sent (ctx_get_artifact env ctx k)" "keeps sent (ctx_log_event env ctx ty msg flds)"
  unfolding ctx_get_artifact_def ctx_log_event_def ctx_log_def sys_get_artifact_def sys_log_def do_syscall_def
  by (intro keeps_rules keeps_ignored ignores_sent; simp)+

lemma keeps_sent_load: "keeps sent (load_memory env ctx)"
  unfolding load_memory_def load_def load_long_term_def load_session_def load_summary_def Let_def
  by (intro keeps_rules keeps_modify; simp add: sent_def)

abbreviation llm_fails :: "env \<Rightarrow> bool" where
  "llm_fails env \<equiv> \<exists>e. e_http env = (\<lambda>_. Inl e)"

text \<open>Without an LLM a piece of the loop raises, having sent nothing.\<close>

abbreviation gives_up :: "('z tool_agent_scheme, 'a) eff \<Rightarrow> 'z tool_agent_scheme \<Rightarrow> bool" where
  "gives_up m s \<equiv> wp m (\<lambda>_ _. False) (\<lambda>_ t. sent t = sent s) s"

lemma keeps_sent_try: "keeps sent (try_llm env tools model msgs)"
  unfolding try_llm_def by (intro keeps_rules llm_free_sent)

lemma try_llm_down: "llm_fails env \<Longrightarrow> gives_up (try_llm env tools model msgs) s"
proof -
  assume "llm_fails env"
  then have "wp (try_llm env tools model msgs) (\<lambda>_ _. False) (\<lambda>_ _. True) s"
    by (auto simp: try_llm_def chat_with_tools_def completion_def do_request_def get_llm_def wp_simps split: option.splits)
  from wp_and_keeps[OF keeps_sent_try this] show ?thesis by simp
qed

lemma llm_retry_down:
  assumes "llm_fails env"
  shows "gives_up (llm_retry env ctx tools model sys i n le msgs) s"
proof (induction n arbitrary: le msgs s)
  case 0
  show ?case by (simp add: wp_simps)
next
  case (Suc n)
  have log: "keeps sent (log_llm_error env ctx i e)" for e
    unfolding log_llm_error_def by (intro keeps_rules)
  show ?case
    unfolding llm_retry.simps wp_simps
    by (rule wp_mono[OF try_llm_down[OF assms]])
      (auto simp: wp_simps sent_def intro!: wp_keeps[OF log] wp_mono[OF Suc.IH])
qed

lemma loop_run_down:
  assumes "llm_fails env"
  shows "gives_up (loop_run env reg n prompt ctx sys model) s"
proof -
  have rounds: "gives_up (loop_rounds env reg ctx sys model k 0 0 None) s" for k s
    by (cases k) (auto simp: wp_simps loop_round_def intro!: wp_mono[OF llm_retry_down[OF assms]])
  show ?thesis unfolding loop_run_def wp_seq wp_bnd wp_modify get_llm_def wp_gets wp_of_opt
    by (auto split: option.splits intro!: wp_mono[OF rounds] simp: sent_def)
qed

section \<open>Memory across restarts\<close>

lemma make_tool_ctx_usable: "syscall \<or> a_core s \<noteq> None \<Longrightarrow> ctx_usable (make_tool_ctx su syscall s)"
  by (auto simp: make_tool_ctx_def ctx_usable_def)

lemma wp_tool_task_saves:
  assumes "tools_keep_memory (ts_registry su)"
  shows "wp (tool_handle_task (with_store env) su task)
    (\<lambda>_ t. saved_in (store_of (trace t)) (agent_memory t)) (\<lambda>_ _. True) s"
  unfolding tool_handle_task_def wp_bnd wp_gets wp_seq run_loop_def
  by (rule wp_skip, rule wp_skip, rule wp_mono[OF wp_loop_run_saves[OF assms make_tool_ctx_usable]])
    (auto simp: wp_simps split: sum.splits)

section \<open>Properties\<close>

text \<open>
  C26.  The tools an agent gets are exactly those its configuration asks for: with a list in
  \<open>agent.tools\<close>, a name is registered if and only if it is in the list and some available
  tool has it; without one, if and only if a built-in tool or a tool of the subclass has
  it.  Of several tools with one name the last is used, so a subclass can replace a
  built-in tool.
\<close>

theorem tool_filter_exact:
  assumes "result (tool_on_init env key extensions custom ToolRegistry cfg) s = Inr su"
  shows "registry_ok (ts_registry su) \<and>
    get_tool (ts_registry su) n = (let f = dget (ac_metadata cfg) ''agent.tools'' [] in
      if f = [] then find (\<lambda>t. tl_name t = n) (rev (ALL_BUILTIN_TOOLS env @ custom))
      else if n \<in> set (allowed_tools f) then find (\<lambda>t. tl_name t = n) (rev (get_all_available_tools env extensions @ custom))
      else None)"
proof -
  have "wp (tool_on_init env key extensions custom ToolRegistry cfg)
      (\<lambda>su _. ts_registry su = select_tools env extensions custom (dget (ac_metadata cfg) ''agent.tools'' []) ToolRegistry)
      (\<lambda>_ _. True) s"
    by (auto simp: tool_on_init_def Let_def wp_simps split: option.splits intro!: wp_always)
  from wp_returns[OF this assms] show ?thesis
    by (simp add: select_tools_def register_builtin_all register_all_ok get_tool_registered Let_def
        rev_filter find_filter find_named del: rev_append filter_append)
qed


text \<open>
  A \<open>task_request\<close> that a tool agent cannot work on is never answered: when the LLM service
  is unreachable, the handler raises and no message has been sent, so an agent that waits
  for the reply waits until its time-out.  (The Queen and the Assistant answer every
  request, with an error if need be.)
\<close>

theorem tool_agent_silent_failure:
  assumes "llm_fails env" "ms_type m = ''task_request''"
  shows "\<exists>e t. tool_handle_message env su m s = (Inl e, t) \<and> sent t = sent s"
proof -
  have loop: "wp (run_loop env su prompt ctx) Q (\<lambda>_ u. sent u = sent s) t" if "sent t = sent s" for prompt ctx t Q
    unfolding run_loop_def wp_bnd wp_gets by (rule wp_mono[OF loop_run_down[OF assms(1)]]) (simp_all add: that)
  have "wp (tool_handle_message env su m) (\<lambda>_ _. False) (\<lambda>_ t. sent t = sent s) s"
    unfolding tool_handle_message_def wp_if wp_bnd wp_lift_sum wp_gets wp_seq using assms(2)
    by (auto split: sum.splits intro!: wp_keeps[OF keeps_sent_load] loop)
  then show ?thesis by (auto simp: wp_def split: prod.splits sum.splits)
qed

theorem tool_filter_exact_witness:
  "\<exists>su. result (tool_on_init example_env (Some ''k'') [] [] ToolRegistry
       (AgentConfig\<lparr>ac_metadata := [(''agent.tools'', ''memory_store, nope'')]\<rparr>)) example_tool_agent = Inr su \<and>
     get_tool (ts_registry su) ''memory_store'' = Some (MemoryStoreTool example_env) \<and>
     get_tool (ts_registry su) ''nope'' = None \<and> get_tool (ts_registry su) ''spawn_child'' = None"
proof -
  let ?cfg = "AgentConfig\<lparr>ac_metadata := [(''agent.tools'', ''memory_store, nope'')]\<rparr>"
  have allowed: "allowed_tools ''memory_store, nope'' = [''memory_store'', ''nope'']"
    by (simp add: allowed_tools_def strip_def strip_by_def is_space_def)
  have "parse_int ''15'' = Some 15" by (simp add: parse_int_def strip_def strip_by_def is_space_def is_digit_def digits_val_def digit_val_def)
  then obtain su where su: "result (tool_on_init example_env (Some ''k'') [] [] ToolRegistry ?cfg) example_tool_agent = Inr su"
    by (simp add: tool_on_init_def llm_on_init_def eff_defs Let_def)
  note spec = tool_filter_exact[OF su]
  show ?thesis using su spec[of "''memory_store''"] spec[of "''nope''"] spec[of "''spawn_child''"]
    by (simp add: allowed get_all_available_tools_def ALL_BUILTIN_TOOLS_def tool_defs)
qed

definition example_setup :: "tool_agent tool_setup" where
  "example_setup = \<lparr>ts_registry = ToolRegistry, ts_max_iter = 3, ts_workspace = []\<rparr>"

text \<open>A fresh agent finds no memory in an empty store.\<close>

lemma wp_get_none:
  assumes "ctx_usable ctx" "store_of (trace s) = Map.empty" "traceless f"
    and "\<And>e t. store_of (trace t) = Map.empty \<Longrightarrow> f t = f s \<Longrightarrow> E e t"
  shows "wp (ctx_get_artifact (with_store env) ctx k) Q E s"
  using assms
  by (auto simp: ctx_get_artifact_def sys_get_artifact_def get_artifact_def wp_simps with_store_def
      get_answer_def rpc_def Let_def ctx_usable_def butlast_append traceless_def)

lemma load_nothing:
  assumes "ctx_usable ctx" "store_of (trace s) = Map.empty"
  shows "wp (load_memory (with_store env) ctx) (\<lambda>_ t. llm t = llm s \<and> agent_memory t = agent_memory s) E s"
proof -
  let ?f = "\<lambda>s. (llm s, agent_memory s)"
  have "traceless ?f" by (simp add: traceless_def emit_def)
  note none = wp_get_none[OF assms(1) _ this]
  show ?thesis
    unfolding load_memory_def load_def load_long_term_def load_session_def load_summary_def
      wp_bnd wp_gets wp_tryc wp_ret wp_modify
    by (rule none, rule assms(2), rule none, assumption, rule none, assumption) simp
qed

lemma example_task_run:
  fixes s :: "'z tool_agent_scheme"
  assumes "hello env" "llm s = Some c" "agent_memory s = AgentMemory p" "store_of (trace s) = Map.empty" "ts_max_iter su = 3"
  shows "wp (tool_handle_task (with_store env) su (example_task\<lparr>tk_description := ''hi''\<rparr>))
    (\<lambda>_ t. agent_memory t = greeted (JStr ''hi'') p) (\<lambda>_ _. False) s"
proof -
  have run: "wp (run_loop (with_store env) su (JStr ''hi'') ctx) (\<lambda>r t. wp (lift_sum (result_text (lr_content r)))
      (\<lambda>out. wp (ret (TaskResult 0 out [] (loop_metadata r))) (\<lambda>_ t. agent_memory t = greeted (JStr ''hi'') p) (\<lambda>_ _. False))
      (\<lambda>_ _. False) t) (\<lambda>_ _. False) t"
    if "llm t = Some c" "agent_memory t = AgentMemory p" for t :: "'z tool_agent_scheme" and ctx
    unfolding run_loop_def wp_bnd wp_gets assms(5)
    by (rule wp_mono[OF wp_example_run[OF hello_envs(2)[OF assms(1)] that]]) (simp_all add: wp_simps result_text_def)
  have usable: "ctx_usable (make_tool_ctx su True s)" by (simp add: make_tool_ctx_usable)
  show ?thesis
    unfolding tool_handle_task_def wp_bnd wp_gets wp_seq
    by (rule wp_mono[OF load_nothing[OF usable assms(4)]])
      (auto simp: example_task_def wp_simps emit_def assms(2,3) intro!: run[simplified wp_simps])
qed


theorem tool_agent_silent_failure_witness:
  "\<exists>e t. tool_handle_message (example_env\<lparr>e_http := \<lambda>_. Inl (OSError ''refused'')\<rparr>) example_setup
     (example_message ''task_request'' []) example_tool_agent = (Inl e, t) \<and> sent t = []"
proof -
  have "sent example_tool_agent = []" by (simp add: example_tool_agent_def sent_def)
  with tool_agent_silent_failure[of "example_env\<lparr>e_http := \<lambda>_. Inl (OSError ''refused'')\<rparr>" "example_message ''task_request'' []"
      example_setup example_tool_agent] show ?thesis by (auto simp: example_message_def)
qed

end
