(* ===== verification/FileSystem.thy ===== *)
theory FileSystem
  imports PyValue Effects "HOL-Library.List_Lexorder" "HOL-Library.Char_ord"
begin

text \<open>
  The file system as the workspace tools see it.  A path is the list of its names; the disk
  maps paths to directories, files and symbolic links.  \<open>namei\<close> is the resolution of a path
  by the operating system, which follows at most 40 links; \<open>realpath\<close> is
  \<open>os.path.realpath\<close> of Python's \<open>posixpath\<close> (3.13), a loop over a stack of unresolved names
  in which a mark says that the target of a link has been resolved.  The main result of the
  theory is that the two agree: a file that is opened under the path \<open>realpath\<close> returns is
  the file at this path, whatever links the disk has.  Permissions are not modelled.
\<close>

section \<open>The disk\<close>

type_synonym path = "string list"

datatype fs_node = Dir | File bytes | Link string

type_synonym fs = "(path, fs_node) dict"

abbreviation slash :: char where
  "slash \<equiv> CHR 0x2F"

fun is_link :: "fs_node option \<Rightarrow> bool" where
  "is_link (Some (Link _)) = True" | "is_link _ = False"

definition node_at :: "fs \<Rightarrow> path \<Rightarrow> fs_node option" where
  "node_at fs p = (if p = [] then Some Dir else map_of fs p)"

definition path_str :: "path \<Rightarrow> string" where
  "path_str p = (if p = [] then [slash] else concat (map (Cons slash) p))"

definition is_abs :: "string \<Rightarrow> bool" where
  "is_abs s = startswith s [slash]"

text \<open>\<open>os.path.join(a, b)\<close>.\<close>

definition path_join :: "string \<Rightarrow> string \<Rightarrow> string" where
  "path_join a b = (if is_abs b then b else if a = [] \<or> last a = slash then a @ b else a @ [slash] @ b)"

text \<open>A name that stands for itself in a path.\<close>

definition name_ok :: "string \<Rightarrow> bool" where
  "name_ok n \<longleftrightarrow> n \<noteq> [] \<and> n \<noteq> ''.'' \<and> n \<noteq> ''..'' \<and> slash \<notin> set n"

section \<open>\<open>os.path.realpath\<close>\<close>

datatype part = Part string | Mark path

definition unseen :: "fs \<Rightarrow> (path, path option) dict \<Rightarrow> nat" where
  "unseen fs seen = length (filter (\<lambda>(p, nd). is_link (Some nd) \<and> map_of seen p = None) fs)"

lemma unseen_dset_le: "unseen fs (dset l v seen) \<le> unseen fs seen"
  unfolding unseen_def by (induction fs) (auto split: if_splits)

lemma unseen_dset_less:
  assumes "map_of fs p = Some (Link t)" "map_of seen p = None"
  shows "unseen fs (dset p v seen) < unseen fs seen"
  using assms(1)
proof (induction fs)
  case (Cons e fs)
  then show ?case using assms(2) unseen_dset_le[of fs p v seen]
    by (cases e) (auto simp: unseen_def split: if_splits)
qed simp

function realparts :: "fs \<Rightarrow> part list \<Rightarrow> path \<Rightarrow> (path, path option) dict \<Rightarrow> path" where
  "realparts fs [] path seen = path"
| "realparts fs (Mark l # rest) path seen = realparts fs rest path (dset l (Some path) seen)"
| "realparts fs (Part n # rest) path seen =
     (if n = [] \<or> n = ''.'' then realparts fs rest path seen
      else if n = ''..'' then realparts fs rest (butlast path) seen
      else case map_of fs (path @ [n]) of
        Some (Link target) \<Rightarrow> (case map_of seen (path @ [n]) of
            Some (Some p) \<Rightarrow> realparts fs rest p seen
          | Some None \<Rightarrow> realparts fs rest (path @ [n]) seen
          | None \<Rightarrow> realparts fs (map Part (split_on slash target) @ Mark (path @ [n]) # rest)
              (if is_abs target then [] else path) (dset (path @ [n]) None seen))
      | _ \<Rightarrow> realparts fs rest (path @ [n]) seen)"
  by pat_completeness auto
termination
  by (relation "measures [\<lambda>(fs, parts, path, seen). unseen fs seen, \<lambda>(fs, parts, path, seen). length parts]")
    (auto simp: le_less[symmetric] intro: unseen_dset_le unseen_dset_less)

declare realparts.simps(3) [simp del]

definition realpath :: "fs \<Rightarrow> path \<Rightarrow> string \<Rightarrow> path" where
  "realpath fs cwd s = realparts fs (map Part (split_on slash s)) (if is_abs s then [] else cwd) []"

section \<open>Resolution by the operating system\<close>

datatype errno = ENOENT | EEXIST | ENOTDIR | EISDIR | ELOOP

definition not_dir :: "fs_node option \<Rightarrow> errno option" where
  "not_dir nd = (case nd of Some Dir \<Rightarrow> None | None \<Rightarrow> Some ENOENT | _ \<Rightarrow> Some ENOTDIR)"

function namei :: "fs \<Rightarrow> nat \<Rightarrow> string list \<Rightarrow> path \<Rightarrow> errno + path" where
  "namei fs k [] path = Inr path"
| "namei fs k (n # rest) path = (case not_dir (node_at fs path) of
      Some e \<Rightarrow> Inl e
    | None \<Rightarrow> if n = [] \<or> n = ''.'' then namei fs k rest path
        else if n = ''..'' then namei fs k rest (butlast path)
        else case map_of fs (path @ [n]) of
          Some (Link target) \<Rightarrow> if k = 0 then Inl ELOOP
            else namei fs (k - 1) (split_on slash target @ rest) (if is_abs target then [] else path)
        | _ \<Rightarrow> namei fs k rest (path @ [n]))"
  by pat_completeness auto
termination
  by (relation "measures [\<lambda>(fs, k, parts, path). k, \<lambda>(fs, k, parts, path). length parts]") auto

declare namei.simps(2) [simp del]

text \<open>\<open>open(2)\<close>, \<open>stat(2)\<close> and \<open>mkdir(2)\<close> of an absolute path.\<close>

definition lookup :: "fs \<Rightarrow> path \<Rightarrow> errno + path" where
  "lookup fs p = namei fs 40 p []"

definition stat :: "fs \<Rightarrow> path \<Rightarrow> errno + fs_node" where
  "stat fs p = (case lookup fs p of
      Inl e \<Rightarrow> Inl e
    | Inr q \<Rightarrow> (case node_at fs q of None \<Rightarrow> Inl ENOENT | Some nd \<Rightarrow> Inr nd))"

definition isdir :: "fs \<Rightarrow> path \<Rightarrow> bool" where
  "isdir fs p \<longleftrightarrow> stat fs p = Inr Dir"

definition path_exists :: "fs \<Rightarrow> path \<Rightarrow> bool" where
  "path_exists fs p = (case stat fs p of Inl _ \<Rightarrow> False | Inr _ \<Rightarrow> True)"

definition read_bytes :: "fs \<Rightarrow> path \<Rightarrow> errno + bytes" where
  "read_bytes fs p = (case stat fs p of
      Inl e \<Rightarrow> Inl e
    | Inr (File b) \<Rightarrow> Inr b
    | Inr Dir \<Rightarrow> Inl EISDIR
    | Inr (Link _) \<Rightarrow> Inl ELOOP)"

text \<open>Opening for writing: where the file is; it is created or emptied.\<close>

definition open_w :: "fs \<Rightarrow> path \<Rightarrow> errno + path \<times> fs" where
  "open_w fs p = (case lookup fs p of
      Inl e \<Rightarrow> Inl e
    | Inr q \<Rightarrow> if node_at fs q = Some Dir then Inl EISDIR else Inr (q, dset q (File []) fs))"

definition mkdir :: "fs \<Rightarrow> path \<Rightarrow> errno + fs" where
  "mkdir fs p = (case lookup fs (butlast p) of
      Inl e \<Rightarrow> Inl e
    | Inr d \<Rightarrow> (case not_dir (node_at fs d) of
        Some e \<Rightarrow> Inl e
      | None \<Rightarrow> if map_of fs (d @ [last p]) \<noteq> None then Inl EEXIST else Inr (dset (d @ [last p]) Dir fs)))"

text \<open>\<open>os.makedirs(p, exist_ok=True)\<close>, on the reversed path: the error, if any, and the disk.\<close>

fun makedirs_rev :: "fs \<Rightarrow> string list \<Rightarrow> errno option \<times> fs" where
  "makedirs_rev fs [] = (None, fs)"
| "makedirs_rev fs (n # rp) =
     (let (err, fs1) = (if path_exists fs (rev rp) then (None, fs) else makedirs_rev fs rp); p = rev rp @ [n]
      in if err = None \<or> err = Some EEXIST
         then (case mkdir fs1 p of
             Inr fs2 \<Rightarrow> (None, fs2)
           | Inl e \<Rightarrow> if isdir fs1 p then (None, fs1) else (Some e, fs1))
         else (err, fs1))"

definition makedirs :: "fs \<Rightarrow> path \<Rightarrow> errno option \<times> fs" where
  "makedirs fs p = makedirs_rev fs (rev p)"

definition listdir :: "fs \<Rightarrow> path \<Rightarrow> errno + string list" where
  "listdir fs p = (case lookup fs p of
      Inl e \<Rightarrow> Inl e
    | Inr q \<Rightarrow> (case not_dir (node_at fs q) of
        Some e \<Rightarrow> Inl e
      | None \<Rightarrow> Inr (map last (filter (\<lambda>c. c \<noteq> [] \<and> butlast c = q) (map fst fs)))))"

text \<open>The exception Python raises for an error on a path.\<close>

definition errno_exn :: "path \<Rightarrow> errno \<Rightarrow> exn" where
  "errno_exn p e = (case e of
      ENOENT \<Rightarrow> FileNotFoundError (''[Errno 2] No such file or directory: '' @ repr_str (path_str p))
    | EEXIST \<Rightarrow> OSError (''[Errno 17] File exists: '' @ repr_str (path_str p))
    | ENOTDIR \<Rightarrow> OSError (''[Errno 20] Not a directory: '' @ repr_str (path_str p))
    | EISDIR \<Rightarrow> OSError (''[Errno 21] Is a directory: '' @ repr_str (path_str p))
    | ELOOP \<Rightarrow> OSError (''[Errno 40] Too many levels of symbolic links: '' @ repr_str (path_str p)))"

section \<open>Resolution without checks\<close>

text \<open>
  A resolution that needs no directories to exist and no bound on links, but must end; the
  number counts its steps.  What the operating system resolves, it resolves alike.
\<close>

inductive walk :: "fs \<Rightarrow> nat \<Rightarrow> string list \<Rightarrow> path \<Rightarrow> path \<Rightarrow> bool" for fs where
  walk_end: "walk fs 0 [] p p"
| walk_skip: "n = [] \<or> n = ''.'' \<Longrightarrow> walk fs m rest p q \<Longrightarrow> walk fs (Suc m) (n # rest) p q"
| walk_up: "walk fs m rest (butlast p) q \<Longrightarrow> walk fs (Suc m) (''..'' # rest) p q"
| walk_down: "\<not> (n = [] \<or> n = ''.'') \<Longrightarrow> n \<noteq> ''..'' \<Longrightarrow> \<not> is_link (map_of fs (p @ [n])) \<Longrightarrow>
    walk fs m rest (p @ [n]) q \<Longrightarrow> walk fs (Suc m) (n # rest) p q"
| walk_link: "\<not> (n = [] \<or> n = ''.'') \<Longrightarrow> n \<noteq> ''..'' \<Longrightarrow> map_of fs (p @ [n]) = Some (Link t) \<Longrightarrow>
    walk fs m (split_on slash t @ rest) (if is_abs t then [] else p) q \<Longrightarrow> walk fs (Suc m) (n # rest) p q"

inductive_cases walk_ConsE: "walk fs m (n # rest) p q"
inductive_cases walk_NilE: "walk fs m [] p q"

lemma namei_walk: "namei fs k parts path = Inr q \<Longrightarrow> \<exists>m. walk fs m parts path q"
proof (induction fs k parts path rule: namei.induct)
  case (1 fs k path)
  then show ?case by (auto intro: walk_end)
next
  case (2 fs k n rest path)
  note res = "2.prems"[unfolded namei.simps(2)]
  consider (plain) "n = [] \<or> n = ''.''" | (up) "n = ''..''"
    | (down) "\<not> (n = [] \<or> n = ''.'')" "n \<noteq> ''..''" "\<not> is_link (map_of fs (path @ [n]))"
    | (link) t where "\<not> (n = [] \<or> n = ''.'')" "n \<noteq> ''..''" "map_of fs (path @ [n]) = Some (Link t)"
    by (cases "map_of fs (path @ [n])" rule: is_link.cases) auto
  then show ?case
  proof cases
    case plain
    then have "\<exists>m. walk fs m rest path q" using res "2.IH"(1) by (auto split: option.splits)
    with plain show ?thesis by (blast intro: walk_skip)
  next
    case up
    then have "\<exists>m. walk fs m rest (butlast path) q" using res "2.IH"(2) by (auto split: option.splits)
    with up show ?thesis by (blast intro: walk_up)
  next
    case down
    then have "\<exists>m. walk fs m rest (path @ [n]) q" using res "2.IH"(3-5)
      by (auto split: option.splits fs_node.splits)
    with down show ?thesis by (blast intro: walk_down)
  next
    case link
    then have "\<exists>m. walk fs m (split_on slash t @ rest) (if is_abs t then [] else path) q"
      using res "2.IH"(6) by (auto split: option.splits if_splits)
    with link show ?thesis by (blast intro: walk_link)
  qed
qed

text \<open>A link is dead if no resolution gets past it.\<close>

definition dead :: "fs \<Rightarrow> path \<Rightarrow> bool" where
  "dead fs l \<longleftrightarrow> (\<forall>m rest q. \<not> walk fs m (last l # rest) (butlast l) q)"

text \<open>Resolving the link leads, in at least one step, to \<open>parts\<close> at \<open>path\<close>.\<close>

definition leads :: "fs \<Rightarrow> path \<Rightarrow> string list \<Rightarrow> path \<Rightarrow> bool" where
  "leads fs l parts path \<longleftrightarrow> (\<forall>m rest q. walk fs m (last l # rest) (butlast l) q \<longrightarrow>
     (\<exists>m' < m. walk fs m' (parts @ rest) path q))"

lemma dead_leads: "dead fs l \<Longrightarrow> leads fs l parts path"
  by (simp add: dead_def leads_def)

lemma leads_back:
  assumes "leads fs l (last l # parts) (butlast l)"
  shows "dead fs l"
proof -
  have "\<not> walk fs m (last l # rest) (butlast l) q" for m rest q
  proof (induction m arbitrary: rest rule: less_induct)
    case (less m)
    show ?case
    proof
      assume "walk fs m (last l # rest) (butlast l) q"
      then obtain m' where "m' < m" "walk fs m' ((last l # parts) @ rest) (butlast l) q"
        using assms unfolding leads_def by blast
      with less show False by simp
    qed
  qed
  then show ?thesis by (simp add: dead_def)
qed

section \<open>What \<open>realpath\<close> returns\<close>

text \<open>One name resolved: the names \<open>ns\<close> take its place, and the walk goes on at \<open>path'\<close>.\<close>

definition steps :: "fs \<Rightarrow> string \<Rightarrow> path \<Rightarrow> string list \<Rightarrow> path \<Rightarrow> bool" where
  "steps fs n path ns path' \<longleftrightarrow> (\<forall>m rest q. walk fs m (n # rest) path q \<longrightarrow> (\<exists>m' < m. walk fs m' (ns @ rest) path' q))"

lemma steps_cases:
  "n = [] \<or> n = ''.'' \<Longrightarrow> steps fs n path [] path"
  "steps fs ''..'' path [] (butlast path)"
  "\<not> is_link (map_of fs (path @ [n])) \<Longrightarrow> \<not> (n = [] \<or> n = ''.'') \<Longrightarrow> n \<noteq> ''..'' \<Longrightarrow> steps fs n path [] (path @ [n])"
  "map_of fs (path @ [n]) = Some (Link t) \<Longrightarrow> \<not> (n = [] \<or> n = ''.'') \<Longrightarrow> n \<noteq> ''..'' \<Longrightarrow>
    steps fs n path (split_on slash t) (if is_abs t then [] else path)"
  unfolding steps_def by (auto elim!: walk_ConsE split del: if_split)

lemma steps_link: "leads fs (path @ [n]) ns path' \<longleftrightarrow> steps fs n path ns path'"
  by (simp add: leads_def steps_def)

lemma steps_dead: "dead fs (path @ [n]) \<Longrightarrow> steps fs n path ns path'"
  by (simp add: dead_def steps_def)

lemma leads_steps: "leads fs l (n # ns) path \<Longrightarrow> steps fs n path ns' path' \<Longrightarrow> leads fs l (ns' @ ns) path'"
  unfolding leads_def steps_def by (metis append_Cons append_assoc less_trans)

fun names :: "part list \<Rightarrow> string list" where
  "names [] = []"
| "names (Part n # ps) = n # names ps"
| "names (Mark _ # ps) = names ps"

lemma names_append [simp]: "names (ps @ qs) = names ps @ names qs"
  by (induction ps rule: names.induct) auto

lemma names_map_Part [simp]: "names (map Part ns) = ns"
  by (induction ns) auto

text \<open>Every link on the way to a good path is dead.\<close>

definition good :: "fs \<Rightarrow> path \<Rightarrow> bool" where
  "good fs p \<longleftrightarrow> (\<forall>k. 0 < k \<longrightarrow> k \<le> length p \<longrightarrow> is_link (map_of fs (take k p)) \<longrightarrow> dead fs (take k p))"

lemma good_Nil [simp]: "good fs []"
  by (simp add: good_def)

lemma good_butlast: "good fs p \<Longrightarrow> good fs (butlast p)"
  unfolding good_def by (metis butlast_conv_take le_trans length_butlast min.absorb1 take_take diff_le_self)

lemma good_snoc: "good fs p \<Longrightarrow> (is_link (map_of fs (p @ [n])) \<Longrightarrow> dead fs (p @ [n])) \<Longrightarrow> good fs (p @ [n])"
  unfolding good_def by (auto simp: le_Suc_eq)

text \<open>
  The invariant of the loop: the links whose marks are on the stack lead to the names before
  the mark, the links already resolved lead to the path stored for them.
\<close>

definition marks_ok :: "fs \<Rightarrow> part list \<Rightarrow> path \<Rightarrow> bool" where
  "marks_ok fs ps path \<longleftrightarrow> (\<forall>A l B. ps = A @ Mark l # B \<longrightarrow> leads fs l (names A) path)"

definition seen_ok :: "fs \<Rightarrow> part list \<Rightarrow> (path, path option) dict \<Rightarrow> bool" where
  "seen_ok fs ps seen \<longleftrightarrow> (\<forall>l v. map_of seen l = Some v \<longrightarrow> (case v of
      None \<Rightarrow> Mark l \<in> set ps
    | Some p \<Rightarrow> leads fs l [] p \<and> good fs p))"

lemma marks_ok_step:
  assumes "marks_ok fs (Part n # rest) path" "steps fs n path ns path'"
  shows "marks_ok fs (map Part ns @ rest) path'"
  unfolding marks_ok_def
proof (intro allI impI)
  fix A l B assume "map Part ns @ rest = A @ Mark l # B"
  then obtain A' where A: "A = map Part ns @ A'" "rest = A' @ Mark l # B"
    by (auto simp: append_eq_append_conv2 append_eq_Cons_conv Cons_eq_append_conv map_eq_append_conv map_eq_Cons_conv)
  then have "leads fs l (n # names A') path" using assms(1) unfolding marks_ok_def
    by (metis append_Cons names.simps(2))
  from leads_steps[OF this assms(2)] A(1) show "leads fs l (names A) path'" by simp
qed

lemma marks_ok_mark:
  assumes "marks_ok fs (Mark l # rest) path"
  shows "marks_ok fs rest path" "leads fs l [] path"
proof -
  show "marks_ok fs rest path"
    using assms unfolding marks_ok_def by (metis append_Cons names.simps(3))
  show "leads fs l [] path"
    using assms unfolding marks_ok_def by (metis append_Nil names.simps(1))
qed

lemma marks_ok_enter:
  assumes "marks_ok fs (map Part ns @ rest) path'" "leads fs l ns path'"
  shows "marks_ok fs (map Part ns @ Mark l # rest) path'"
  unfolding marks_ok_def
proof (intro allI impI)
  fix A l' B assume eq: "map Part ns @ Mark l # rest = A @ Mark l' # B"
  then consider "A = map Part ns" "l' = l" "B = rest" | A' where "A = map Part ns @ Mark l # A'" "rest = A' @ Mark l' # B"
    by (auto simp: append_eq_append_conv2 append_eq_Cons_conv Cons_eq_append_conv map_eq_append_conv map_eq_Cons_conv)
  then show "leads fs l' (names A) path'"
  proof cases
    case 1
    with assms(2) show ?thesis by simp
  next
    case 2
    then have "map Part ns @ rest = (map Part ns @ A') @ Mark l' # B" by simp
    with assms(1) have "leads fs l' (names (map Part ns @ A')) path'" unfolding marks_ok_def by blast
    with 2 show ?thesis by simp
  qed
qed

text \<open>A link that is met again while it is being resolved is dead.\<close>

lemma met_again_dead:
  assumes "marks_ok fs (Part n # rest) path" "Mark (path @ [n]) \<in> set rest"
  shows "dead fs (path @ [n])"
proof -
  obtain A B where "rest = A @ Mark (path @ [n]) # B" using assms(2) by (meson split_list)
  then have "leads fs (path @ [n]) (n # names A) path"
    using assms(1) unfolding marks_ok_def by (metis append_Cons names.simps(2))
  then show ?thesis using leads_back[of fs "path @ [n]"] by simp
qed

lemma seen_okD:
  assumes "seen_ok fs ps seen"
  shows "map_of seen l = Some None \<Longrightarrow> Mark l \<in> set ps"
    "map_of seen l = Some (Some p) \<Longrightarrow> leads fs l [] p \<and> good fs p"
  using assms unfolding seen_ok_def by fastforce+

lemma seen_okI:
  assumes "\<And>l. map_of seen l = Some None \<Longrightarrow> Mark l \<in> set ps"
    and "\<And>l p. map_of seen l = Some (Some p) \<Longrightarrow> leads fs l [] p \<and> good fs p"
  shows "seen_ok fs ps seen"
  unfolding seen_ok_def using assms by (simp split: option.split)

lemma seen_ok_mark:
  assumes "seen_ok fs (Mark l # rest) seen" "leads fs l [] path" "good fs path"
  shows "seen_ok fs rest (dset l (Some path) seen)"
  by (rule seen_okI) (use assms(2,3) seen_okD[OF assms(1)] in \<open>auto split: if_splits\<close>)

lemma seen_ok_part: "seen_ok fs (Part n # rest) seen \<Longrightarrow> seen_ok fs rest seen"
  by (rule seen_okI) (auto dest: seen_okD)

lemma seen_ok_enter:
  "seen_ok fs (Part n # rest) seen \<Longrightarrow> seen_ok fs (map Part ns @ Mark l # rest) (dset l None seen)"
  by (rule seen_okI) (auto dest: seen_okD split: if_splits)

lemma realparts_good:
  "marks_ok fs ps path \<Longrightarrow> seen_ok fs ps seen \<Longrightarrow> good fs path \<Longrightarrow> good fs (realparts fs ps path seen)"
proof (induction fs ps path seen rule: realparts.induct)
  case (1 fs path seen)
  then show ?case by simp
next
  case (2 fs l rest path seen)
  then show ?case using marks_ok_mark[OF "2.prems"(1)] seen_ok_mark by simp
next
  case (3 fs n rest path seen)
  note step = marks_ok_step[OF "3.prems"(1)] and seen = seen_ok_part[OF "3.prems"(2)]
  show ?case
  proof (cases "n = [] \<or> n = ''.'' \<or> n = ''..''")
    case True
    have "marks_ok fs rest path" if "n = [] \<or> n = ''.''" using step[OF steps_cases(1)[OF that]] by simp
    moreover have "marks_ok fs rest (butlast path)" if "n = ''..''" using step[of "[]"] steps_cases(2) that by auto
    ultimately show ?thesis using True "3.IH"(1,2) seen "3.prems"(3) good_butlast[OF "3.prems"(3)]
      by (simp add: realparts.simps(3)) blast
  next
    case name: False
    let ?np = "path @ [n]"
    consider (down) "\<not> is_link (map_of fs ?np)" | (link) t where "map_of fs ?np = Some (Link t)"
      by (cases "map_of fs ?np" rule: is_link.cases) auto
    then show ?thesis
    proof cases
      case down
      have "marks_ok fs rest ?np" "good fs ?np"
        using step[OF steps_cases(3)] name down good_snoc[OF "3.prems"(3)] by auto
      then show ?thesis using "3.IH"(3-5) name down seen
        by (cases "map_of fs ?np" rule: is_link.cases) (auto simp: realparts.simps(3))
    next
      case link
      have enters: "steps fs n path (split_on slash t) (if is_abs t then [] else path)"
        using steps_cases(4)[OF link] name by auto
      show ?thesis
      proof (cases "map_of seen ?np")
        case None
        have "marks_ok fs (map Part (split_on slash t) @ Mark ?np # rest) (if is_abs t then [] else path)"
          by (rule marks_ok_enter[OF step[OF enters]]) (simp add: steps_link enters)
        with None show ?thesis using "3.IH"(6) name link seen_ok_enter[OF "3.prems"(2)] "3.prems"(3)
          by (auto simp: realparts.simps(3))
      next
        case (Some v)
        have old: "case v of None \<Rightarrow> Mark ?np \<in> set rest | Some p \<Rightarrow> leads fs ?np [] p \<and> good fs p"
          using seen_okD[OF seen, of ?np] Some by (simp split: option.split)
        show ?thesis
        proof (cases v)
          case None
          with old have "dead fs ?np" using met_again_dead[OF "3.prems"(1)] by simp
          then have "marks_ok fs rest ?np" "good fs ?np"
            using step[of "[]", OF steps_dead] good_snoc[OF "3.prems"(3)] by auto
          then show ?thesis using "3.IH"(7) name link Some None seen by (auto simp: realparts.simps(3))
        next
          case (Some p)
          with old have "marks_ok fs rest p" "good fs p" using step[of "[]"] by (auto simp: steps_link)
          then show ?thesis using "3.IH"(8) name link Some \<open>map_of seen ?np = Some v\<close> seen by (auto simp: realparts.simps(3))
        qed
      qed
    qed
  qed
qed

lemma realparts_names:
  assumes "list_all name_ok path" "list_all (\<lambda>n. slash \<notin> set n) (names ps)"
    and "\<And>l p. map_of seen l = Some (Some p) \<Longrightarrow> list_all name_ok p"
  shows "list_all name_ok (realparts fs ps path seen)"
  using assms
proof (induction fs ps path seen rule: realparts.induct)
  case (2 fs l rest path seen)
  have "list_all name_ok p" if "map_of (dset l (Some path) seen) l' = Some (Some p)" for l' p
    using that "2.prems"(1,3) by (auto split: if_splits)
  with 2 show ?case by simp
next
  case (3 fs n rest path seen)
  have up: "list_all name_ok (butlast path)" using "3.prems"(1) by (auto simp: list_all_iff dest: in_set_butlastD)
  have down: "list_all name_ok (path @ [n])" if "\<not> (n = [] \<or> n = ''.'')" "n \<noteq> ''..''"
    using that "3.prems"(1,2) by (simp add: name_ok_def[of n])
  have target: "list_all (\<lambda>n. slash \<notin> set n) (split_on slash t)" for t
    using split_on_sep_free by (auto simp: list_all_iff)
  have rest: "list_all (\<lambda>n. slash \<notin> set n) (names rest)" using "3.prems"(2) by simp
  note seen = "3.prems"(3)
  show ?case
  proof (cases "n = [] \<or> n = ''.'' \<or> n = ''..''")
    case True
    then show ?thesis using "3.IH"(1)[OF _ "3.prems"(1) rest seen] "3.IH"(2)[OF _ _ up rest seen]
      by (auto simp: realparts.simps(3))
  next
    case False
    then have ok: "list_all name_ok (path @ [n])" using down by simp
    have link: "list_all name_ok (realparts fs (map Part (split_on slash t) @ Mark (path @ [n]) # rest)
        (if is_abs t then [] else path) (dset (path @ [n]) None seen))"
      if "map_of fs (path @ [n]) = Some (Link t)" "map_of seen (path @ [n]) = None" for t
      by (rule "3.IH"(6)) (use False that "3.prems"(1) target rest seen in \<open>auto split: if_splits\<close>)
    show ?thesis using False "3.IH"(3)[OF _ _ _ ok rest seen] "3.IH"(4,5)[OF _ _ _ _ ok rest seen]
      "3.IH"(7)[OF _ _ _ _ _ _ ok rest seen] "3.IH"(8)[OF _ _ _ _ _ _ _ rest seen] seen link
      by (auto simp: realparts.simps(3) split: option.splits fs_node.splits simp del: map_of_dset split del: if_split)
  qed
qed simp

text \<open>A good path that the operating system resolves, it resolves to itself.\<close>

lemma namei_down:
  "name_ok n \<Longrightarrow> \<not> is_link (map_of fs (p @ [n])) \<Longrightarrow> not_dir (node_at fs p) = None \<Longrightarrow>
   namei fs k (n # ns) p = namei fs k ns (p @ [n])"
  by (auto simp: namei.simps(2) name_ok_def split: option.split fs_node.split)

lemma namei_step:
  assumes "good fs (p @ n # ns)" "name_ok n" "namei fs k (n # ns) p = Inr q"
  shows "not_dir (node_at fs p) = None" "\<not> is_link (map_of fs (p @ [n]))" "namei fs k ns (p @ [n]) = Inr q"
proof -
  have "\<not> dead fs (p @ [n])" using namei_walk[OF assms(3)] by (auto simp: dead_def)
  moreover have "take (Suc (length p)) (p @ n # ns) = p @ [n]" by simp
  ultimately show plain: "\<not> is_link (map_of fs (p @ [n]))" using assms(1) unfolding good_def
    by (metis add_Suc_right le_add1 length_Cons length_append zero_less_Suc add_Suc)
  show d: "not_dir (node_at fs p) = None" using assms(3) by (auto simp: namei.simps(2) split: option.splits)
  show "namei fs k ns (p @ [n]) = Inr q" using assms(3) namei_down[OF assms(2) plain d] by simp
qed

lemma namei_good: "good fs (p @ ns) \<Longrightarrow> list_all name_ok ns \<Longrightarrow> namei fs k ns p = Inr q \<Longrightarrow> q = p @ ns"
proof (induction ns arbitrary: p)
  case (Cons n ns)
  from namei_step[OF Cons.prems(1) _ Cons.prems(3)] Cons.prems Cons.IH[of "p @ [n]"] show ?case by simp
qed simp

lemma lookup_good: "good fs p \<Longrightarrow> list_all name_ok p \<Longrightarrow> lookup fs p = Inr q \<Longrightarrow> q = p"
  using namei_good[of fs "[]"] by (simp add: lookup_def)

lemma realpath_good: "good fs cwd \<Longrightarrow> good fs (realpath fs cwd s)"
  unfolding realpath_def by (rule realparts_good) (auto simp: marks_ok_def seen_ok_def map_eq_append_conv map_eq_Cons_conv)

lemma realpath_names: "list_all name_ok cwd \<Longrightarrow> list_all name_ok (realpath fs cwd s)"
  unfolding realpath_def by (rule realparts_names) (auto simp: list_all_iff split_on_sep_free)

section \<open>Paths as text\<close>

lemma path_str_append: "p \<noteq> [] \<Longrightarrow> path_str (p @ ns) = path_str p @ concat (map (Cons slash) ns)"
  by (simp add: path_str_def)

lemma slash_sections:
  assumes "b @ y = a @ z" "slash \<notin> set a" "slash \<notin> set b" "y = [] \<or> hd y = slash" "z \<noteq> []" "hd z = slash"
  shows "a = b \<and> y = z"
  using assms by (cases y; cases z) (auto simp: append_eq_append_conv2 append_eq_Cons_conv Cons_eq_append_conv)

lemma concat_slash_prefix:
  assumes "concat (map (Cons slash) p) = concat (map (Cons slash) w) @ slash # x"
    and "list_all (\<lambda>n. slash \<notin> set n) p" "list_all (\<lambda>n. slash \<notin> set n) w"
  shows "\<exists>n ns. p = w @ n # ns"
  using assms
proof (induction w arbitrary: p)
  case Nil
  then show ?case by (cases p) auto
next
  case (Cons a w)
  then obtain b p' where p: "p = b # p'" by (cases p) auto
  have "b @ concat (map (Cons slash) p') = a @ (concat (map (Cons slash) w) @ slash # x)"
    using Cons.prems(1) p by simp
  moreover have "concat (map (Cons slash) p') = [] \<or> hd (concat (map (Cons slash) p')) = slash" for p' by (cases p') auto
  moreover have "hd (concat (map (Cons slash) w) @ slash # x) = slash" by (cases w) auto
  ultimately have "a = b" "concat (map (Cons slash) p') = concat (map (Cons slash) w) @ slash # x"
    using slash_sections[of b _ a "concat (map (Cons slash) w) @ slash # x"] Cons.prems(2,3) p by auto
  with Cons.IH[of p'] Cons.prems p show ?case by auto
qed

text \<open>For a prefix that is not the root, the test on the texts is the test on the names.\<close>

lemma name_ok_slash: "list_all name_ok p \<Longrightarrow> list_all (\<lambda>n. slash \<notin> set n) p"
  by (auto simp: list_all_iff name_ok_def)

lemma startswith_path:
  assumes "list_all name_ok p" "list_all name_ok w" "w \<noteq> []"
  shows "startswith (path_str p) (path_str w @ [slash]) \<longleftrightarrow> (\<exists>n ns. p = w @ n # ns)"
proof
  assume "\<exists>n ns. p = w @ n # ns"
  then show "startswith (path_str p) (path_str w @ [slash])"
    using assms(3) by (auto simp: path_str_append startswith_iff)
next
  assume "startswith (path_str p) (path_str w @ [slash])"
  then obtain x where x: "path_str p = path_str w @ slash # x" by (auto simp: startswith_iff)
  then have "p \<noteq> []" using assms(3) by (cases w) (auto simp: path_str_def)
  with x assms show "\<exists>n ns. p = w @ n # ns"
    by (intro concat_slash_prefix[of p w x]) (auto simp: path_str_def name_ok_slash)
qed

lemma concat_slash_inject:
  assumes "concat (map (Cons slash) p) = concat (map (Cons slash) w)"
    and "list_all (\<lambda>n. slash \<notin> set n) p" "list_all (\<lambda>n. slash \<notin> set n) w"
  shows "p = w"
proof -
  obtain n ns where p: "p @ [''x''] = w @ n # ns" using concat_slash_prefix[of "p @ [''x'']" w "''x''"] assms by auto
  obtain n' ns' where w: "w @ [''x''] = p @ n' # ns'" using concat_slash_prefix[of "w @ [''x'']" p "''x''"] assms by auto
  from arg_cong[OF p, of length] arg_cong[OF w, of length] have "ns = []" by simp
  with p show ?thesis by simp
qed

lemma path_str_inject: "list_all name_ok p \<Longrightarrow> list_all name_ok w \<Longrightarrow> path_str p = path_str w \<longleftrightarrow> p = w"
  using concat_slash_inject[of p w]
  by (cases p; cases w) (auto simp: path_str_def name_ok_def name_ok_slash)

text \<open>Nothing but the root itself passes the test when the workspace is the root.\<close>

lemma startswith_root: "list_all name_ok p \<Longrightarrow> \<not> startswith (path_str p) (path_str [] @ [slash])"
  by (cases p; cases "hd p") (auto simp: path_str_def name_ok_def)

section \<open>Changes that keep the links\<close>

definition links_same :: "fs \<Rightarrow> fs \<Rightarrow> bool" where
  "links_same fs fs' \<longleftrightarrow> (\<forall>q t. map_of fs q = Some (Link t) \<longleftrightarrow> map_of fs' q = Some (Link t))"

lemma links_same_refl [simp]: "links_same fs fs"
  by (simp add: links_same_def)

lemma links_same_sym: "links_same fs fs' \<Longrightarrow> links_same fs' fs"
  by (simp add: links_same_def)

lemma links_same_trans: "links_same fs fs' \<Longrightarrow> links_same fs' fs'' \<Longrightarrow> links_same fs fs''"
  by (simp add: links_same_def)

lemma is_link_iff: "is_link x \<longleftrightarrow> (\<exists>t. x = Some (Link t))"
  by (cases x rule: is_link.cases) auto

lemma links_same_dset:
  "\<not> is_link (map_of fs p) \<Longrightarrow> \<not> is_link (Some nd) \<Longrightarrow> links_same fs (dset p nd fs)"
  by (auto simp: links_same_def is_link_iff)

lemma walk_links: "walk fs m ns p q \<Longrightarrow> links_same fs fs' \<Longrightarrow> walk fs' m ns p q"
proof (induction rule: walk.induct)
  case (walk_down n p m rest q)
  then show ?case by (intro walk.walk_down) (auto simp: is_link_iff links_same_def)
next
  case (walk_link n p t m rest q)
  then show ?case by (intro walk.walk_link[of n fs' p t]) (auto simp: links_same_def)
qed (auto intro: walk.intros)

lemma good_links: "links_same fs fs' \<Longrightarrow> good fs p \<Longrightarrow> good fs' p"
  unfolding good_def dead_def using walk_links[of fs'] links_same_sym
  by (metis is_link_iff links_same_def)

lemma realparts_down:
  "\<not> is_link (map_of fs (path @ [n])) \<Longrightarrow> \<not> (n = [] \<or> n = ''.'') \<Longrightarrow> n \<noteq> ''..'' \<Longrightarrow>
   realparts fs (Part n # rest) path seen = realparts fs rest (path @ [n]) seen"
  by (auto simp: realparts.simps(3) split: option.split fs_node.split)

lemma realparts_links: "links_same fs fs' \<Longrightarrow> realparts fs ps path seen = realparts fs' ps path seen"
proof (induction fs ps path seen rule: realparts.induct)
  case (3 fs n rest path seen)
  let ?np = "path @ [n]"
  note same = "3.prems"
  consider (dots) "n = [] \<or> n = ''.'' \<or> n = ''..''"
    | (down) "\<not> (n = [] \<or> n = ''.'')" "n \<noteq> ''..''" "\<not> is_link (map_of fs ?np)"
    | (link) t where "\<not> (n = [] \<or> n = ''.'')" "n \<noteq> ''..''" "map_of fs ?np = Some (Link t)"
    by (cases "map_of fs ?np" rule: is_link.cases) auto
  then show ?case
  proof cases
    case dots
    then show ?thesis using "3.IH"(1,2) same by (auto simp: realparts.simps(3))
  next
    case down
    then have "\<not> is_link (map_of fs' ?np)" using same by (auto simp: is_link_iff links_same_def)
    with down have "realparts fs' (Part n # rest) path seen = realparts fs' rest ?np seen" by (simp add: realparts_down)
    moreover have "realparts fs rest ?np seen = realparts fs' rest ?np seen"
      using "3.IH"(3-5) same down by (cases "map_of fs ?np" rule: is_link.cases) auto
    ultimately show ?thesis using down by (simp add: realparts_down)
  next
    case link
    moreover have "map_of fs' ?np = Some (Link t)" using same link by (auto simp: links_same_def)
    ultimately show ?thesis using "3.IH"(6-8) same by (auto simp: realparts.simps(3) split: option.splits)
  qed
qed simp_all

lemma realpath_links: "links_same fs fs' \<Longrightarrow> realpath fs cwd s = realpath fs' cwd s"
  unfolding realpath_def by (rule realparts_links)

text \<open>A file that can be opened has no link on its path, and changing it changes no resolution of its path.\<close>

lemma namei_plain:
  "good fs (p @ ns) \<Longrightarrow> list_all name_ok ns \<Longrightarrow> namei fs k ns p = Inr q \<Longrightarrow> ns \<noteq> [] \<Longrightarrow> \<not> is_link (map_of fs (p @ ns))"
proof (induction ns arbitrary: p)
  case (Cons n ns)
  from namei_step[OF Cons.prems(1) _ Cons.prems(3)] Cons.prems Cons.IH[of "p @ [n]"] show ?case
    by (cases "ns = []") simp_all
qed simp

lemma namei_update:
  assumes "good fs (p @ ns)" "list_all name_ok ns" "namei fs k ns p = Inr q" "\<not> is_link (Some nd)"
    and "\<not> is_link (map_of fs (p @ ns))"
  shows "namei (dset (p @ ns) nd fs) k ns p = Inr (p @ ns)"
  using assms
proof (induction ns arbitrary: p)
  case (Cons n ns)
  note st = namei_step[OF Cons.prems(1) _ Cons.prems(3)]
  have "not_dir (node_at (dset (p @ n # ns) nd fs) p) = None" "\<not> is_link (map_of (dset (p @ n # ns) nd fs) (p @ [n]))"
    using st Cons.prems(2,4) by (auto simp: node_at_def)
  with namei_down Cons.prems have "namei (dset (p @ n # ns) nd fs) k (n # ns) p = namei (dset (p @ n # ns) nd fs) k ns (p @ [n])"
    by simp
  with Cons.IH[of "p @ [n]"] Cons.prems st show ?case by simp
qed simp

lemma lookup_plain: "good fs p \<Longrightarrow> list_all name_ok p \<Longrightarrow> lookup fs p = Inr q \<Longrightarrow> p \<noteq> [] \<Longrightarrow> \<not> is_link (map_of fs p)"
  using namei_plain[of fs "[]"] by (simp add: lookup_def)

lemma lookup_update:
  "good fs p \<Longrightarrow> list_all name_ok p \<Longrightarrow> lookup fs p = Inr q \<Longrightarrow> p \<noteq> [] \<Longrightarrow> \<not> is_link (Some nd) \<Longrightarrow>
   lookup (dset p nd fs) p = Inr p"
  using namei_update[of fs "[]"] lookup_plain by (simp add: lookup_def)

section \<open>What \<open>makedirs\<close> changes\<close>

text \<open>Directories on the way to a path that were not there before are the only change.\<close>

definition only_dirs :: "path \<Rightarrow> fs \<Rightarrow> fs \<Rightarrow> bool" where
  "only_dirs p fs fs' \<longleftrightarrow> (\<forall>q. map_of fs' q = map_of fs q \<or>
     map_of fs q = None \<and> map_of fs' q = Some Dir \<and> (\<exists>ns. p = q @ ns))"

lemma only_dirs_refl [simp]: "only_dirs p fs fs"
  by (simp add: only_dirs_def)

lemma only_dirs_links: "only_dirs p fs fs' \<Longrightarrow> links_same fs fs'"
  unfolding only_dirs_def links_same_def by (metis fs_node.distinct(4) not_Some_eq option.inject)

lemma only_dirs_extend: "only_dirs p fs fs' \<Longrightarrow> only_dirs (p @ ns) fs fs'"
  unfolding only_dirs_def by (metis append_assoc)

lemma only_dirs_add:
  "only_dirs p fs fs' \<Longrightarrow> map_of fs' p = None \<Longrightarrow> only_dirs p fs (dset p Dir fs')"
  unfolding only_dirs_def by (auto split: if_splits) (metis option.distinct(1))+

lemma good_append: "good fs (p @ ns) \<Longrightarrow> good fs p"
proof -
  assume g: "good fs (p @ ns)"
  have "dead fs (take k p)" if "0 < k" "k \<le> length p" "is_link (map_of fs (take k p))" for k
    using g[unfolded good_def, rule_format, of k] that by simp
  then show ?thesis by (simp add: good_def)
qed

lemma mkdir_only_dirs:
  assumes "good fs (p @ [n])" "list_all name_ok (p @ [n])" "mkdir fs (p @ [n]) = Inr fs'"
  shows "map_of fs (p @ [n]) = None \<and> fs' = dset (p @ [n]) Dir fs"
  using assms lookup_good[OF good_append[of fs p "[n]"]]
  by (auto simp: mkdir_def split: sum.splits option.splits if_splits)

lemma makedirs_only_dirs:
  "good fs (rev rp) \<Longrightarrow> list_all name_ok (rev rp) \<Longrightarrow> only_dirs (rev rp) fs (snd (makedirs_rev fs rp))"
proof (induction rp)
  case (Cons n rp)
  define fs1 where "fs1 = snd (if path_exists fs (rev rp) then (None, fs) else makedirs_rev fs rp)"
  have "only_dirs (rev rp) fs fs1"
    using Cons.IH Cons.prems good_append[of fs "rev rp" "[n]"] by (auto simp: fs1_def)
  then have ext: "only_dirs (rev rp @ [n]) fs fs1" "links_same fs fs1" by (simp_all add: only_dirs_extend only_dirs_links)
  have made: "only_dirs (rev rp @ [n]) fs fs2" if "mkdir fs1 (rev rp @ [n]) = Inr fs2" for fs2
    using mkdir_only_dirs[OF _ _ that] good_links[OF ext(2)] Cons.prems only_dirs_add[OF ext(1)] by auto
  show ?case using ext(1) made
    by (auto simp: Let_def fs1_def split: sum.split prod.split if_split)
qed simp

text \<open>The directories above a path that can be opened exist, and \<open>makedirs\<close> leaves them alone.\<close>

lemma namei_prefix:
  assumes "good fs (p @ ns @ [n])" "list_all name_ok (ns @ [n])" "namei fs k (ns @ [n]) p = Inr q"
  shows "namei fs k ns p = Inr (p @ ns) \<and> not_dir (node_at fs (p @ ns)) = None"
  using assms
proof (induction ns arbitrary: p)
  case Nil
  then show ?case using namei_step(1)[of fs p n "[]"] by simp
next
  case (Cons m ns)
  note st = namei_step[of fs p m "ns @ [n]" k q]
  have "namei fs k (m # ns) p = namei fs k ns (p @ [m])" using namei_down[of m fs p k ns] st Cons.prems by simp
  with Cons.IH[of "p @ [m]"] Cons.prems st show ?case by simp
qed

lemma lookup_parent_dir:
  assumes "good fs (p @ [n])" "list_all name_ok (p @ [n])" "lookup fs (p @ [n]) = Inr q"
  shows "lookup fs p = Inr p" "node_at fs p = Some Dir" "isdir fs p"
proof -
  have "lookup fs p = Inr p \<and> not_dir (node_at fs p) = None"
    using namei_prefix[of fs "[]" p n] assms by (simp add: lookup_def)
  then show "lookup fs p = Inr p" "node_at fs p = Some Dir" "isdir fs p"
    by (auto simp: not_dir_def isdir_def stat_def split: option.splits fs_node.splits)
qed

lemma makedirs_existing:
  assumes "good fs (p @ [n])" "list_all name_ok (p @ [n])" "lookup fs (p @ [n]) = Inr q"
  shows "makedirs fs p = (None, fs)"
proof (cases p rule: rev_cases)
  case Nil
  then show ?thesis by (simp add: makedirs_def)
next
  case (snoc p' m)
  note dir = lookup_parent_dir[OF assms]
  have up: "lookup fs p' = Inr p'" "node_at fs p' = Some Dir" "isdir fs p'"
    using lookup_parent_dir[of fs p' m p] good_append[OF assms(1)] assms(2) dir(1) snoc by auto
  have "mkdir fs p = Inl EEXIST" using up dir(2) snoc by (simp add: mkdir_def not_dir_def node_at_def)
  moreover have "path_exists fs p'" using up(3) by (simp add: isdir_def path_exists_def)
  ultimately show ?thesis using dir(3) snoc by (simp add: makedirs_def)
qed

end
