(* ===== verification/Workspace.thy ===== *)
theory Workspace
  imports FileSystem BuiltinTools
begin

text \<open>
  The workspace tools of \<open>workspace_tools.py\<close>: reading, writing, editing and listing files
  below an agent's workspace directory, and running a shell command there.  The disk is part
  of the state; the working directory of the process and what a shell command does are
  arguments.  Files are opened in text mode: reading turns every kind of line end into a
  line feed.
\<close>

record disk_agent = tool_agent +
  disk :: fs

definition MAX_FILE_SIZE :: nat where
  "MAX_FILE_SIZE = 50 * 1024"

section \<open>Paths in the workspace\<close>

definition null_byte :: "string \<Rightarrow> bool" where
  "null_byte s \<longleftrightarrow> CHR 0x00 \<in> set s"

definition safe_path :: "fs \<Rightarrow> path \<Rightarrow> string \<Rightarrow> string \<Rightarrow> exn + path" where
  "safe_path fs cwd workspace relative =
     (if workspace = [] then Inl (ValueError ''No workspace configured for this agent'')
      else if null_byte (path_join workspace relative) \<or> null_byte workspace then Inl (ValueError ''lstat: embedded null character in path'')
      else let resolved = realpath fs cwd (path_join workspace relative); ws_real = realpath fs cwd workspace in
        if \<not> startswith (path_str resolved) (path_str ws_real @ [slash]) \<and> path_str resolved \<noteq> path_str ws_real
        then Inl (ValueError (''Path escapes workspace: '' @ relative)) else Inr resolved)"

text \<open>A path that is no text makes \<open>os.path.join\<close> raise, once there is a workspace.\<close>

definition safe_path_arg :: "fs \<Rightarrow> path \<Rightarrow> string \<Rightarrow> json \<Rightarrow> exn + path" where
  "safe_path_arg fs cwd workspace j = (case j of
      JStr r \<Rightarrow> safe_path fs cwd workspace r
    | _ \<Rightarrow> if workspace = [] then Inl (ValueError ''No workspace configured for this agent'')
           else Inl (TypeError ''join() argument must be str''))"

definition in_workspace :: "path \<Rightarrow> tool_context \<Rightarrow> json \<Rightarrow> (path \<Rightarrow> ('z disk_agent_scheme, tool_result) eff) \<Rightarrow>
    ('z disk_agent_scheme, tool_result) eff" where
  "in_workspace cwd ctx j k = bnd (gets disk) (\<lambda>fs. case safe_path_arg fs cwd (tc_workspace ctx) j of
      Inl e \<Rightarrow> if is_ValueError e then ret (ToolResult (exn_str e) True) else throw e
    | Inr p \<Rightarrow> k p)"

section \<open>Text files\<close>

fun scan_newlines :: "bool \<Rightarrow> string \<Rightarrow> string" where
  "scan_newlines after_cr [] = []"
| "scan_newlines after_cr (c # s) =
     (if c = CHR 0x0D then CHR 0x0A # scan_newlines True s
      else if c = CHR 0x0A \<and> after_cr then scan_newlines False s
      else c # scan_newlines False s)"

definition univ_newlines :: "string \<Rightarrow> string" where
  "univ_newlines s = scan_newlines False s"

lemma length_utf8: "length s \<le> length (utf8_encode s)"
  unfolding utf8_encode_def by (induction s) (auto simp: utf8_char_def Let_def)

lemma univ_newlines_id: "CHR 0x0D \<notin> set s \<Longrightarrow> univ_newlines s = s"
  unfolding univ_newlines_def by (induction s) auto

definition lift_errno :: "path \<Rightarrow> errno + 'a \<Rightarrow> ('s, 'a) eff" where
  "lift_errno p x = (case x of Inl e \<Rightarrow> throw (errno_exn p e) | Inr v \<Rightarrow> ret v)"

definition is_FileNotFound :: "exn \<Rightarrow> bool" where
  "is_FileNotFound e = (case e of FileNotFoundError _ \<Rightarrow> True | _ \<Rightarrow> False)"

text \<open>\<open>open(p, "w")\<close>, which empties the file, then the text: computing the text may raise in between.\<close>

definition write_text :: "path \<Rightarrow> (exn + string) \<Rightarrow> ('z disk_agent_scheme, string) eff" where
  "write_text p content = bnd (gets disk) (\<lambda>fs. bnd (lift_errno p (open_w fs p)) (\<lambda>(q, fs1).
     seq (modify (\<lambda>s. s\<lparr>disk := fs1\<rparr>)) (bnd (lift_sum content) (\<lambda>text.
     seq (modify (\<lambda>s. s\<lparr>disk := dset q (File (utf8_encode text)) (disk s)\<rparr>)) (ret text)))))"

definition text_value :: "json \<Rightarrow> exn + string" where
  "text_value j = (case j of JStr t \<Rightarrow> Inr t | _ \<Rightarrow> Inl (TypeError ''argument must be str''))"

definition text_index :: "string \<Rightarrow> json \<Rightarrow> exn + string" where
  "text_index k args = (case index_key k args of Inl e \<Rightarrow> Inl e | Inr j \<Rightarrow> text_value j)"

section \<open>Tools\<close>

definition read_result :: "fs \<Rightarrow> path \<Rightarrow> ('s, tool_result) eff" where
  "read_result fs p = bnd (lift_errno p (read_bytes fs p)) (\<lambda>b.
     let content = take MAX_FILE_SIZE (univ_newlines (utf8_decode_replace b)) in
     ret (ToolResult (if length b > MAX_FILE_SIZE then content @ nl @ ''... (truncated at 50KB)'' else content) False))"

definition ReadFileTool :: "path \<Rightarrow> 'z disk_agent_scheme tool" where
  "ReadFileTool cwd = \<lparr>tl_name = ''read_file'', tl_description = ''Read a file from the workspace directory (max 50KB)'',
     tl_parameters = params_schema [schema_prop ''path'' ''string'' ''Relative path within workspace''] [''path''],
     tl_execute = (\<lambda>ctx args. bnd (lift_sum (index_key ''path'' args)) (\<lambda>j. in_workspace cwd ctx j (\<lambda>p.
       bnd (gets disk) (\<lambda>fs. tryc (read_result fs p) (\<lambda>e.
         ret (ToolResult (if is_FileNotFound e then ''File not found: '' @ py_str j else ''Read error: '' @ exn_str e) True))))))\<rparr>"

definition make_parents :: "path \<Rightarrow> ('z disk_agent_scheme, unit) eff" where
  "make_parents p = bnd (gets disk) (\<lambda>fs. let (err, fs1) = makedirs fs (butlast p) in
     seq (modify (\<lambda>s. s\<lparr>disk := fs1\<rparr>)) (case err of None \<Rightarrow> ret () | Some e \<Rightarrow> throw (errno_exn (butlast p) e)))"

definition WriteFileTool :: "path \<Rightarrow> 'z disk_agent_scheme tool" where
  "WriteFileTool cwd = \<lparr>tl_name = ''write_file'',
     tl_description = ''Write or create a file in the workspace directory (creates parent dirs)'',
     tl_parameters = params_schema [schema_prop ''path'' ''string'' ''Relative path within workspace'',
       schema_prop ''content'' ''string'' ''File content to write''] [''path'', ''content''],
     tl_execute = (\<lambda>ctx args. bnd (lift_sum (index_key ''path'' args)) (\<lambda>j. in_workspace cwd ctx j (\<lambda>p.
       tryc (seq (make_parents p) (bnd (write_text p (text_index ''content'' args)) (\<lambda>text.
           ret (ToolResult (''Written '' @ str_nat (length text) @ '' chars to '' @ py_str j) False))))
         (\<lambda>e. ret (ToolResult (''Write error: '' @ exn_str e) True)))))\<rparr>"

text \<open>The strict reading of \<open>edit_file\<close>; \<open>Inl\<close> is the error result.\<close>

definition read_strict :: "json \<Rightarrow> path \<Rightarrow> ('z disk_agent_scheme, tool_result + string) eff" where
  "read_strict j p = bnd (gets disk) (\<lambda>fs.
     tryc (bnd (lift_errno p (read_bytes fs p)) (\<lambda>b.
         bnd (of_opt (UnicodeDecodeError ''invalid start byte'') (utf8_decode b)) (\<lambda>t. ret (Inr (univ_newlines t)))))
       (\<lambda>e. ret (Inl (ToolResult (if is_FileNotFound e then ''File not found: '' @ py_str j
          else ''Read error: '' @ exn_str e) True))))"

definition edit_text :: "path \<Rightarrow> json \<Rightarrow> json \<Rightarrow> string \<Rightarrow> ('z disk_agent_scheme, tool_result) eff" where
  "edit_text p j args content = bnd (lift_sum (text_index ''old_text'' args)) (\<lambda>old.
     if \<not> contains old content then ret (ToolResult ''old_text not found in file'' True)
     else bnd (lift_sum (text_index ''new_text'' args)) (\<lambda>new.
       tryc (seq (write_text p (Inr (replace_all old new content)))
           (ret (ToolResult (''Replaced '' @ str_nat (count_sub old content) @ '' occurrence(s) in '' @ py_str j) False)))
         (\<lambda>e. ret (ToolResult (''Write error: '' @ exn_str e) True))))"

definition EditFileTool :: "path \<Rightarrow> 'z disk_agent_scheme tool" where
  "EditFileTool cwd = \<lparr>tl_name = ''edit_file'', tl_description = ''Search and replace text in a file within the workspace'',
     tl_parameters = params_schema [schema_prop ''path'' ''string'' ''Relative path within workspace'',
       schema_prop ''old_text'' ''string'' ''Text to find'', schema_prop ''new_text'' ''string'' ''Replacement text'']
       [''path'', ''old_text'', ''new_text''],
     tl_execute = (\<lambda>ctx args. bnd (lift_sum (index_key ''path'' args)) (\<lambda>j. in_workspace cwd ctx j (\<lambda>p.
       bnd (read_strict j p) (\<lambda>r. case r of Inl err \<Rightarrow> ret err | Inr content \<Rightarrow> edit_text p j args content))))\<rparr>"

definition entry_line :: "fs \<Rightarrow> path \<Rightarrow> string \<Rightarrow> exn + string" where
  "entry_line fs p entry = (case stat fs (p @ [entry]) of
      Inr Dir \<Rightarrow> Inr (''  '' @ entry @ ''/'')
    | Inr (File b) \<Rightarrow> Inr (''  '' @ entry @ '' ('' @ str_nat (length b) @ '' bytes)'')
    | Inr (Link _) \<Rightarrow> Inl (errno_exn (p @ [entry]) ELOOP)
    | Inl e \<Rightarrow> Inl (errno_exn (p @ [entry]) e))"

definition list_result :: "fs \<Rightarrow> path \<Rightarrow> ('s, tool_result) eff" where
  "list_result fs p = bnd (lift_errno p (listdir fs p)) (\<lambda>names.
     bnd (mapeff (\<lambda>n. lift_sum (entry_line fs p n)) (sort names)) (\<lambda>entries.
       ret (ToolResult (if entries = [] then ''(empty)'' else join nl entries) False)))"

definition ListDirTool :: "path \<Rightarrow> 'z disk_agent_scheme tool" where
  "ListDirTool cwd = \<lparr>tl_name = ''list_dir'', tl_description = ''List files and directories in a workspace path'',
     tl_parameters = params_schema [schema_prop ''path'' ''string'' ''Relative path within workspace (default: root)''] [],
     tl_execute = (\<lambda>ctx args. bnd (lift_sum (get_key ''path'' (JStr ''.'') args)) (\<lambda>j. in_workspace cwd ctx j (\<lambda>p.
       bnd (gets disk) (\<lambda>fs. if \<not> isdir fs p then ret (ToolResult (''Not a directory: '' @ py_str j) True)
         else tryc (list_result fs p) (\<lambda>e. ret (ToolResult (''List error: '' @ exn_str e) True))))))\<rparr>"

text \<open>What becomes of a shell command: the standard streams and the exit code, a time-out, or no start.\<close>

datatype shell_outcome = Exited bytes bytes int | TimedOut | NotStarted exn

definition shell_output :: "bytes \<Rightarrow> bytes \<Rightarrow> int \<Rightarrow> string" where
  "shell_output stdout stderr code =
     (let out = take MAX_FILE_SIZE (utf8_decode_replace stdout); err = take MAX_FILE_SIZE (utf8_decode_replace stderr) in
      join nl ((if out = [] then [] else [out]) @ (if err = [] then [] else [''STDERR:'' @ nl @ err]) @
        [''(exit code: '' @ str_int code @ '')'']))"

definition ShellExecTool :: "(json \<Rightarrow> string \<Rightarrow> json \<Rightarrow> fs \<Rightarrow> shell_outcome \<times> fs) \<Rightarrow> 'z disk_agent_scheme tool" where
  "ShellExecTool shell = \<lparr>tl_name = ''shell_exec'',
     tl_description = ''Run a shell command in the workspace directory with timeout'',
     tl_parameters = params_schema [schema_prop ''command'' ''string'' ''Shell command to execute'',
       schema_prop ''timeout_seconds'' ''integer'' ''Timeout in seconds (default 30)''] [''command''],
     tl_execute = (\<lambda>ctx args. if tc_workspace ctx = [] then ret (ToolResult ''No workspace configured'' True)
       else bnd (lift_sum (index_key ''command'' args)) (\<lambda>command.
         bnd (lift_sum (get_key ''timeout_seconds'' (JInt 30) args)) (\<lambda>timeout.
         bnd (gets disk) (\<lambda>fs. let (outcome, fs1) = shell command (tc_workspace ctx) timeout fs in
         seq (modify (\<lambda>s. s\<lparr>disk := fs1\<rparr>)) (case outcome of
             TimedOut \<Rightarrow> ret (ToolResult (''Command timed out after '' @ py_str timeout @ ''s'') True)
           | NotStarted e \<Rightarrow> ret (ToolResult (''Exec error: '' @ exn_str e) True)
           | Exited out err code \<Rightarrow> ret (ToolResult (shell_output out err code) (code \<noteq> 0)))))))\<rparr>"

definition WORKSPACE_TOOLS :: "path \<Rightarrow> (json \<Rightarrow> string \<Rightarrow> json \<Rightarrow> fs \<Rightarrow> shell_outcome \<times> fs) \<Rightarrow> 'z disk_agent_scheme tool list" where
  "WORKSPACE_TOOLS cwd shell = [ReadFileTool cwd, WriteFileTool cwd, EditFileTool cwd, ListDirTool cwd, ShellExecTool shell]"

lemmas workspace_tool_defs = ReadFileTool_def WriteFileTool_def EditFileTool_def ListDirTool_def ShellExecTool_def

section \<open>Containment\<close>

text \<open>A working directory as the kernel gives it: no link on it, every name a real one.\<close>

definition real_dir :: "fs \<Rightarrow> path \<Rightarrow> bool" where
  "real_dir fs p \<longleftrightarrow> list_all name_ok p \<and> (\<forall>k \<in> {1..length p}. \<not> is_link (map_of fs (take k p)))"

lemma real_dir_good: "real_dir fs p \<Longrightarrow> good fs p \<and> list_all name_ok p"
  by (auto simp: real_dir_def good_def)

lemma safe_path_good:
  assumes "real_dir fs cwd" "safe_path fs cwd ws r = Inr p"
  shows "good fs p" "list_all name_ok p" "\<exists>ns. p = realpath fs cwd ws @ ns"
proof -
  let ?w = "realpath fs cwd ws"
  have p: "p = realpath fs cwd (path_join ws r)"
    and inside: "startswith (path_str p) (path_str ?w @ [slash]) \<or> path_str p = path_str ?w"
    using assms(2) by (auto simp: safe_path_def Let_def split: if_splits)
  show "good fs p" and names: "list_all name_ok p"
    using real_dir_good[OF assms(1)] by (simp_all add: p realpath_good realpath_names)
  have "list_all name_ok ?w" using real_dir_good[OF assms(1)] by (simp add: realpath_names)
  with names inside show "\<exists>ns. p = ?w @ ns"
    using startswith_path[of p ?w] path_str_inject[of p ?w] by (cases "?w = []") auto
qed

lemma safe_path_argD: "safe_path_arg fs cwd ws j = Inr p \<Longrightarrow> \<exists>r. j = JStr r \<and> safe_path fs cwd ws r = Inr p"
  by (auto simp: safe_path_arg_def split: json.splits if_splits)

text \<open>The changes a tool may make at a path: the node there, and new directories above it, but no links.\<close>

definition only_at :: "path \<Rightarrow> fs \<Rightarrow> fs \<Rightarrow> bool" where
  "only_at p fs fs' \<longleftrightarrow> links_same fs fs' \<and> (\<forall>q. map_of fs' q = map_of fs q \<or> q = p \<or>
     map_of fs q = None \<and> map_of fs' q = Some Dir \<and> (\<exists>ns. p = q @ ns))"

lemma only_at_refl [simp]: "only_at p fs fs"
  by (simp add: only_at_def)

lemma only_at_dirs: "only_dirs (butlast p) fs fs' \<Longrightarrow> only_at p fs fs'"
  using only_dirs_links[of "butlast p" fs fs'] unfolding only_dirs_def only_at_def by (metis append.right_neutral append_assoc append_butlast_last_id butlast.simps(1))

lemma only_at_write: "only_at p fs fs' \<Longrightarrow> \<not> is_link (map_of fs' p) \<Longrightarrow> only_at p fs (dset p (File b) fs')"
  using links_same_trans[OF _ links_same_dset[of fs' p "File b"]] by (auto simp: only_at_def)

lemma wp_write_text:
  fixes s :: "'z disk_agent_scheme"
  assumes "good (disk s) p" "list_all name_ok p" "only_at p fs (disk s)"
  shows "wp (write_text p content) (\<lambda>_ t. only_at p fs (disk t)) (\<lambda>_ t. only_at p fs (disk t)) s"
proof -
  have "\<not> is_link (map_of (disk s) p)" if "lookup (disk s) p = Inr p" "node_at (disk s) p \<noteq> Some Dir"
    using lookup_plain[OF assms(1,2) that(1)] that(2) by (cases "p = []") (auto simp: node_at_def)
  then show ?thesis using assms(3) lookup_good[OF assms(1,2)]
    by (auto simp: write_text_def lift_errno_def open_w_def wp_simps intro!: only_at_write split: sum.splits if_splits)
qed

lemma wp_make_parents:
  fixes s :: "'z disk_agent_scheme"
  assumes "good (disk s) p" "list_all name_ok p"
  shows "wp (make_parents p) (\<lambda>_ t. only_dirs (butlast p) (disk s) (disk t))
    (\<lambda>_ t. only_dirs (butlast p) (disk s) (disk t)) s"
proof -
  have "list_all name_ok (butlast p)" using assms(2) by (auto simp: list_all_iff dest: in_set_butlastD)
  then have "only_dirs (butlast p) (disk s) (snd (makedirs (disk s) (butlast p)))"
    using makedirs_only_dirs[of "disk s" "rev (butlast p)"] good_butlast[OF assms(1)] by (simp add: makedirs_def)
  then show ?thesis by (auto simp: make_parents_def wp_simps split: prod.splits option.splits)
qed

text \<open>A tool that touches at most the place its path argument names.\<close>

lemma wp_in_workspace:
  fixes s :: "'z disk_agent_scheme"
  assumes "\<And>p. safe_path_arg (disk s) cwd (tc_workspace ctx) j = Inr p \<Longrightarrow> wp (k p) Q E s"
    and "\<And>m. Q (ToolResult m True) s" "\<And>e. E e s"
  shows "wp (in_workspace cwd ctx j k) Q E s"
  using assms by (auto simp: in_workspace_def wp_simps split: sum.splits)

text \<open>What a tool does to the disk: nothing, or changes at a path that was found safe.\<close>

definition stays :: "path \<Rightarrow> tool_context \<Rightarrow> fs \<Rightarrow> fs \<Rightarrow> bool" where
  "stays cwd ctx fs fs' \<longleftrightarrow> fs' = fs \<or> (\<exists>r p. safe_path fs cwd (tc_workspace ctx) r = Inr p \<and> only_at p fs fs')"

definition confined :: "path \<Rightarrow> 'z disk_agent_scheme tool \<Rightarrow> bool" where
  "confined cwd t \<longleftrightarrow> (\<forall>ctx args s. real_dir (disk s) cwd \<longrightarrow>
     stays cwd ctx (disk s) (disk (final (tl_execute t ctx args) s)))"

lemma wp_both: "wp m (\<lambda>_. P) (\<lambda>_. P) s \<longleftrightarrow> P (final m s)"
  by (auto simp: wp_def final_def split: prod.splits sum.splits)

lemma keeps_read_tools:
  "keeps disk (tl_execute (ReadFileTool cwd) ctx args)" "keeps disk (tl_execute (ListDirTool cwd) ctx args)"
  "keeps disk (read_strict j p)"
  unfolding ReadFileTool_def ListDirTool_def tool.simps in_workspace_def read_result_def list_result_def read_strict_def
    lift_errno_def Let_def
  by (intro keeps_rules)+

lemma confined_read_tools: "confined cwd (ReadFileTool cwd)" "confined cwd (ListDirTool cwd)"
  by (simp_all add: confined_def stays_def keepsD[OF keeps_read_tools(1)] keepsD[OF keeps_read_tools(2)])

lemma confined_write: "confined cwd (WriteFileTool cwd :: 'z disk_agent_scheme tool)"
  unfolding confined_def
proof (intro allI impI)
  fix ctx args and s :: "'z disk_agent_scheme"
  assume cwd: "real_dir (disk s) cwd"
  let ?Q = "\<lambda>u. stays cwd ctx (disk s) (disk u)"
  have "wp (make_parents p) (\<lambda>_ u. wp (write_text p content) (\<lambda>_. ?Q) (\<lambda>_. ?Q) u) (\<lambda>_. ?Q) s"
    if arg: "safe_path_arg (disk s) cwd (tc_workspace ctx) j = Inr p" for j p content
  proof -
    obtain r where r: "safe_path (disk s) cwd (tc_workspace ctx) r = Inr p" using safe_path_argD[OF arg] by blast
    note good = safe_path_good[OF cwd r]
    show ?thesis
    proof (rule wp_mono[OF wp_make_parents[OF good(1,2)]], goal_cases)
      case (1 v t)
      from wp_write_text[OF good_links[OF only_dirs_links[OF this] good(1)] good(2) only_at_dirs[OF this]]
      show ?case by (rule wp_mono) (use r in \<open>auto simp: stays_def\<close>)
    next
      case (2 e t)
      then have "only_at p (disk s) (disk t)" by (rule only_at_dirs)
      with r show ?case by (auto simp: stays_def)
    qed
  qed
  then have "wp (tl_execute (WriteFileTool cwd) ctx args) (\<lambda>_. ?Q) (\<lambda>_. ?Q) s"
    by (auto simp: WriteFileTool_def wp_simps stays_def split: sum.splits intro!: wp_in_workspace)
  then show "?Q (final (tl_execute (WriteFileTool cwd) ctx args) s)" unfolding wp_both .
qed

lemma confined_edit: "confined cwd (EditFileTool cwd :: 'z disk_agent_scheme tool)"
  unfolding confined_def
proof (intro allI impI)
  fix ctx args and s :: "'z disk_agent_scheme"
  assume cwd: "real_dir (disk s) cwd"
  let ?Q = "\<lambda>u. stays cwd ctx (disk s) (disk u)"
  have "wp (write_text p content) (\<lambda>_. ?Q) (\<lambda>_. ?Q) u"
    if arg: "safe_path_arg (disk s) cwd (tc_workspace ctx) j = Inr p" and same: "disk u = disk s"
    for j p content and u :: "'z disk_agent_scheme"
  proof -
    obtain r where r: "safe_path (disk s) cwd (tc_workspace ctx) r = Inr p" using safe_path_argD[OF arg] by blast
    note good = safe_path_good[OF cwd r]
    show ?thesis by (rule wp_mono[OF wp_write_text[of u p "disk s"]]) (use good r same in \<open>auto simp: stays_def\<close>)
  qed
  then have "wp (tl_execute (EditFileTool cwd) ctx args) (\<lambda>_. ?Q) (\<lambda>_. ?Q) s"
    by (auto simp: EditFileTool_def edit_text_def wp_simps stays_def split: sum.splits
        intro!: wp_in_workspace wp_keeps[OF keeps_read_tools(3)])
  then show "?Q (final (tl_execute (EditFileTool cwd) ctx args) s)" unfolding wp_both .
qed

section \<open>Opening a safe path\<close>

text \<open>After a successful write the file can be read back, and the path is found safe again.\<close>

lemma safe_path_links: "links_same fs fs' \<Longrightarrow> safe_path fs cwd ws r = safe_path fs' cwd ws r"
  by (simp add: safe_path_def realpath_links Let_def)

lemma written_reads:
  assumes "good fs p" "list_all name_ok p" "open_w fs p = Inr (q, fs1)"
  shows "q = p" "fs1 = dset p (File []) fs" "links_same fs (dset p (File b) fs1)" "read_bytes (dset p (File b) fs1) p = Inr b"
proof -
  have l: "lookup fs p = Inr q" "node_at fs q \<noteq> Some Dir" "fs1 = dset q (File []) fs"
    using assms(3) by (auto simp: open_w_def split: sum.splits if_splits)
  show q: "q = p" using lookup_good[OF assms(1,2) l(1)] .
  then show f: "fs1 = dset p (File []) fs" using l by simp
  have ne: "p \<noteq> []" using l q by (auto simp: node_at_def)
  have plain: "\<not> is_link (map_of fs p)" by (rule lookup_plain[OF assms(1,2) l(1) ne])
  have d: "map_of (dset p (File b) fs1) = map_of (dset p (File b) fs)" by (simp add: f)
  show "links_same fs (dset p (File b) fs1)" using links_same_dset[OF plain, of "File b"] unfolding links_same_def d by simp
  have f1: "links_same fs fs1" using links_same_dset[OF plain, of "File []"] f by simp
  have "lookup fs1 p = Inr p" unfolding f by (rule lookup_update[OF assms(1,2) l(1) ne]) simp
  then have "lookup (dset p (File b) fs1) p = Inr p"
    by (intro lookup_update[OF good_links[OF f1 assms(1)] assms(2) _ ne]) simp_all
  then show "read_bytes (dset p (File b) fs1) p = Inr b" using ne by (simp add: read_bytes_def stat_def node_at_def)
qed

lemma read_bytes_file:
  assumes "good fs p" "list_all name_ok p" "read_bytes fs p = Inr b"
  shows "map_of fs p = Some (File b)" "lookup fs p = Inr p" "p \<noteq> []"
proof -
  have l: "\<exists>q. lookup fs p = Inr q \<and> node_at fs q = Some (File b)"
    using assms(3) by (auto simp: read_bytes_def stat_def split: sum.splits option.splits fs_node.splits)
  then show "lookup fs p = Inr p" using lookup_good[OF assms(1,2)] by auto
  with l show "map_of fs p = Some (File b)" "p \<noteq> []" by (auto simp: node_at_def split: if_splits)
qed

section \<open>Properties\<close>



text \<open>
  C11.  What \<open>write_file\<close> reports as written is what \<open>read_file\<close> returns for the same path, for a
  text of at most 50 KB without carriage returns, whatever was there before.
\<close>

theorem write_then_read:
  fixes s :: "'z disk_agent_scheme"
  assumes "real_dir (disk s) cwd" "map_of kvs ''path'' = Some (JStr r)" "map_of kvs ''content'' = Some (JStr x)"
    and "tl_execute (WriteFileTool cwd) ctx (JObj kvs) s = (Inr (ToolResult msg False), s')"
    and "CHR 0x0D \<notin> set x" "length (utf8_encode x) \<le> MAX_FILE_SIZE"
  shows "tl_execute (ReadFileTool cwd) ctx (JObj kvs) s' = (Inr (ToolResult x False), s')"
proof -
  let ?wr = "tl_execute (WriteFileTool cwd :: 'z disk_agent_scheme tool) ctx (JObj kvs)"
  let ?R = "\<lambda>u. \<exists>p. safe_path (disk u) cwd (tc_workspace ctx) r = Inr p \<and> read_bytes (disk u) p = Inr (utf8_encode x)"
  have written: "wp (write_text p (Inr x)) (\<lambda>y u. y = x \<and> ?R u) (\<lambda>_ _. True) t"
    if p: "safe_path (disk s) cwd (tc_workspace ctx) r = Inr p" and dirs: "only_dirs (butlast p) (disk s) (disk t)"
    for p and t :: "'z disk_agent_scheme"
  proof -
    note good = safe_path_good[OF assms(1) p] and same = only_dirs_links[OF dirs]
    have "safe_path (dset p (File (utf8_encode x)) fs1) cwd (tc_workspace ctx) r = Inr p \<and>
        read_bytes (dset p (File (utf8_encode x)) fs1) p = Inr (utf8_encode x) \<and> q = p"
      if "open_w (disk t) p = Inr (q, fs1)" for q fs1
      using written_reads[OF good_links[OF same good(1)] good(2) that] safe_path_links[OF same]
        safe_path_links[of "disk t" "dset p (File (utf8_encode x)) fs1"] p by auto
    then show ?thesis
      by (auto simp: write_text_def lift_errno_def lift_sum_def wp_simps split: sum.splits)
  qed
  have parents: "wp (make_parents p) (\<lambda>_. wp (write_text p (Inr x)) Q E) E s"
    if p: "safe_path (disk s) cwd (tc_workspace ctx) r = Inr p" and "\<And>v u. ?R u \<Longrightarrow> Q v u" "\<And>e u. E e u" for p Q E
    by (rule wp_mono[OF wp_make_parents[OF safe_path_good(1,2)[OF assms(1) p]]])
      (rule wp_mono[OF written[OF p]], simp_all add: that)
  have "wp ?wr (\<lambda>v u. to_is_error v \<or> ?R u) (\<lambda>_ _. True) s"
    using assms(2,3) unfolding WriteFileTool_def tool.simps wp_bnd wp_lift_sum
    by (simp add: index_key_def text_index_def text_value_def)
      (rule wp_in_workspace; simp add: safe_path_arg_def wp_simps parents ToolResult_def)
  then have "?R s'" using assms(4) by (simp add: wp_def ToolResult_def)
  then show ?thesis using assms(2,5,6) length_utf8[of x]
    by (auto simp: ReadFileTool_def in_workspace_def safe_path_arg_def index_key_def read_result_def lift_errno_def
        lift_sum_def eff_defs Let_def univ_newlines_id)
qed


text \<open>
  A \<open>write_file\<close> call without \<open>content\<close> destroys the file: the file is opened for writing,
  which empties it, before the missing argument is looked up; the tool reports an error.
\<close>

theorem write_without_content_empties:
  fixes s :: "'z disk_agent_scheme"
  assumes "real_dir (disk s) cwd" "map_of kvs ''path'' = Some (JStr r)" "map_of kvs ''content'' = None"
    and "safe_path (disk s) cwd (tc_workspace ctx) r = Inr p" "read_bytes (disk s) p = Inr b"
  shows "\<exists>m s'. tl_execute (WriteFileTool cwd) ctx (JObj kvs) s = (Inr (ToolResult m True), s') \<and>
    map_of (disk s') p = Some (File [])"
proof -
  note good = safe_path_good[OF assms(1,4)]
  note there = read_bytes_file[OF good(1,2) assms(5)]
  have "makedirs (disk s) (butlast p) = (None, disk s)"
    using makedirs_existing[of "disk s" "butlast p" "last p" p] good there by simp
  moreover have "open_w (disk s) p = Inr (p, dset p (File []) (disk s))"
    using there by (simp add: open_w_def node_at_def)
  ultimately show ?thesis using assms(2-4)
    by (simp add: WriteFileTool_def in_workspace_def safe_path_arg_def make_parents_def write_text_def text_index_def
        index_key_def lift_errno_def lift_sum_def eff_defs ToolResult_def)
qed

text \<open>
  A workspace at the root of the disk is of no use: the test for the prefix looks for two
  slashes, so every path but the root itself is refused as an escape.
\<close>

theorem root_workspace_refuses:
  assumes "real_dir fs cwd" "safe_path fs cwd ''/'' relative = Inr p"
  shows "p = []"
proof -
  have root: "realpath fs cwd ''/'' = []" by (simp add: realpath_def realparts.simps(3) is_abs_def)
  have "list_all name_ok p" by (rule safe_path_good(2)[OF assms])
  with assms(2) startswith_root[of p] path_str_inject[of p "[]"] show ?thesis
    by (auto simp: safe_path_def root Let_def split: if_splits)
qed

section \<open>Examples\<close>

text \<open>A workspace with a file, a link out of it and a link to itself.\<close>

definition example_disk :: fs where
  "example_disk = [([''ws''], Dir), ([''ws'', ''a''], File ''x''), ([''ws'', ''out''], Link ''/etc''),
     ([''ws'', ''me''], Link ''me''), ([''etc''], Dir), ([''etc'', ''pw''], File ''y'')]"

definition example_disk_agent :: disk_agent where
  "example_disk_agent = \<lparr>trace = [], a_pid = 2, a_ppid = 1, a_user = ''u'', a_role = ''agent'',
     a_config = AgentConfig, a_core = Some (CoreClient 2), a_server = True,
     pending_requests = no_futures, pending_results = [], llm = None, system_prompt = [], agent_memory = AgentMemory 2,
     disk = example_disk\<rparr>"

abbreviation ws_ctx :: tool_context where
  "ws_ctx \<equiv> example_ctx\<lparr>tc_workspace := ''/ws''\<rparr>"

lemma example_paths:
  "safe_path example_disk [] ''/ws'' ''a'' = Inr [''ws'', ''a'']"
  "safe_path example_disk [] ''/ws'' ''out/pw'' = Inl (ValueError ''Path escapes workspace: out/pw'')"
  "safe_path example_disk [] ''/ws'' ''me'' = Inr [''ws'', ''me'']"
  "lookup example_disk [''ws'', ''me''] = Inl ELOOP"
  "read_bytes example_disk [''ws'', ''a''] = Inr ''x''"
  by code_simp+

lemma example_disk_simps [simp]: "disk example_disk_agent = example_disk" "real_dir fs []" "tc_workspace ws_ctx = ''/ws''"
  by (simp_all add: example_disk_agent_def real_dir_def node_at_def)


abbreviation write_b :: json where
  "write_b \<equiv> JObj [(''path'', JStr ''b''), (''content'', JStr ''hi'')]"

lemma example_write:
  "fst (tl_execute (WriteFileTool []) ws_ctx write_b example_disk_agent) = Inr (ToolResult ''Written 2 chars to b'' False)"
  "map_of (disk (final (tl_execute (WriteFileTool []) ws_ctx write_b) example_disk_agent)) [''ws'', ''b''] = Some (File ''hi'')"
  by code_simp+

lemma example_edit:
  "fst (tl_execute (EditFileTool []) ws_ctx (JObj [(''path'', JStr ''a''), (''old_text'', JStr ''x''), (''new_text'', JStr ''yz'')])
     example_disk_agent) = Inr (ToolResult ''Replaced 1 occurrence(s) in a'' False)"
  by code_simp

lemma example_root: "realpath example_disk [] ''/ws'' = [''ws'']" "map_of example_disk [''ws'', ''b''] = None"
  by code_simp+


theorem write_then_read_witness:
  "\<exists>s'. tl_execute (WriteFileTool []) ws_ctx write_b example_disk_agent = (Inr (ToolResult ''Written 2 chars to b'' False), s') \<and>
     tl_execute (ReadFileTool []) ws_ctx write_b s' = (Inr (ToolResult ''hi'' False), s')"
proof -
  obtain s' where s': "tl_execute (WriteFileTool []) ws_ctx write_b example_disk_agent =
      (Inr (ToolResult ''Written 2 chars to b'' False), s')"
    using example_write(1) by (metis prod.collapse)
  have "length (utf8_encode ''hi'') \<le> MAX_FILE_SIZE" by code_simp
  with write_then_read[OF _ _ _ s', of "''b''" "''hi''"] s' show ?thesis by auto
qed


theorem write_without_content_empties_witness:
  "\<exists>m s'. tl_execute (WriteFileTool []) ws_ctx (JObj [(''path'', JStr ''a'')]) example_disk_agent = (Inr (ToolResult m True), s') \<and>
     map_of (disk s') [''ws'', ''a''] = Some (File [])"
  by (rule write_without_content_empties[where r = "''a''" and b = "''x''"]) (simp_all add: example_paths)

theorem root_workspace_refuses_witness:
  "safe_path example_disk [] ''/'' ''.'' = Inr [] \<and> (\<forall>p. safe_path example_disk [] ''/'' ''ws/a'' = Inr p \<longrightarrow> p = [])"
proof -
  have "safe_path example_disk [] ''/'' ''.'' = Inr []" by code_simp
  with root_workspace_refuses[of example_disk "[]" "''.''"] root_workspace_refuses[of example_disk "[]" "''ws/a''"]
  show ?thesis by simp
qed

end
