(* ===== verification/Orchestrator.thy ===== *)
theory Orchestrator
  imports Accounting
begin

text \<open>
  \<open>OrchestratorAgent\<close> of \<open>orchestrator.py\<close>: the parsing of a plan into groups of
  subtasks with its fallbacks, the capping of the groups, and \<open>handle_task\<close>, which
  spawns one worker per group, runs the groups concurrently and the subtasks of a group
  one after the other, synthesises a report, stores it and kills the workers.

  \<open>asyncio.gather\<close> is a scheduler: an arbitrary list of group numbers says which group
  makes the next step, where a step ends at the next \<open>await\<close>; when the list is used up
  the groups run to their end in order.  An exception of one group (only its log call can
  raise) is raised by the gather; what the other groups still do in the background after
  that is not modelled.
\<close>

record group =
  g_name :: string
  g_subtasks :: "string list"

definition MAX_WORKERS :: int where
  "MAX_WORKERS = 5"

section \<open>Capping\<close>

text \<open>\<open>merged[i % max_workers]["subtasks"].extend(extra)\<close>, with a negative index from the end.\<close>

definition extend_at :: "int \<Rightarrow> string list \<Rightarrow> group list \<Rightarrow> exn + group list" where
  "extend_at j extra merged =
     (let n = int (length merged); j' = (if j < 0 then j + n else j) in
      if 0 \<le> j' \<and> j' < n
      then Inr (merged[nat j' := (merged ! nat j')\<lparr>g_subtasks := g_subtasks (merged ! nat j') @ extra\<rparr>])
      else Inl (IndexError ''list index out of range''))"

fun merge_extras :: "int \<Rightarrow> int \<Rightarrow> group list \<Rightarrow> group list \<Rightarrow> exn + group list" where
  "merge_extras m i [] merged = Inr merged"
| "merge_extras m i (g # gs) merged =
     (if m = 0 then Inl (ZeroDivisionError ''integer modulo by zero'')
      else case extend_at (i mod m) (g_subtasks g) merged of
        Inl e \<Rightarrow> Inl e
      | Inr merged' \<Rightarrow> merge_extras m (i + 1) gs merged')"

definition cap_groups :: "group list \<Rightarrow> int \<Rightarrow> exn + group list" where
  "cap_groups groups max_workers =
     (if int (length groups) \<le> max_workers then Inr groups
      else merge_extras max_workers 0 (slice_from max_workers groups) (slice_to max_workers groups))"

section \<open>Parsing\<close>

abbreviation line_break :: char where
  "line_break \<equiv> CHR 0x0A"

definition fence :: string where
  "fence = ''```''"

definition unfence :: "string \<Rightarrow> string" where
  "unfence raw = (let text = strip raw in
     if startswith text fence
     then strip (join [line_break] (filter (\<lambda>l. \<not> startswith (strip l) fence) (split_on line_break text)))
     else text)"

fun valid_groups :: "json list \<Rightarrow> group list \<Rightarrow> group list" where
  "valid_groups [] acc = acc"
| "valid_groups (JObj g # gs) acc = (case dget g ''subtasks'' (JList []) of
      JList (s # ss) \<Rightarrow> valid_groups gs (acc @
        [\<lparr>g_name = py_str (dget g ''name'' (JStr (''group-'' @ str_nat (Suc (length acc))))),
          g_subtasks = filter (\<lambda>t. strip t \<noteq> []) (map py_str (s # ss))\<rparr>])
    | _ \<Rightarrow> valid_groups gs acc)"
| "valid_groups (_ # gs) acc = valid_groups gs acc"

definition from_object :: "json \<Rightarrow> group list" where
  "from_object data = (case data of
      JObj kvs \<Rightarrow> (case map_of kvs ''groups'' of Some (JList gs) \<Rightarrow> valid_groups gs [] | _ \<Rightarrow> [])
    | _ \<Rightarrow> [])"

definition task_group :: "nat \<Rightarrow> string \<Rightarrow> group" where
  "task_group i s = \<lparr>g_name = ''task-'' @ str_nat (Suc i), g_subtasks = [s]\<rparr>"

definition from_list :: "json \<Rightarrow> group list" where
  "from_list data = (case data of
      JList xs \<Rightarrow> map (\<lambda>(i, x). task_group i (py_str x))
                  (filter (\<lambda>(i, x). strip (py_str x) \<noteq> []) (enumerate 0 xs))
    | _ \<Rightarrow> [])"

definition clean_line :: "string \<Rightarrow> string" where
  "clean_line s = strip_chars ''0123456789.)'' (strip_chars ''- '' (strip_chars [CHR 0x22] (strip s)))"

definition from_lines :: "string \<Rightarrow> group list" where
  "from_lines raw = map (\<lambda>(i, s). task_group i s) (enumerate 0 (filter (\<lambda>s. s \<noteq> [])
     (map clean_line (filter (\<lambda>s. strip s \<noteq> [] \<and> \<not> startswith (strip s) fence)
       (split_on line_break (strip raw))))))"

definition parse_groups :: "string \<Rightarrow> int \<Rightarrow> exn + group list" where
  "parse_groups raw max_workers = (case loads (unfence raw) of
      Some data \<Rightarrow>
        if from_object data \<noteq> [] then cap_groups (from_object data) max_workers
        else if from_list data \<noteq> [] then cap_groups (from_list data) max_workers
        else if from_lines raw \<noteq> [] then cap_groups (from_lines raw) max_workers
        else Inr []
    | None \<Rightarrow> if from_lines raw \<noteq> [] then cap_groups (from_lines raw) max_workers else Inr [])"

section \<open>Capping keeps the subtasks\<close>

lemma mset_list_update_concat:
  "n < length gs \<Longrightarrow> mset (concat (map f (gs[n := x]))) + mset (f (gs ! n)) = mset (concat (map f gs)) + mset (f x)"
  by (induction gs arbitrary: n) (auto split: nat.splits)

definition all_subtasks :: "group list \<Rightarrow> string multiset" where
  "all_subtasks gs = mset (concat (map g_subtasks gs))"

lemma all_subtasks_simps [simp]:
  "all_subtasks [] = {#}" "all_subtasks (g # gs) = mset (g_subtasks g) + all_subtasks gs"
  "all_subtasks (xs @ ys) = all_subtasks xs + all_subtasks ys"
  by (simp_all add: all_subtasks_def)

lemma extend_at_ok:
  assumes "0 \<le> j" "j < int (length merged)"
  shows "\<exists>merged'. extend_at j extra merged = Inr merged' \<and> length merged' = length merged \<and>
    map g_name merged' = map g_name merged \<and> all_subtasks merged' = all_subtasks merged + mset extra"
proof -
  let ?n = "nat j" and ?g = "merged ! nat j"
  let ?m = "merged[?n := ?g\<lparr>g_subtasks := g_subtasks ?g @ extra\<rparr>]"
  have n: "?n < length merged" using assms by simp
  have "all_subtasks ?m = all_subtasks merged + mset extra"
    using mset_list_update_concat[OF n, of g_subtasks "?g\<lparr>g_subtasks := g_subtasks ?g @ extra\<rparr>"]
    by (simp add: all_subtasks_def)
  moreover have "map g_name ?m = map g_name merged"
    using n by (auto simp: list_eq_iff_nth_eq nth_list_update)
  ultimately show ?thesis using assms by (simp add: extend_at_def Let_def)
qed

lemma merge_extras_ok:
  assumes "0 < m" "int (length merged) = m" "0 \<le> i"
  shows "\<exists>merged'. merge_extras m i gs merged = Inr merged' \<and> length merged' = length merged \<and>
    map g_name merged' = map g_name merged \<and> all_subtasks merged' = all_subtasks merged + all_subtasks gs"
  using assms(2,3)
proof (induction gs arbitrary: i merged)
  case (Cons g gs)
  have "0 \<le> i mod m" "i mod m < int (length merged)" using assms(1) Cons.prems by simp_all
  from extend_at_ok[OF this, of "g_subtasks g"] obtain merged' where
    step: "extend_at (i mod m) (g_subtasks g) merged = Inr merged'" "length merged' = length merged"
      "map g_name merged' = map g_name merged" "all_subtasks merged' = all_subtasks merged + mset (g_subtasks g)"
    by blast
  with Cons.IH[of merged' "i + 1"] Cons.prems assms(1) show ?case by auto
qed simp

lemma cap_groups_ok:
  assumes "0 < max_workers"
  shows "\<exists>gs. cap_groups groups max_workers = Inr gs \<and>
    length gs = min (length groups) (nat max_workers) \<and>
    map g_name gs = take (nat max_workers) (map g_name groups) \<and> all_subtasks gs = all_subtasks groups"
proof (cases "int (length groups) \<le> max_workers")
  case True
  then show ?thesis by (simp add: cap_groups_def)
next
  case False
  let ?a = "take (nat max_workers) groups" and ?b = "drop (nat max_workers) groups"
  have "int (length ?a) = max_workers" using False assms by simp
  from merge_extras_ok[OF assms this, of 0 ?b] obtain gs where gs:
    "merge_extras max_workers 0 ?b ?a = Inr gs" "length gs = length ?a" "map g_name gs = map g_name ?a"
    "all_subtasks gs = all_subtasks ?a + all_subtasks ?b" by auto
  have "all_subtasks ?a + all_subtasks ?b = all_subtasks groups"
    by (metis all_subtasks_simps(3) append_take_drop_id)
  with gs False assms show ?thesis
    by (auto simp: cap_groups_def slice_to_def slice_from_def take_map)
qed

section \<open>Running the groups\<close>

record sub_result =
  sr_subtask :: string
  sr_worker_pid :: pid
  sr_group :: string
  sr_output :: string
  sr_ok :: bool
  sr_tokens :: string

text \<open>
  The coroutine \<open>run_group\<close>: the subtasks still to do, the results so far, and where it
  is suspended: before \<open>execute_on\<close>, before the log of an error, before the progress
  report.
\<close>

datatype phase = AtExecute | AtErrorLog string | AtReport

record group_run =
  gr_group :: group
  gr_pid :: pid
  gr_todo :: "string list"
  gr_results :: "sub_result list"
  gr_phase :: phase

definition start_group :: "group \<times> pid \<Rightarrow> group_run" where
  "start_group gp = \<lparr>gr_group = fst gp, gr_pid = snd gp, gr_todo = g_subtasks (fst gp), gr_results = [],
     gr_phase = AtExecute\<rparr>"

definition group_done :: "group_run \<Rightarrow> bool" where
  "group_done g \<longleftrightarrow> gr_todo g = []"

text \<open>One step; the number is the shared counter of completed subtasks.\<close>

definition subtask_result :: "group_run \<Rightarrow> string \<Rightarrow> string \<Rightarrow> bool \<Rightarrow> string \<Rightarrow> sub_result" where
  "subtask_result g subtask out ok tokens = \<lparr>sr_subtask = subtask, sr_worker_pid = gr_pid g,
     sr_group = g_name (gr_group g), sr_output = out, sr_ok = ok, sr_tokens = tokens\<rparr>"

definition group_step :: "env \<Rightarrow> string \<Rightarrow> nat \<Rightarrow> nat \<Rightarrow> group_run \<Rightarrow> ('z world_scheme, nat \<times> group_run) eff" where
  "group_step env trace_id ntotal completed g = (case gr_todo g of
      [] \<Rightarrow> ret (completed, g)
    | subtask # rest \<Rightarrow> (case gr_phase g of
        AtExecute \<Rightarrow> tryc
          (bnd (sys_execute_on env (gr_pid g) subtask
                 (Some ((''subtask'', subtask) # (if trace_id = [] then [] else [(''trace_id'', trace_id)]))) 0)
            (\<lambda>wr. ret (completed, g\<lparr>gr_results := gr_results g @
                [subtask_result g subtask (tr_output wr) True (dget (tr_metadata wr) ''tokens_used'' ''0'')],
               gr_phase := AtReport\<rparr>)))
          (\<lambda>e. ret (completed, g\<lparr>gr_results := gr_results g @ [subtask_result g subtask (exn_str e) False ''0''],
               gr_phase := AtErrorLog (exn_str e)\<rparr>))
      | AtErrorLog msg \<Rightarrow> seq (sys_log env ''error'' (''Worker '' @ str_int (gr_pid g) @ '' failed: '' @ msg) [])
          (ret (completed, g\<lparr>gr_phase := AtReport\<rparr>))
      | AtReport \<Rightarrow> seq (report_progress
            (''['' @ str_nat (Suc completed) @ ''/'' @ str_nat ntotal @ ''] '' @ take 40 subtask @ ''...'')
            (25 + 55 * of_nat (Suc completed) / of_nat ntotal))
          (ret (Suc completed, g\<lparr>gr_todo := rest, gr_phase := AtExecute\<rparr>))))"

fun run_schedule :: "env \<Rightarrow> string \<Rightarrow> nat \<Rightarrow> nat list \<Rightarrow> nat \<Rightarrow> group_run list \<Rightarrow>
    ('z world_scheme, nat \<times> group_run list) eff" where
  "run_schedule env tid ntotal [] completed gs = ret (completed, gs)"
| "run_schedule env tid ntotal (i # sched) completed gs =
     (if i < length gs then bnd (group_step env tid ntotal completed (gs ! i)) (\<lambda>(c, g).
        run_schedule env tid ntotal sched c (gs[i := g]))
      else run_schedule env tid ntotal sched completed gs)"

text \<open>A schedule that ends every group: three steps for each subtask, group after group.\<close>

definition closing_schedule :: "group_run list \<Rightarrow> nat list" where
  "closing_schedule gs = concat (map (\<lambda>(i, g). replicate (3 * length (gr_todo g)) i) (enumerate 0 gs))"

definition gather_groups :: "env \<Rightarrow> string \<Rightarrow> nat \<Rightarrow> nat list \<Rightarrow> (group \<times> pid) list \<Rightarrow>
    ('z world_scheme, sub_result list list) eff" where
  "gather_groups env tid ntotal sched gps =
     bnd (run_schedule env tid ntotal sched 0 (map start_group gps)) (\<lambda>(c, gs).
     bnd (run_schedule env tid ntotal (closing_schedule gs) c gs) (\<lambda>(_, gs'). ret (map gr_results gs')))"

section \<open>The task handler\<close>

definition decompose_prompt :: "string \<Rightarrow> int \<Rightarrow> string" where
  "decompose_prompt description max_workers =
     ''You are a task planner. Break down the following task into subtask groups that can be worked on efficiently.'' @
     [line_break, line_break] @ ''Rules:'' @ [line_break] @
     ''- Related subtasks that benefit from shared context: SAME group (executed sequentially by one worker)'' @ [line_break] @
     ''- Independent subtasks: SEPARATE groups (executed in parallel by different workers)'' @ [line_break] @
     ''- Maximum '' @ str_int max_workers @ '' groups'' @ [line_break] @
     ''- Each group needs at least 1 subtask'' @ [line_break, line_break] @
     ''Task: '' @ description @ [line_break, line_break] @
     ''Return ONLY a JSON object:'' @ [line_break] @
     ''{'' @ [CHR 0x22] @ ''groups'' @ [CHR 0x22] @ '': [{'' @ [CHR 0x22] @ ''name'' @ [CHR 0x22] @ '': '' @
     [CHR 0x22] @ ''short-name'' @ [CHR 0x22] @ '', '' @ [CHR 0x22] @ ''subtasks'' @ [CHR 0x22] @ '': ['' @
     [CHR 0x22] @ ''subtask description'' @ [CHR 0x22] @ '', ...]}, ...]}'' @ [line_break] @ ''No other text.''"

definition decompose_and_group :: "env \<Rightarrow> string \<Rightarrow> int \<Rightarrow> ('z llm_agent_scheme, group list) eff" where
  "decompose_and_group env description max_workers =
     bnd (ask env (decompose_prompt description max_workers) [] 1024 ''0.5'') (\<lambda>raw. case raw of
        JStr t \<Rightarrow> lift_sum (parse_groups t max_workers)
      | _ \<Rightarrow> throw (AttributeError ''object has no attribute strip''))"

definition plan_groups :: "env \<Rightarrow> string \<Rightarrow> string \<Rightarrow> int \<Rightarrow> ('z llm_agent_scheme, group list) eff" where
  "plan_groups env plan_json description max_workers =
     (if plan_json \<noteq> [] then bnd (lift_sum (parse_groups plan_json max_workers)) (\<lambda>groups.
        if groups \<noteq> []
        then seq (sys_log env ''info'' (''Using Architect plan ('' @ str_nat (length groups) @ '' groups)'') []) (ret groups)
        else seq (sys_log env ''warn'' ''Failed to parse Architect plan, falling back to LLM'' [])
          (decompose_and_group env description max_workers))
      else decompose_and_group env description max_workers)"

definition spawn_worker :: "env \<Rightarrow> nat \<Rightarrow> group \<Rightarrow> ('z world_scheme, pid) eff" where
  "spawn_worker env i g =
     bnd (sys_spawn env (''worker-'' @ str_nat (Suc i)) ''worker'' ''operational''
       (''You are a skilled assistant working on the '' @ [CHR 0x27] @ g_name g @ [CHR 0x27] @
        '' aspect of a larger task. Complete each subtask thoroughly.'')
       ''mini'' None [] None ''hivekernel_sdk.worker:WorkerAgent'' ''python'') (\<lambda>p.
     seq (sys_log env ''info'' (''Spawned worker-'' @ str_nat (Suc i) @ '' as PID '' @ str_int p @
        '' for group '' @ [CHR 0x27] @ g_name g @ [CHR 0x27]) []) (ret p))"

definition total_subtasks :: "group list \<Rightarrow> nat" where
  "total_subtasks groups = sum_list (map (length \<circ> g_subtasks) groups)"

definition announce_groups :: "env \<Rightarrow> group list \<Rightarrow> ('z world_scheme, unit) eff" where
  "announce_groups env groups =
     seq (sys_log env ''info'' (''Decomposed into '' @ str_nat (length groups) @ '' groups ('' @
            str_nat (total_subtasks groups) @ '' subtasks)'') [])
     (seq (foreach (\<lambda>g. sys_log env ''info'' (''  Group '' @ [CHR 0x27] @ g_name g @ [CHR 0x27] @ '': '' @
            str_nat (length (g_subtasks g)) @ '' subtask(s)'') []) groups)
     (report_progress (''Spawning '' @ str_nat (length groups) @ '' workers...'') 15))"

definition findings_text :: "sub_result list \<Rightarrow> string" where
  "findings_text rs = join [line_break, line_break] (map (\<lambda>r. ''### ['' @ sr_group r @ ''] '' @ sr_subtask r @
     [line_break] @ sr_output r) (filter sr_ok rs))"

definition synthesis_prompt :: "string \<Rightarrow> sub_result list \<Rightarrow> string" where
  "synthesis_prompt description rs =
     ''You have completed subtasks for the following main task:'' @ [line_break, line_break] @
     ''**Task:** '' @ description @ [line_break, line_break] @ ''Results from each subtask:'' @
     [line_break, line_break] @ findings_text rs @ [line_break, line_break] @
     ''Synthesize everything into a single cohesive, well-structured response. '' @
     ''Include key points and a brief conclusion.''"

text \<open>\<open>json.dumps(..., indent=2)\<close>, with \<open>ensure_ascii\<close> as its first argument.\<close>

definition margin :: "nat \<Rightarrow> string" where
  "margin lvl = line_break # replicate (2 * lvl) (CHR '' '')"

fun dumps_indent :: "bool \<Rightarrow> nat \<Rightarrow> json \<Rightarrow> string" where
  "dumps_indent ea lvl (JList xs) = (if xs = [] then ''[]'' else ''['' @
     join '','' (map (\<lambda>x. margin (Suc lvl) @ dumps_indent ea (Suc lvl) x) xs) @ margin lvl @ '']'')"
| "dumps_indent ea lvl (JObj kvs) = (if kvs = [] then ''{}'' else ''{'' @
     join '','' (map (\<lambda>(k, v). margin (Suc lvl) @ json_quote ea k @ '': '' @ dumps_indent ea (Suc lvl) v) kvs) @
     margin lvl @ ''}'')"
| "dumps_indent ea lvl j = dumps ea j"

definition result_json :: "sub_result \<Rightarrow> json" where
  "result_json r = JObj [(''subtask'', JStr (sr_subtask r)), (''worker_pid'', JInt (sr_worker_pid r)),
     (''group'', JStr (sr_group r)), (''output'', JStr (sr_output r)),
     (''status'', JStr (if sr_ok r then ''ok'' else ''error'')), (''tokens'', JStr (sr_tokens r))]"

definition report_json :: "string \<Rightarrow> group list \<Rightarrow> sub_result list \<Rightarrow> json \<Rightarrow> int \<Rightarrow> int \<Rightarrow> nat \<Rightarrow> json" where
  "report_json description groups rs report own worker_tokens n_spawned =
     JObj [(''task'', JStr description),
       (''groups'', JList (map (\<lambda>g. JObj [(''name'', JStr (g_name g)), (''subtasks'', JList (map JStr (g_subtasks g)))]) groups)),
       (''results'', JList (map result_json rs)), (''synthesis'', report),
       (''total_tokens'', JInt (own + worker_tokens)), (''orchestrator_tokens'', JInt own),
       (''worker_tokens'', JInt worker_tokens), (''workers_spawned'', JInt (int n_spawned)),
       (''groups_count'', JInt (int (length groups))), (''subtasks_total'', JInt (int (total_subtasks groups))),
       (''workers_reused'', JInt (int (length (filter (\<lambda>g. length (g_subtasks g) > 1) groups))))]"

definition sum_tokens :: "sub_result list \<Rightarrow> exn + int" where
  "sum_tokens rs = (case those (map (parse_int \<circ> sr_tokens) rs) of
      None \<Rightarrow> Inl (ValueError ''invalid literal for int() with base 10'') | Some ns \<Rightarrow> Inr (sum_list ns))"

text \<open>The delegation of the subtasks, the synthesis and the stored report.\<close>

definition delegate :: "env \<Rightarrow> nat list \<Rightarrow> string \<Rightarrow> string \<Rightarrow> group list \<Rightarrow> pid list \<Rightarrow>
    ('z llm_agent_scheme, json \<times> int) eff" where
  "delegate env sched trace_id description groups worker_pids =
     seq (report_progress ''Delegating subtasks...'' 25)
     (bnd (gather_groups env trace_id (total_subtasks groups) sched (zip groups worker_pids)) (\<lambda>group_results.
     let rs = concat group_results in
     seq (report_progress ''Synthesizing results...'' 80)
     (bnd (ask env (synthesis_prompt description rs) [] 4096 ''0.5'') (\<lambda>report.
     seq (report_progress ''Storing results...'' 90)
     (bnd (lift_sum (sum_tokens rs)) (\<lambda>worker_tokens. bnd get_llm (\<lambda>c.
     seq (sys_store_artifact env (''result-'' @ take 40 (replace_all '' '' ''-'' (lower description)))
        (utf8_encode (dumps_indent False 0 (report_json description groups rs report (total_tokens c) worker_tokens
           (length worker_pids)))) ''application/json'' 3)
     (ret (report, worker_tokens)))))))))"

text \<open>From the spawning of the workers to the stored report.\<close>

definition work :: "env \<Rightarrow> nat list \<Rightarrow> string \<Rightarrow> string \<Rightarrow> group list \<Rightarrow>
    ('z llm_agent_scheme, pid list \<times> json \<times> int) eff" where
  "work env sched trace_id description groups =
     seq (announce_groups env groups)
     (bnd (mapeff (\<lambda>(i, g). spawn_worker env i g) (enumerate 0 groups)) (\<lambda>worker_pids.
     bnd (delegate env sched trace_id description groups worker_pids) (\<lambda>(report, worker_tokens).
     ret (worker_pids, report, worker_tokens))))"

definition kill_safe :: "env \<Rightarrow> pid \<Rightarrow> ('z world_scheme, unit) eff" where
  "kill_safe env p = tryc (seq (sys_kill env p True) (ret ())) (\<lambda>_. ret ())"

text \<open>A report that is no string makes the task fail when its result is put on the stream.\<close>

definition task_outcome :: "env \<Rightarrow> group list \<Rightarrow> json \<Rightarrow> int \<Rightarrow> ('z llm_agent_scheme, task_result) eff" where
  "task_outcome env groups report worker_tokens = bnd get_llm (\<lambda>c.
     let tokens = str_int (total_tokens c + worker_tokens);
         reused = str_nat (length (filter (\<lambda>g. length (g_subtasks g) > 1) groups)) in
     seq (sys_log env ''info'' (''Orchestrator done. '' @ str_nat (length groups) @ '' groups, '' @
            str_nat (total_subtasks groups) @ '' subtasks, '' @ reused @ '' workers reused, '' @
            tokens @ '' tokens total'') [])
     (bnd (lift_sum (result_text report)) (\<lambda>out. ret (TaskResult 0 out [(''total_tokens'', tokens)]
          [(''subtasks_count'', str_nat (total_subtasks groups)), (''groups_count'', str_nat (length groups)),
           (''workers_reused'', reused)]))))"

definition finish_task :: "env \<Rightarrow> group list \<Rightarrow> pid list \<times> json \<times> int \<Rightarrow> ('z llm_agent_scheme, task_result) eff" where
  "finish_task env groups = (\<lambda>(worker_pids, report, worker_tokens).
     seq (foreach (kill_safe env) worker_pids) (task_outcome env groups report worker_tokens))"

text \<open>The trace id, and the groups.\<close>

definition orch_start :: "env \<Rightarrow> task \<Rightarrow> string \<Rightarrow> int \<Rightarrow> ('z llm_agent_scheme, string \<times> group list) eff" where
  "orch_start env task description max_workers =
     (let t = dget (tk_params task) ''trace_id'' [] in
      bnd (if t \<noteq> [] then ret t else uuid4 env) (\<lambda>trace_id.
      seq (sys_log env ''info'' (''Orchestrator starting: '' @ take 80 description) [])
      (seq (report_progress ''Analyzing task...'' 5)
      (bnd (plan_groups env (dget (tk_params task) ''plan'' []) description max_workers) (\<lambda>groups.
       ret (trace_id, groups))))))"

definition orch_handle_task :: "env \<Rightarrow> nat list \<Rightarrow> task \<Rightarrow> ('z llm_agent_scheme, task_result) eff" where
  "orch_handle_task env sched task =
     (let description = dget (tk_params task) ''task'' (tk_description task) in
      bnd (of_opt (ValueError ''invalid literal for int() with base 10'')
             (parse_int (dget (tk_params task) ''max_workers'' ''3''))) (\<lambda>n.
      bnd (orch_start env task description (min n MAX_WORKERS)) (\<lambda>(trace_id, groups).
        if groups = [] then ret (TaskResult 1 ''Failed to decompose task into subtasks'' [] [])
        else bnd (work env sched trace_id description groups) (finish_task env groups))))"

section \<open>Groups run to their end under every schedule\<close>

definition steps_left :: "group_run \<Rightarrow> nat" where
  "steps_left g = 3 * length (gr_todo g) - (case gr_phase g of AtExecute \<Rightarrow> 0 | AtErrorLog _ \<Rightarrow> 1 | AtReport \<Rightarrow> 2)"

definition group_ok :: "group_run \<Rightarrow> bool" where
  "group_ok g \<longleftrightarrow>
     (if gr_phase g = AtExecute then map sr_subtask (gr_results g) @ gr_todo g = g_subtasks (gr_group g)
      else gr_todo g \<noteq> [] \<and> map sr_subtask (gr_results g) @ tl (gr_todo g) = g_subtasks (gr_group g)) \<and>
     (\<forall>r \<in> set (gr_results g). sr_worker_pid r = gr_pid g \<and> sr_group r = g_name (gr_group g))"

definition stepped :: "nat \<Rightarrow> group_run \<Rightarrow> group_run \<Rightarrow> bool" where
  "stepped n g g' \<longleftrightarrow> group_ok g' \<and> gr_group g' = gr_group g \<and> gr_pid g' = gr_pid g \<and>
     steps_left g' \<le> steps_left g - n"

text \<open>An environment whose log service does not fail.\<close>

definition logs_ok :: "env \<Rightarrow> bool" where
  "logs_ok env \<longleftrightarrow> (\<forall>h. e_log env h = Inr ())"

lemma logs_ok_simp: "logs_ok env \<Longrightarrow> e_log env h = Inr ()"
  by (simp add: logs_ok_def)

lemma wp_group_step:
  assumes "group_ok g"
  shows "wp (group_step env tid n c g) (\<lambda>(_, g') _. stepped 1 g g') (\<lambda>_ _. \<not> logs_ok env) s"
proof (cases "gr_todo g")
  case Nil
  then show ?thesis using assms
    by (simp add: group_step_def wp_simps stepped_def group_ok_def steps_left_def split: if_splits)
next
  case (Cons st rest)
  show ?thesis
  proof (cases "gr_phase g")
    case AtExecute
    have "wp (sys_execute_on env p d ps 0) Q E s" if "\<And>v t. Q v t" "\<And>e t. E e t" for p d ps Q E
      using that by (rule wp_always)
    then show ?thesis using assms Cons AtExecute
      by (auto simp: group_step_def wp_simps stepped_def group_ok_def steps_left_def subtask_result_def)
  next
    case (AtErrorLog msg)
    then show ?thesis using assms Cons
      by (auto simp: group_step_def wp_simps sys_log_def stepped_def group_ok_def steps_left_def Let_def logs_ok_simp
          split: sum.splits)
  next
    case AtReport
    then show ?thesis using assms Cons
      by (auto simp: group_step_def wp_simps report_progress_def stepped_def group_ok_def steps_left_def)
  qed
qed

lemma stepped_trans: "stepped m g g' \<Longrightarrow> stepped n g' g'' \<Longrightarrow> stepped (m + n) g g''"
  by (auto simp: stepped_def)

lemma stepped_refl: "group_ok g \<Longrightarrow> stepped 0 g g"
  by (simp add: stepped_def)

definition advanced :: "nat list \<Rightarrow> group_run list \<Rightarrow> group_run list \<Rightarrow> bool" where
  "advanced sched gs gs' \<longleftrightarrow> length gs' = length gs \<and>
     (\<forall>i < length gs. stepped (count_list sched i) (gs ! i) (gs' ! i))"

lemma advanced_step:
  assumes "\<forall>g \<in> set gs. group_ok g" "i < length gs" "stepped 1 (gs ! i) g" "advanced sched (gs[i := g]) gs'"
  shows "advanced (i # sched) gs gs'"
  unfolding advanced_def
proof (intro conjI allI impI)
  show "length gs' = length gs" using assms(4) by (simp add: advanced_def)
  fix j assume j: "j < length gs"
  then have "stepped (count_list sched j) (gs[i := g] ! j) (gs' ! j)" using assms(4) by (simp add: advanced_def)
  then show "stepped (count_list (i # sched) j) (gs ! j) (gs' ! j)"
    using stepped_trans[OF assms(3)] j by (cases "i = j") auto
qed

lemma wp_run_schedule:
  fixes s :: "'z world_scheme"
  shows "\<forall>g \<in> set gs. group_ok g \<Longrightarrow>
   wp (run_schedule env tid n sched c gs) (\<lambda>(_, gs') _. advanced sched gs gs') (\<lambda>_ _. \<not> logs_ok env) s"
proof (induction sched arbitrary: c gs s)
  case Nil
  then show ?case by (auto simp: wp_simps advanced_def intro: stepped_refl)
next
  case (Cons i sched c gs s)
  show ?case
  proof (cases "i < length gs")
    case True
    have "wp (case r of (c', g) \<Rightarrow> run_schedule env tid n sched c' (gs[i := g]))
        (\<lambda>(_, gs') _. advanced (i # sched) gs gs') (\<lambda>_ _. \<not> logs_ok env) t"
      if "case r of (_, g) \<Rightarrow> stepped 1 (gs ! i) g" for r and t :: "'z world_scheme"
    proof -
      obtain c' g where r: "r = (c', g)" by fastforce
      have "\<forall>x \<in> set (gs[i := g]). group_ok x"
        using Cons.prems that r by (auto simp: stepped_def dest!: subsetD[OF set_update_subset_insert])
      moreover have "stepped 1 (gs ! i) g" using that r by simp
      ultimately show ?thesis unfolding r prod.case
        by (intro wp_mono[OF Cons.IH]) (auto intro: advanced_step[OF Cons.prems True])
    qed
    moreover have "group_ok (gs ! i)" using Cons.prems True by simp
    ultimately show ?thesis using True
      by (simp add: wp_bnd) (rule wp_mono[OF wp_group_step]; auto split: prod.splits)
  next
    case False
    have "wp (run_schedule env tid n sched c gs) (\<lambda>(_, gs') _. advanced (i # sched) gs gs') (\<lambda>_ _. \<not> logs_ok env) s"
      by (rule wp_mono[OF Cons.IH[OF Cons.prems]]) (use False in \<open>auto simp: advanced_def\<close>)
    with False show ?thesis by simp
  qed
qed

lemma count_list_concat_replicate:
  "count_list (concat (map (\<lambda>(j, g). replicate (f g) j) (enumerate k gs))) i =
   (if k \<le> i \<and> i < k + length gs then f (gs ! (i - k)) else 0)"
proof (induction gs arbitrary: k)
  case (Cons g gs)
  have rep: "count_list (replicate n k) i = (if k = i then n else 0)" for n
    by (induction n) auto
  show ?case using Cons.IH[of "Suc k"] by (auto simp: rep nth_Cons' not_less_eq_eq)
qed simp

lemma steps_left_0: "group_ok g \<Longrightarrow> steps_left g = 0 \<Longrightarrow> gr_todo g = [] \<and> gr_phase g = AtExecute"
  by (cases "gr_todo g"; cases "gr_phase g") (auto simp: group_ok_def steps_left_def)

definition group_results_ok :: "group \<times> pid \<Rightarrow> sub_result list \<Rightarrow> bool" where
  "group_results_ok gp rs \<longleftrightarrow> map sr_subtask rs = g_subtasks (fst gp) \<and>
     (\<forall>r \<in> set rs. sr_worker_pid r = snd gp \<and> sr_group r = g_name (fst gp))"

lemma finished_results:
  assumes "group_ok g'" "steps_left g' = 0" "gr_group g' = fst gp" "gr_pid g' = snd gp"
  shows "group_results_ok gp (gr_results g')"
  using assms steps_left_0[OF assms(1,2)] by (auto simp: group_results_ok_def group_ok_def)

lemma wp_gather_groups:
  "wp (gather_groups env tid n sched gps)
     (\<lambda>rss _. list_all2 group_results_ok gps rss) (\<lambda>_ _. \<not> logs_ok env) s"
proof -
  have start: "\<forall>g \<in> set (map start_group gps). group_ok g"
    by (auto simp: start_group_def group_ok_def)
  have close: "wp (run_schedule env tid n (closing_schedule gs) c gs)
      (\<lambda>(_, gs') _. list_all2 group_results_ok gps (map gr_results gs')) (\<lambda>_ _. \<not> logs_ok env) t"
    if adv: "advanced sched (map start_group gps) gs" for c gs t
  proof -
    have ok: "\<forall>g \<in> set gs. group_ok g" using adv by (auto simp: advanced_def stepped_def in_set_conv_nth)
    have "list_all2 group_results_ok gps (map gr_results gs')"
      if "advanced (closing_schedule gs) gs gs'" for gs'
    proof (rule list_all2_all_nthI)
      show "length gps = length (map gr_results gs')" using adv that by (simp add: advanced_def)
      fix i assume i: "i < length gps"
      then have "stepped (count_list sched i) (start_group (gps ! i)) (gs ! i)"
        and "stepped (3 * length (gr_todo (gs ! i))) (gs ! i) (gs' ! i)"
        using adv that by (auto simp: advanced_def closing_schedule_def count_list_concat_replicate)
      moreover from this have "steps_left (gs' ! i) = 0" by (auto simp: stepped_def steps_left_def)
      ultimately have "group_results_ok (gps ! i) (gr_results (gs' ! i))"
        by (intro finished_results) (auto simp: stepped_def start_group_def)
      then show "group_results_ok (gps ! i) (map gr_results gs' ! i)"
        using i adv that by (simp add: advanced_def)
    qed
    then show ?thesis by (intro wp_mono[OF wp_run_schedule[OF ok]]) auto
  qed
  show ?thesis unfolding gather_groups_def wp_bnd
    by (rule wp_mono[OF wp_run_schedule[OF start]])
      (auto simp: wp_simps split_beta intro!: wp_mono[OF close])
qed

section \<open>Workers spawned and workers killed\<close>

lemma keeps_group_step: "keeps (workers env) (group_step env' tid n c g)"
  by (cases "gr_todo g"; cases "gr_phase g") (simp_all add: group_step_def keeps_rules)

lemma keeps_run_schedule: "keeps (workers env) (run_schedule env' tid n sched c gs)"
  by (induction sched arbitrary: c gs) (auto intro!: keeps_rules keeps_group_step)

lemma keeps_planning:
  "keeps (workers env) (announce_groups env' groups)" "keeps (workers env) (plan_groups env' plan d m)"
  "keeps (workers env) (gather_groups env' tid n sched gps)"
proof -
  show "keeps (workers env) (announce_groups env' groups)"
    unfolding announce_groups_def by (intro keeps_rules)
  have "keeps (workers env) (decompose_and_group env' d m)"
    unfolding decompose_and_group_def
    by (intro keeps_rules llm_free_workers) (simp split: json.split add: keeps_rules)
  then show "keeps (workers env) (plan_groups env' plan d m)"
    unfolding plan_groups_def by (intro keeps_rules)
  show "keeps (workers env) (gather_groups env' tid n sched gps)"
    unfolding gather_groups_def by (intro keeps_rules keeps_run_schedule)
qed

lemma wp_spawn_worker:
  "wp (spawn_worker env i g)
     (\<lambda>p t. workers env t = (spawned env (trace s) @ [p], kills (trace s))) (\<lambda>_ t. kills (trace t) = kills (trace s)) s"
  unfolding spawn_worker_def wp_bnd wp_seq wp_ret
  by (rule wp_mono[OF wp_sys_spawn])
    (auto intro!: wp_keeps[OF keeps_workers(1)[of env]] simp: workers_def)

lemma wp_spawn_workers:
  "wp (mapeff (\<lambda>(i, g). spawn_worker env i g) xs)
     (\<lambda>ps t. workers env t = (spawned env (trace s) @ ps, kills (trace s)))
     (\<lambda>_ t. kills (trace t) = kills (trace s)) s"
proof (induction xs arbitrary: s)
  case Nil
  then show ?case by (simp add: wp_simps workers_def)
next
  case (Cons x xs)
  obtain i g where x: "x = (i, g)" by fastforce
  show ?case unfolding x mapeff.simps wp_bnd wp_ret prod.case
    by (rule wp_mono[OF wp_spawn_worker])
      (auto intro!: wp_mono[OF Cons.IH] simp: workers_def)
qed

lemma keeps_delegate: "keeps (workers env) (delegate env' sched tid d groups ps)"
  unfolding delegate_def Let_def by (intro keeps_rules llm_free_workers keeps_planning)

text \<open>Until the report is stored no worker is killed; a value means every worker is known.\<close>

lemma wp_work:
  "wp (work env sched tid d groups)
     (\<lambda>(ps, _, _) t. workers env t = (spawned env (trace s) @ ps, kills (trace s)))
     (\<lambda>_ t. kills (trace t) = kills (trace s)) s"
  unfolding work_def wp_seq wp_bnd
  apply (rule wp_keeps[OF keeps_planning(1)[of env]])
   apply (rule wp_mono[OF wp_spawn_workers])
    apply (rule wp_keeps[OF keeps_delegate[of env]])
     apply (auto simp: workers_def wp_ret)
  done

lemma wp_kill_safe:
  "wp (kill_safe env p) (\<lambda>_ t. workers env' t = (spawned env' (trace s), kills (trace s) @ [p])) E s"
  by (auto simp: kill_safe_def sys_kill_def wp_simps Let_def workers_def spawn_answer_def split: sum.splits)

lemma wp_kill_all:
  "wp (foreach (kill_safe env) ps) (\<lambda>_ t. workers env' t = (spawned env' (trace s), kills (trace s) @ ps)) E s"
proof (induction ps arbitrary: s)
  case (Cons p ps)
  show ?case unfolding foreach.simps wp_seq
    by (rule wp_mono[OF wp_kill_safe[of _ _ env']]) (auto intro!: wp_mono[OF Cons.IH] simp: workers_def)
qed (simp add: wp_simps workers_def)

lemma wp_finish_task:
  "wp (finish_task env groups (ps, report, wt))
     (\<lambda>_ t. workers env t = (spawned env (trace s), kills (trace s) @ ps)) (\<lambda>_ _. True) s"
proof -
  have "keeps (workers env) (task_outcome env groups report wt)"
    unfolding task_outcome_def Let_def by (intro keeps_rules llm_free_workers)
  then show ?thesis unfolding finish_task_def prod.case wp_seq
    by (intro wp_mono[OF wp_kill_all[of _ _ env]]) (auto intro!: wp_keeps[of "workers env"] simp: workers_def)
qed

section \<open>Subtasks of a parsed plan\<close>

definition no_empty_subtask :: "group list \<Rightarrow> bool" where
  "no_empty_subtask gs \<longleftrightarrow> [] \<notin># all_subtasks gs"

lemma no_empty_subtask_simps [simp]:
  "no_empty_subtask []" "no_empty_subtask (xs @ ys) \<longleftrightarrow> no_empty_subtask xs \<and> no_empty_subtask ys"
  "no_empty_subtask (g # gs) \<longleftrightarrow> [] \<notin> set (g_subtasks g) \<and> no_empty_subtask gs"
  by (auto simp: no_empty_subtask_def)

lemma strip_Nil [simp]: "strip [] = []"
  by (simp add: strip_eq_Nil)

lemma valid_groups_ok: "no_empty_subtask acc \<Longrightarrow> no_empty_subtask (valid_groups gs acc)"
proof (induction gs acc rule: valid_groups.induct)
  case (2 g gs acc)
  have "[] \<notin> set (filter (\<lambda>t. strip t \<noteq> []) xs)" for xs by auto
  with 2 show ?case by (auto simp del: filter.simps list.map split: json.splits list.splits)
qed auto

lemma from_object_ok: "no_empty_subtask (from_object data)"
  by (auto simp: from_object_def valid_groups_ok split: json.splits option.splits)

lemma task_groups_ok: "(\<And>i x. (i, x) \<in> set ixs \<Longrightarrow> f x \<noteq> []) \<Longrightarrow>
    no_empty_subtask (map (\<lambda>(i, x). task_group i (f x)) ixs)"
  by (induction ixs) (fastforce simp: task_group_def)+

lemma from_list_ok: "no_empty_subtask (from_list data)"
  unfolding from_list_def by (cases data) (auto intro!: task_groups_ok)

lemma in_set_enumerate: "(i, x) \<in> set (enumerate n xs) \<Longrightarrow> x \<in> set xs"
  by (induction xs arbitrary: n) auto

lemma from_lines_ok: "no_empty_subtask (from_lines raw)"
  unfolding from_lines_def by (rule task_groups_ok[of _ "\<lambda>x. x"]) (auto dest: in_set_enumerate)

section \<open>Properties\<close>

text \<open>
  Capping loses no work: for every positive number of workers the capped plan has at
  most that many groups, keeps the names of the first ones, and contains exactly the
  subtasks of the original plan, each as often as before.
\<close>

theorem cap_groups_keeps_subtasks:
  assumes "0 < max_workers"
  shows "\<exists>gs. cap_groups groups max_workers = Inr gs \<and> length gs = min (length groups) (nat max_workers) \<and>
    map g_name gs = take (nat max_workers) (map g_name groups) \<and>
    mset (concat (map g_subtasks gs)) = mset (concat (map g_subtasks groups))"
  using cap_groups_ok[OF assms] by (simp add: all_subtasks_def)

theorem cap_groups_keeps_subtasks_witness:
  "\<exists>gs. cap_groups [task_group 0 ''a'', task_group 1 ''b'', task_group 2 ''c''] 2 = Inr gs \<and> length gs = 2 \<and>
     mset (concat (map g_subtasks gs)) = {#''a'', ''b'', ''c''#}"
  using cap_groups_keeps_subtasks[of 2 "[task_group 0 ''a'', task_group 1 ''b'', task_group 2 ''c'']"]
  by (auto simp: task_group_def)

text \<open>
  Whatever text the LLM or the Architect produced, parsing it for a positive number of
  workers does not raise, gives at most that many groups, and no subtask is the empty
  string.
\<close>

theorem parse_groups_bounded:
  assumes "0 < max_workers"
  shows "\<exists>gs. parse_groups raw max_workers = Inr gs \<and> length gs \<le> nat max_workers \<and>
    (\<forall>g \<in> set gs. [] \<notin> set (g_subtasks g))"
proof -
  have cap: "\<exists>gs. cap_groups groups max_workers = Inr gs \<and> length gs \<le> nat max_workers \<and>
      (\<forall>g \<in> set gs. [] \<notin> set (g_subtasks g))" if "no_empty_subtask groups" for groups
  proof -
    obtain gs where gs: "cap_groups groups max_workers = Inr gs" "length gs \<le> nat max_workers"
      "all_subtasks gs = all_subtasks groups" using cap_groups_ok[OF assms, of groups] by auto
    then have "no_empty_subtask gs" using that by (simp add: no_empty_subtask_def)
    then have "\<forall>g \<in> set gs. [] \<notin> set (g_subtasks g)" by (induction gs) auto
    with gs show ?thesis by blast
  qed
  show ?thesis unfolding parse_groups_def
    by (auto split: option.splits intro!: cap from_object_ok from_list_ok from_lines_ok)
qed

theorem parse_groups_bounded_witness:
  "\<exists>gs. parse_groups ''1. write code'' 3 = Inr gs \<and> length gs \<le> 3"
  using parse_groups_bounded[of 3 "''1. write code''"] by auto



text \<open>
  C15.  A task that the Orchestrator completes leaves no worker behind: the pids it sends a
  kill for are exactly the pids the kernel gave it for its spawns, in the same order,
  under every schedule and whether or not the kills succeed.
\<close>

theorem orchestrator_kills_every_worker:
  fixes s :: "'a llm_agent_scheme"
  assumes "result (orch_handle_task env sched task) s = Inr r"
  shows "\<exists>ps. spawned env (trace (final (orch_handle_task env sched task) s)) = spawned env (trace s) @ ps \<and>
    kills (trace (final (orch_handle_task env sched task) s)) = kills (trace s) @ ps"
proof -
  let ?Q = "\<lambda>_ t. \<exists>ps. workers env t = (spawned env (trace s) @ ps, kills (trace s) @ ps)"
  have groups: "wp (if groups = [] then ret (TaskResult 1 ''Failed to decompose task into subtasks'' [] [])
        else bnd (work env sched tid d groups) (finish_task env groups)) ?Q (\<lambda>_ _. True) t"
    if "workers env t = workers env s" for groups tid d t
  proof (cases "groups = []")
    case False
    have "wp (finish_task env groups (ps, rep, wt)) ?Q (\<lambda>_ _. True) u"
      if "workers env u = (spawned env (trace s) @ ps, kills (trace s))" for ps rep wt u
      by (rule wp_mono[OF wp_finish_task]) (use that in \<open>auto simp: workers_def\<close>)
    then have "wp (work env sched tid d groups) (\<lambda>v. wp (finish_task env groups v) ?Q (\<lambda>_ _. True)) (\<lambda>_ _. True) t"
      by (intro wp_mono[OF wp_work]) (use that in \<open>auto simp: workers_def\<close>)
    with False show ?thesis by (simp add: wp_bnd)
  qed (use that in \<open>auto simp: wp_simps workers_def\<close>)
  have start: "keeps (workers env) (orch_start env task d m)" for d m
    unfolding orch_start_def Let_def by (intro keeps_rules keeps_planning)
  have "wp (orch_start env task d m) (\<lambda>(tid, groups). wp (if groups = []
        then ret (TaskResult 1 ''Failed to decompose task into subtasks'' [] [])
        else bnd (work env sched tid d groups) (finish_task env groups)) ?Q (\<lambda>_ _. True)) (\<lambda>_ _. True) s" for d m
  proof (rule wp_keeps[OF start])
    fix v :: "string \<times> group list" and t :: "'a llm_agent_scheme"
    assume "workers env t = workers env s"
    from groups[OF this, of "snd v" "fst v" d] show "(case v of (tid, groups) \<Rightarrow> wp (if groups = []
        then ret (TaskResult 1 ''Failed to decompose task into subtasks'' [] [])
        else bnd (work env sched tid d groups) (finish_task env groups)) ?Q (\<lambda>_ _. True)) t"
      by (simp add: split_beta)
  qed simp
  then have "wp (orch_handle_task env sched task) ?Q (\<lambda>_ _. True) s"
    unfolding orch_handle_task_def Let_def wp_bnd wp_of_opt wp_case_prod by (simp split: option.split)
  then show ?thesis using assms
    by (auto simp: wp_def result_def final_def workers_def split: prod.splits sum.splits)
qed

definition example_plan_task :: task where
  "example_plan_task = \<lparr>tk_task_id = ''t'', tk_description = ''d'', tk_params = [(''plan'', ''a'')],
     tk_priority = ''normal'', tk_timeout_seconds = 0, tk_context = [], tk_parent_task_id = []\<rparr>"

abbreviation example_orch_env :: env where
  "example_orch_env \<equiv> answering (dumps False example_answer)"

lemma example_plan: "parse_groups ''a'' 3 = Inr [task_group 0 ''a'']" "parse_int ''3'' = Some 3" "parse_int ''0'' = Some 0"
  by code_simp+

lemma example_logs:
  assumes "\<And>t. llm t = llm s \<Longrightarrow> Q () t"
  shows "wp (sys_log example_orch_env l m f) Q E s" "wp (report_progress x p) Q E s"
  using assms by (auto simp: sys_log_def report_progress_def wp_simps Let_def emit_def simp del: dumps.simps)

lemma example_start:
  "wp (orch_start example_orch_env example_plan_task d 3)
     (\<lambda>v t. v = (''id'', [task_group 0 ''a'']) \<and> llm t = llm s) E s"
  by (simp add: orch_start_def plan_groups_def example_plan_task_def wp_simps example_plan Let_def del: dumps.simps)
    (intro example_logs; simp add: emit_def)

lemma str_nat_one: "str_nat (Suc 0) = ''1''"
  by code_simp

lemma example_gather:
  "wp (gather_groups example_orch_env tid 1 [] [(task_group 0 ''a'', 7)])
     (\<lambda>v t. v = [[\<lparr>sr_subtask = ''a'', sr_worker_pid = 7, sr_group = ''task-1'', sr_output = ''done'', sr_ok = True,
        sr_tokens = ''0''\<rparr>]] \<and> llm t = llm s) E s"
  by (simp add: gather_groups_def closing_schedule_def start_group_def task_group_def group_step_def wp_simps
      sys_execute_on_def subtask_result_def TaskResult_def report_progress_def numeral_3_eq_3 emit_def str_nat_one
      del: dumps.simps str_nat.simps)

lemma example_ask:
  "llm s = Some c \<Longrightarrow> wp (ask example_orch_env p m mt tmp) (\<lambda>v t. v = JStr ''hello'' \<and> llm t \<noteq> None) (\<lambda>_ _. False) s"
  unfolding ask_def complete_def wp_bnd wp_gets by (rule example_chat)

lemma example_delegate:
  fixes s :: "'a llm_agent_scheme"
  assumes "llm s = Some c"
  shows "wp (delegate example_orch_env [] tid d [task_group 0 ''a''] [7])
    (\<lambda>(rep, _) t. rep = JStr ''hello'' \<and> llm t \<noteq> None) (\<lambda>_ _. False) s"
proof -
  have n: "total_subtasks [task_group 0 ''a''] = 1" by (simp add: total_subtasks_def task_group_def)
  have z: "zip [task_group 0 ''a''] [7] = [(task_group 0 ''a'', 7)]" by simp
  have store: "wp (sys_store_artifact example_orch_env k b ct v) Q E t"
    if "\<And>x u. llm u = llm t \<Longrightarrow> Q x u" for k b ct v t E and Q :: "string \<Rightarrow> 'a llm_agent_scheme \<Rightarrow> bool"
    using that by (auto simp: sys_store_artifact_def wp_simps Let_def emit_def simp del: dumps.simps)
  show ?thesis unfolding delegate_def n Let_def wp_seq wp_bnd
    apply (rule example_logs(2))
    apply (subst z, rule wp_mono[OF example_gather])
     apply (erule conjE, rule example_logs(2), rule wp_mono[OF example_ask[where c = c]])
       apply (use assms in simp)
      apply (erule conjE, rule example_logs(2))
      apply (auto simp: wp_simps sum_tokens_def example_plan get_llm_def simp del: dumps.simps intro!: store)
    done
qed

lemma example_work:
  assumes "llm s = Some c"
  shows "wp (work example_orch_env [] tid d [task_group 0 ''a''])
    (\<lambda>(_, rep, _) t. rep = JStr ''hello'' \<and> llm t \<noteq> None) (\<lambda>_ _. False) s"
proof -
  have spawn: "wp (spawn_worker example_orch_env i g) (\<lambda>p t. p = 7 \<and> llm t = llm u) (\<lambda>_ _. False) u" for i g u
    by (auto simp: spawn_worker_def sys_spawn_def wp_simps Let_def emit_def simp del: dumps.simps intro!: example_logs(1))
  have announce: "wp (announce_groups example_orch_env gs) (\<lambda>_ t. llm t = llm u) (\<lambda>_ _. False) u" for gs u
    unfolding announce_groups_def wp_seq
    by (rule example_logs) (rule wp_mono[OF wp_foreach[where I = "\<lambda>t. llm t = llm u"]];
      auto intro!: example_logs simp del: dumps.simps)
  show ?thesis unfolding work_def wp_seq wp_bnd
    apply (rule wp_mono[OF announce])
     apply (simp add: wp_bnd del: dumps.simps)
     apply (rule wp_mono[OF spawn])
      apply (use assms in \<open>auto simp: wp_simps simp del: dumps.simps intro!: wp_mono[OF example_delegate[where c = c]]\<close>)
    done
qed

lemma example_orchestration:
  "\<exists>r. result (orch_handle_task example_orch_env [] example_plan_task) example_llm_agent = Inr r"
proof -
  have finish: "wp (finish_task example_orch_env gs (ps, JStr ''hello'', wt)) (\<lambda>_ _. True) (\<lambda>_ _. False) t"
    if "llm t \<noteq> None" for gs ps wt t
    unfolding finish_task_def task_outcome_def prod.case wp_seq
    by (rule wp_mono[OF wp_foreach[where I = "\<lambda>t. llm t \<noteq> None" and E = "\<lambda>_ _. False"]])
      (use that in \<open>auto simp: kill_safe_def sys_kill_def wp_simps Let_def emit_def get_llm_def result_text_def
        simp del: dumps.simps intro!: example_logs(1)\<close>)
  have "wp (orch_handle_task example_orch_env [] example_plan_task) (\<lambda>_ _. True) (\<lambda>_ _. False) example_llm_agent"
    unfolding orch_handle_task_def Let_def wp_bnd wp_of_opt
    apply (simp add: example_plan_task_def[THEN arg_cong[where f = tk_params]] example_plan MAX_WORKERS_def
        del: dumps.simps)
    apply (rule wp_mono[OF example_start])
     apply (auto simp: wp_simps example_llm_agent_def simp del: dumps.simps
        intro!: wp_mono[OF example_work[where c = "LLMClient ''k'' []"]] wp_mono[OF finish])
    done
  then show ?thesis by (auto simp: wp_def result_def split: prod.splits sum.splits)
qed

theorem orchestrator_kills_every_worker_witness:
  "\<exists>ps. spawned example_orch_env (trace (final (orch_handle_task example_orch_env [] example_plan_task) example_llm_agent)) = ps \<and>
     kills (trace (final (orch_handle_task example_orch_env [] example_plan_task) example_llm_agent)) = ps"
proof -
  obtain r where "result (orch_handle_task example_orch_env [] example_plan_task) example_llm_agent = Inr r"
    using example_orchestration by blast
  from orchestrator_kills_every_worker[OF this] show ?thesis
    by (simp add: example_llm_agent_def spawned_def kills_def del: dumps.simps)
qed

text \<open>
  A task that fails after its workers were spawned leaves them running: when a later
  spawn, the synthesis, the token count or the store raises, no worker is sent a kill.
\<close>

theorem failed_orchestration_leaks_workers:
  assumes "result (work env sched tid d groups) s = Inl e"
  shows "kills (trace (final (work env sched tid d groups) s)) = kills (trace s)"
  using wp_work[of env sched tid d groups s] assms
  by (auto simp: wp_def result_def final_def split: prod.splits sum.splits)

definition silent_llm_env :: env where
  "silent_llm_env = example_env\<lparr>e_http := \<lambda>_. Inl (OSError ''unreachable'')\<rparr>"

lemma silent_llm_env_simps [simp]:
  "e_http silent_llm_env h = Inl (OSError ''unreachable'')" "e_time silent_llm_env h = 0"
  "e_uuid silent_llm_env h = ''id''" "e_log silent_llm_env h = Inr ()"
  "e_spawn silent_llm_env h = Inr (True, [], 7)"
  "e_exec silent_llm_env h = Inr (True, [], TaskResult 0 ''done'' [] [])"
  by (simp_all add: silent_llm_env_def example_env_def)

lemma silent_delegate:
  "llm u = Some c \<Longrightarrow> wp (delegate silent_llm_env [] ''t'' ''d'' [task_group 0 ''a''] [7]) (\<lambda>_ _. False) (\<lambda>_ _. True) u"
  by (simp add: delegate_def wp_simps report_progress_def total_subtasks_def task_group_def gather_groups_def Let_def
      closing_schedule_def start_group_def group_step_def sys_execute_on_def subtask_result_def TaskResult_def numeral_3_eq_3
      ask_def complete_def chat_def completion_def do_request_def get_llm_def emit_def)

lemma silent_spawn:
  "wp (spawn_worker silent_llm_env i g) (\<lambda>p t. p = 7 \<and> llm t = llm s) (\<lambda>_ _. False) s"
  by (simp add: spawn_worker_def sys_spawn_def sys_log_def wp_simps Let_def emit_def)

lemma silent_announce: "wp (announce_groups silent_llm_env [g]) (\<lambda>_ t. llm t = llm s) (\<lambda>_ _. False) s"
  by (simp add: announce_groups_def sys_log_def report_progress_def wp_simps Let_def emit_def)

lemma silent_work:
  assumes "llm s = Some c"
  shows "wp (work silent_llm_env [] ''t'' ''d'' [task_group 0 ''a''])
     (\<lambda>_ _. False) (\<lambda>_ t. spawned silent_llm_env (trace t) = spawned silent_llm_env (trace s) @ [7]) s"
proof -
  let ?E = "\<lambda>_ t. spawned silent_llm_env (trace t) = spawned silent_llm_env (trace s) @ [7]"
  have d: "wp (delegate silent_llm_env [] ''t'' ''d'' [task_group 0 ''a''] [7]) Q ?E t"
    if "llm t = Some c" "workers silent_llm_env t = (spawned silent_llm_env (trace s) @ [7], k)" for t k Q
    using silent_delegate[OF that(1)] that(2)
      keeps_snd[OF keeps_delegate[of silent_llm_env silent_llm_env "[]" "''t''" "''d''" "[task_group 0 ''a'']" "[7]"], of t]
    by (auto simp: wp_def workers_def split: prod.splits sum.splits)
  have sp: "wp (spawn_worker silent_llm_env 0 (task_group 0 ''a'')) (\<lambda>p t. p = 7 \<and> llm t = Some c \<and>
      workers silent_llm_env t = (spawned silent_llm_env (trace s) @ [7], kills (trace u))) (\<lambda>_ _. False) u"
    if "llm u = Some c" "workers silent_llm_env u = workers silent_llm_env s" for u
    by (rule wp_mono[OF wp_conj[OF silent_spawn wp_spawn_worker]]) (use that in \<open>auto simp: workers_def\<close>)
  have an: "wp (announce_groups silent_llm_env [task_group 0 ''a'']) (\<lambda>_ t. llm t = Some c \<and>
      workers silent_llm_env t = workers silent_llm_env s) (\<lambda>_ _. False) s"
    by (rule wp_mono[OF wp_conj[OF silent_announce wp_keeps[OF keeps_planning(1)]]]) (use assms in auto)
  show ?thesis unfolding work_def wp_seq wp_bnd
    by (rule wp_mono[OF an]) (auto simp: wp_simps intro!: wp_mono[OF sp] d)
qed

theorem failed_orchestration_leaks_workers_witness:
  "spawned silent_llm_env (trace (final (work silent_llm_env [] ''t'' ''d'' [task_group 0 ''a'']) example_llm_agent)) = [7] \<and>
   kills (trace (final (work silent_llm_env [] ''t'' ''d'' [task_group 0 ''a'']) example_llm_agent)) = []"
proof -
  have w: "wp (work silent_llm_env [] ''t'' ''d'' [task_group 0 ''a'']) (\<lambda>_ _. False)
      (\<lambda>_ t. spawned silent_llm_env (trace t) = [7]) example_llm_agent"
    using silent_work[of example_llm_agent "LLMClient ''k'' []"] by (simp add: example_llm_agent_def spawned_def)
  then obtain e where "result (work silent_llm_env [] ''t'' ''d'' [task_group 0 ''a'']) example_llm_agent = Inl e"
    by (auto simp: wp_def result_def split: prod.splits sum.splits)
  from failed_orchestration_leaks_workers[OF this] w show ?thesis
    by (auto simp: wp_def final_def example_llm_agent_def kills_def split: prod.splits sum.splits)
qed

end
