(* ===== verification/PowerTools.thy ===== *)
theory PowerTools
  imports BuiltinTools Orchestrator
begin

text \<open>
  The tools of \<open>power_tools.py\<close>.  \<open>orchestrate\<close> decomposes a task with the agent's LLM, spawns
  a worker for each subtask, runs the subtasks on them and has the LLM combine the results;
  the coroutines of its \<open>gather\<close> make one call each, in the order of the subtasks.
  A completion without text counts as a failed one.
\<close>

section \<open>Decomposition\<close>

definition in_quotes :: "string \<Rightarrow> string" where
  "in_quotes t = [CHR 0x22] @ t @ [CHR 0x22]"

definition orch_prompt :: "json \<Rightarrow> json \<Rightarrow> string" where
  "orch_prompt task mw = ''Decompose this task into '' @ py_str mw @ '' or fewer independent subtasks.'' @ nl @
     ''Task: '' @ py_str task @ nl @ nl @
     ''Return ONLY a JSON array of strings, each being a subtask description.'' @ nl @
     ''Example: ['' @ in_quotes ''subtask 1'' @ '', '' @ in_quotes ''subtask 2'' @ '', '' @ in_quotes ''subtask 3'' @ '']''"

fun rfind_char :: "char \<Rightarrow> string \<Rightarrow> nat option" where
  "rfind_char c [] = None"
| "rfind_char c (d # s) = (case rfind_char c s of Some i \<Rightarrow> Some (Suc i) | None \<Rightarrow> if d = c then Some 0 else None)"

text \<open>\<open>raw[start:end]\<close>, from the first opening to the last closing bracket.\<close>

definition bracketed :: "string \<Rightarrow> string option" where
  "bracketed raw = (case (find_sub ''['' raw, rfind_char (CHR '']'') raw) of
      (Some i, Some j) \<Rightarrow> Some (drop i (take (Suc j) raw))
    | _ \<Rightarrow> None)"

text \<open>The subtasks, or the text of the error result.\<close>

definition orch_subtasks :: "json \<Rightarrow> exn + (string + json list)" where
  "orch_subtasks raw = (case raw of
      JStr t \<Rightarrow> (case bracketed t of
          None \<Rightarrow> Inr (Inl (''LLM did not return valid JSON array for decomposition: '' @ take 200 t))
        | Some b \<Rightarrow> (case loads b of
            None \<Rightarrow> Inl (JSONDecodeError ''Expecting value'')
          | Some (JList (x # xs)) \<Rightarrow> Inr (Inr (x # xs))
          | Some _ \<Rightarrow> Inr (Inl ''Decomposition returned empty or non-list result'')))
    | _ \<Rightarrow> Inl (AttributeError ''object has no attribute find''))"

definition orch_decompose :: "env \<Rightarrow> json \<Rightarrow> json \<Rightarrow> ('z llm_agent_scheme, string + json list) eff" where
  "orch_decompose env task mw = tryc
     (bnd (complete env (orch_prompt task mw) [] [] 1024 ''0.7'') (\<lambda>raw. lift_sum (orch_subtasks raw)))
     (\<lambda>e. ret (Inl (''Decomposition failed: '' @ exn_str e)))"

section \<open>Workers\<close>

text \<open>\<open>subtasks[:max_workers]\<close> for the value the model gave.\<close>

definition slice_json :: "json \<Rightarrow> 'a list \<Rightarrow> exn + 'a list" where
  "slice_json j xs = (case j of
      JInt i \<Rightarrow> Inr (slice_to i xs)
    | JBool b \<Rightarrow> Inr (slice_to (if b then 1 else 0) xs)
    | JNull \<Rightarrow> Inr xs
    | _ \<Rightarrow> Inl (TypeError ''slice indices must be integers or None or have an __index__ method''))"

text \<open>The spawned workers with their subtasks, and the exception that ended the spawning, if any.\<close>

fun orch_spawn :: "env \<Rightarrow> tool_context \<Rightarrow> nat \<Rightarrow> json list \<Rightarrow> (pid \<times> json) list \<Rightarrow>
    ('z world_scheme, (pid \<times> json) list \<times> exn option) eff" where
  "orch_spawn env ctx i [] ws = ret (ws, None)"
| "orch_spawn env ctx i (subtask # rest) ws = bnd (tryc
     (bnd (tool_core ctx ''spawn_child'') (\<lambda>c.
      bnd (spawn_child env c (''orch-worker-'' @ str_nat i) ''task'' ''operational''
        (''Execute this subtask thoroughly: '' @ py_str subtask) ''mini'' None [] None ''hivekernel_sdk.tool_agent:ToolAgent'' ''python'')
      (\<lambda>p. ret (Inr p))))
     (\<lambda>e. ret (Inl e)))
     (\<lambda>r. case r of Inl e \<Rightarrow> ret (ws, Some e) | Inr p \<Rightarrow> orch_spawn env ctx (Suc i) rest (ws @ [(p, subtask)]))"

definition run_subtask :: "env \<Rightarrow> tool_context \<Rightarrow> pid \<times> json \<Rightarrow> ('z world_scheme, string) eff" where
  "run_subtask env ctx w = tryc
     (bnd (tool_core ctx ''execute_task'') (\<lambda>c. bnd (lift_sum (result_text (snd w))) (\<lambda>d.
      bnd (execute_task env c (fst w) d None 120) (\<lambda>r. ret (tr_output r)))))
     (\<lambda>e. ret (''Error: '' @ exn_str e))"

definition orch_kill :: "env \<Rightarrow> tool_context \<Rightarrow> pid \<times> json \<Rightarrow> ('z world_scheme, unit) eff" where
  "orch_kill env ctx w = tryc (bnd (tool_core ctx ''kill_child'') (\<lambda>c. seq (kill_child env c (fst w) True) (ret ()))) (\<lambda>_. ret ())"

definition orch_work :: "env \<Rightarrow> tool_context \<Rightarrow> json list \<Rightarrow> ('z world_scheme, ((pid \<times> json) \<times> string) list) eff" where
  "orch_work env ctx subtasks = bnd (orch_spawn env ctx 0 subtasks []) (\<lambda>(ws, err). case err of
      Some e \<Rightarrow> seq (foreach (orch_kill env ctx) ws) (throw e)
    | None \<Rightarrow> bnd (mapeff (run_subtask env ctx) ws) (\<lambda>outs.
        seq (foreach (orch_kill env ctx) ws) (ret (zip ws outs))))"

section \<open>Synthesis\<close>

fun synthesis_parts :: "nat \<Rightarrow> ((pid \<times> json) \<times> string) list \<Rightarrow> string" where
  "synthesis_parts i [] = []"
| "synthesis_parts i (((p, desc), out) # rs) = ''Subtask '' @ str_nat (Suc i) @ '': '' @ py_str desc @ nl @
     ''Result: '' @ take 2000 out @ nl @ synthesis_parts (Suc i) rs"

definition orch_synthesis_prompt :: "json \<Rightarrow> ((pid \<times> json) \<times> string) list \<Rightarrow> string" where
  "orch_synthesis_prompt task rs = ''Original task: '' @ py_str task @ nl @ nl @ ''Subtask results:'' @ nl @
     synthesis_parts 0 rs @ nl @ ''Synthesize these results into a coherent final answer.''"

definition orch_synthesize :: "env \<Rightarrow> json \<Rightarrow> ((pid \<times> json) \<times> string) list \<Rightarrow> ('z llm_agent_scheme, string) eff" where
  "orch_synthesize env task rs = tryc
     (bnd (complete env (orch_synthesis_prompt task rs) [] [] 2048 ''0.7'') (\<lambda>v. case v of
         JStr t \<Rightarrow> ret t | _ \<Rightarrow> throw (TypeError ''no text'')))
     (\<lambda>e. ret (''Synthesis failed: '' @ exn_str e @ ''. Raw results: '' @ dumps True (JList (map (JStr \<circ> snd) rs))))"

definition OrchestrateTool :: "env \<Rightarrow> 'z llm_agent_scheme tool" where
  "OrchestrateTool env = \<lparr>tl_name = ''orchestrate'',
     tl_description = ''Decompose a complex task into parallel subtasks, spawn workers, '' @
       ''execute them, and synthesize results. Requires LLM access.'',
     tl_parameters = params_schema [schema_prop ''task'' ''string'' ''The task to decompose and execute in parallel'',
       schema_prop ''max_workers'' ''integer'' ''Maximum number of parallel workers (default 3)''] [''task''],
     tl_execute = (\<lambda>ctx args. bnd (gets llm) (\<lambda>c. if c = None
       then ret (ToolResult ''orchestrate requires LLM access (ctx.llm not set)'' True)
       else bnd (lift_sum (index_key ''task'' args)) (\<lambda>task. bnd (lift_sum (get_key ''max_workers'' (JInt 3) args)) (\<lambda>mw.
         bnd (orch_decompose env task mw) (\<lambda>d. case d of
             Inl m \<Rightarrow> ret (ToolResult m True)
           | Inr subtasks \<Rightarrow> bnd (lift_sum (slice_json mw subtasks)) (\<lambda>xs. bnd (orch_work env ctx xs) (\<lambda>rs.
               bnd (orch_synthesize env task rs) (\<lambda>t. ret (ToolResult t False)))))))))\<rparr>"

definition DelegateAsyncTool :: "env \<Rightarrow> 'z world_scheme tool" where
  "DelegateAsyncTool env = \<lparr>tl_name = ''delegate_async'',
     tl_description = ''Send a task to another agent asynchronously (fire-and-forget). '' @
       ''The result will arrive later as a message.'',
     tl_parameters = params_schema [schema_prop ''target_pid'' ''integer'' ''PID of the target agent'',
       schema_prop ''task_description'' ''string'' ''Description of the task to delegate''] [''target_pid'', ''task_description''],
     tl_execute = (\<lambda>ctx args. bnd (lift_sum (index_key ''task_description'' args)) (\<lambda>d.
       bnd (tool_core ctx ''send_message'') (\<lambda>c. bnd (lift_sum (index_key ''target_pid'' args)) (\<lambda>j.
       bnd (lift_sum (result_pid j)) (\<lambda>p.
       bnd (send_message env c p [] ''task_request'' (utf8_encode (dumps True (JObj [(''task'', d)]))) ''normal'' False 0 []) (\<lambda>mid.
         ret (ToolResult (''Task delegated to PID '' @ py_str j @ '', msg_id='' @ mid @ ''. Result will arrive later.'') False)))))))\<rparr>"

definition POWER_TOOLS :: "env \<Rightarrow> 'z llm_agent_scheme tool list" where
  "POWER_TOOLS env = [OrchestrateTool env, DelegateAsyncTool env]"

section \<open>Workers spawned and killed\<close>

text \<open>Between two states the tool killed exactly the workers it spawned, in their order.\<close>

definition workers_killed :: "env \<Rightarrow> 'z world_scheme \<Rightarrow> 'z world_scheme \<Rightarrow> bool" where
  "workers_killed env s t \<longleftrightarrow> (\<exists>ps. workers env t = (spawned env (trace s) @ ps, kills (trace s) @ ps))"

lemma wp_orch_kill:
  assumes "tc_core ctx = Some c"
  shows "wp (foreach (orch_kill env ctx) ws)
    (\<lambda>_ t. workers env' t = (spawned env' (trace s), kills (trace s) @ map fst ws)) (\<lambda>_ _. False) s"
proof (induction ws arbitrary: s)
  case Nil
  then show ?case by (simp add: wp_simps workers_def)
next
  case (Cons w ws)
  have "wp (orch_kill env ctx w) (\<lambda>_ t. workers env' t = (spawned env' (trace s), kills (trace s) @ [fst w])) (\<lambda>_ _. False) s"
    unfolding orch_kill_def wp_simps using assms by (simp add: wp_simps) (rule wp_mono[OF wp_kill_child]; simp)
  then show ?case unfolding foreach.simps wp_seq
    by (rule wp_mono) (auto simp: workers_def intro!: wp_mono[OF Cons.IH])
qed

text \<open>The workers in the result are those spawned; without a core client there are none.\<close>

definition spawned_only :: "env \<Rightarrow> tool_context \<Rightarrow> 'z world_scheme \<Rightarrow> (pid \<times> json) list \<Rightarrow> 'z world_scheme \<Rightarrow> bool" where
  "spawned_only env ctx s ps t \<longleftrightarrow> workers env t = (spawned env (trace s) @ map fst ps, kills (trace s)) \<and>
     (ps = [] \<or> tc_core ctx \<noteq> None)"

lemma spawned_only_Cons:
  "workers env t = (spawned env (trace s) @ [p], kills (trace s)) \<Longrightarrow> tc_core ctx \<noteq> None \<Longrightarrow>
   spawned_only env ctx t ps u \<Longrightarrow> spawned_only env ctx s ((p, x) # ps) u"
  by (auto simp: spawned_only_def workers_def)

lemma spawned_only_Nil: "workers env t = workers env s \<Longrightarrow> spawned_only env ctx s [] t"
  by (simp add: spawned_only_def workers_def)

lemma wp_orch_spawn:
  "wp (orch_spawn env ctx i xs ws) (\<lambda>(ws', err) t. \<exists>ps. spawned_only env ctx s ps t \<and> ws' = ws @ ps) (\<lambda>_ _. False) s"
proof (induction xs arbitrary: i ws s)
  case Nil
  then show ?case by (simp add: wp_simps spawned_only_Nil)
next
  case (Cons x xs)
  have rest: "wp (orch_spawn env ctx (Suc i) xs (ws @ [(p, x)])) (\<lambda>(ws', err) u. \<exists>ps. spawned_only env ctx s ps u \<and> ws' = ws @ ps)
      (\<lambda>_ _. False) t"
    if "workers env t = (spawned env (trace s) @ [p], kills (trace s))" "tc_core ctx \<noteq> None" for p t
    by (rule wp_mono[OF Cons.IH]) (use spawned_only_Cons[OF that] in auto)
  show ?case
  proof (cases "tc_core ctx")
    case None
    then show ?thesis by (simp add: wp_simps spawned_only_Nil)
  next
    case (Some c)
    show ?thesis unfolding orch_spawn.simps wp_bnd wp_tryc wp_tool_core Some option.case wp_ret sum.case
      by (rule wp_mono[OF wp_spawn_child]) (use Some rest in \<open>auto simp: spawned_only_def workers_def\<close>)
  qed
qed

lemma keeps_run_subtask: "keeps (workers env') (run_subtask env ctx w)"
  unfolding run_subtask_def by (intro keeps_rules)

lemma run_subtask_total: "\<exists>v t. run_subtask env ctx w s = (Inr v, t)"
  by (auto simp: run_subtask_def tryc_def ret_def split: prod.splits sum.splits)

lemma wp_run_subtasks:
  "(\<And>v t. workers env' t = workers env' s \<Longrightarrow> Q v t) \<Longrightarrow> wp (mapeff (run_subtask env ctx) ws) Q E s"
proof (induction ws arbitrary: s Q)
  case (Cons w ws)
  show ?case unfolding mapeff.simps wp_bnd wp_ret
    by (rule wp_quiet[OF keeps_run_subtask run_subtask_total]) (auto intro!: Cons.IH Cons.prems)
qed (simp add: wp_simps)

lemma wp_orch_work: "wp (orch_work env ctx xs) (\<lambda>_ t. workers_killed env s t) (\<lambda>_ t. workers_killed env s t) s"
proof -
  have kill: "wp (foreach (orch_kill env ctx) ws) (\<lambda>_. workers_killed env s) (\<lambda>_ _. False) t" if "spawned_only env ctx s ws t" for ws t
  proof (cases "tc_core ctx")
    case None
    with that show ?thesis by (auto simp: spawned_only_def workers_killed_def wp_simps intro!: exI[of _ "[]"])
  next
    case (Some c)
    show ?thesis by (rule wp_mono[OF wp_orch_kill[OF Some, of env _ env]])
      (use that in \<open>auto simp: spawned_only_def workers_killed_def workers_def\<close>)
  qed
  have run: "wp (mapeff (run_subtask env ctx) ws) (\<lambda>outs. wp (foreach (orch_kill env ctx) ws)
      (\<lambda>_. workers_killed env s) (\<lambda>_. workers_killed env s)) (\<lambda>_. workers_killed env s) t" if "spawned_only env ctx s ws t" for ws t
    by (rule wp_run_subtasks[of env]) (use that in \<open>auto simp: spawned_only_def intro!: wp_mono[OF kill]\<close>)
  show ?thesis unfolding orch_work_def wp_bnd
    by (rule wp_mono[OF wp_orch_spawn])
      (auto simp: wp_simps split: option.split intro!: run wp_mono[OF kill])
qed

section \<open>Properties\<close>

text \<open>
  C16.  The \<open>orchestrate\<close> tool never leaks a worker: whatever the LLM, the kernel and the workers
  do, and whether the tool returns a result or raises, it has sent a kill for exactly the
  workers it spawned, in their order.
\<close>

theorem orchestrate_tool_kills_workers:
  "workers_killed env s (final (tl_execute (OrchestrateTool env) ctx args) s)"
proof -
  have same: "workers_killed env s t" if "workers env t = workers env s" for t :: "'a llm_agent_scheme"
    using that by (auto simp: workers_killed_def workers_def intro!: exI[of _ "[]"])
  have k: "keeps (workers env) (orch_decompose env task mw)" "keeps (workers env) (orch_synthesize env task rs)" for task mw rs
    unfolding orch_decompose_def orch_synthesize_def complete_def
    by (intro keeps_rules llm_free_workers; simp split: json.split add: keeps_rules)+
  have synth: "wp (orch_synthesize env task rs) (\<lambda>_. workers_killed env s) (\<lambda>_. workers_killed env s) t" if "workers_killed env s t" for task rs t
    by (rule wp_keeps[OF k(2)]) (use that in \<open>auto simp: workers_killed_def\<close>)
  have work: "wp (orch_work env ctx xs) (\<lambda>rs. wp (orch_synthesize env task rs) (\<lambda>_. workers_killed env s) (\<lambda>_. workers_killed env s))
      (\<lambda>_. workers_killed env s) t" if "workers env t = workers env s" for xs task t
    by (rule wp_mono[OF wp_orch_work]) (use that synth in \<open>auto simp: workers_killed_def workers_def\<close>)
  have "wp (tl_execute (OrchestrateTool env) ctx args) (\<lambda>_. workers_killed env s) (\<lambda>_. workers_killed env s) s"
    by (auto simp: OrchestrateTool_def wp_simps same split: sum.splits intro!: wp_keeps[OF k(1)] work)
  then show ?thesis by (auto simp: wp_def final_def split: prod.splits sum.splits)
qed

end
