(* ===== verification/WebTools.thy ===== *)
theory WebTools
  imports PowerTools
begin

text \<open>
  The tools of \<open>web_tools.py\<close>.  What Python's \<open>HTMLParser\<close> makes of a page, the tags and texts it
  reports in order or the exception it raises, is the parameter \<open>parse\<close>; the handlers of
  \<open>_HTMLTextExtractor\<close>, the clean-up of the text and the fallback are modelled.  \<open>pyfloat\<close> is the number a
  float's text denotes (a float as \<open>max_length\<close> is taken to be refused by \<open>read\<close>), \<open>brave_key\<close> the value of \<open>BRAVE_API_KEY\<close>.
\<close>

section \<open>From HTML to text\<close>

datatype html_event = StartTag string | EndTag string | PageText string

record extractor =
  ex_parts :: "string list"
  ex_skip :: bool

definition hidden_tags :: "string list" where
  "hidden_tags = [''script'', ''style'', ''noscript'']"

definition line_tags :: "string list" where
  "line_tags = [''p'', ''br'', ''div'', ''h1'', ''h2'', ''h3'', ''h4'', ''h5'', ''h6'', ''li'', ''tr'']"

fun handle_html :: "extractor \<Rightarrow> html_event \<Rightarrow> extractor" where
  "handle_html x (StartTag tag) = (if tag \<in> set hidden_tags then x\<lparr>ex_skip := True\<rparr> else x)"
| "handle_html x (EndTag tag) = (let y = (if tag \<in> set hidden_tags then x\<lparr>ex_skip := False\<rparr> else x) in
     if tag \<in> set line_tags then y\<lparr>ex_parts := ex_parts y @ [nl]\<rparr> else y)"
| "handle_html x (PageText data) = (if ex_skip x then x else x\<lparr>ex_parts := ex_parts x @ [data]\<rparr>)"

text \<open>\<open>re.sub(r"\n{3,}", "\n\n", text)\<close>: of a run of line feeds at most two stay.\<close>

fun cap_newlines :: "nat \<Rightarrow> string \<Rightarrow> string" where
  "cap_newlines k [] = []"
| "cap_newlines k (c # s) = (if c = CHR 0x0A then (if k < 2 then c # cap_newlines (Suc k) s else cap_newlines k s)
     else c # cap_newlines 0 s)"

text \<open>\<open>re.sub(r"[ \t]+", " ", text)\<close>.\<close>

fun squeeze_blanks :: "bool \<Rightarrow> string \<Rightarrow> string" where
  "squeeze_blanks inside [] = []"
| "squeeze_blanks inside (c # s) = (if c = CHR '' '' \<or> c = CHR 0x09
     then (if inside then squeeze_blanks True s else CHR '' '' # squeeze_blanks True s)
     else c # squeeze_blanks False s)"

definition get_text :: "extractor \<Rightarrow> string" where
  "get_text x = strip (squeeze_blanks False (cap_newlines 0 (concat (ex_parts x))))"

text \<open>\<open>re.sub(r"<[^>]+>", " ", html)\<close>.\<close>

function strip_tags :: "string \<Rightarrow> string" where
  "strip_tags [] = []"
| "strip_tags (c # s) = (let body = takeWhile (\<lambda>d. d \<noteq> CHR ''>'') s; tail = dropWhile (\<lambda>d. d \<noteq> CHR ''>'') s in
     if c = CHR ''<'' \<and> body \<noteq> [] \<and> tail \<noteq> [] then CHR '' '' # strip_tags (drop 1 tail) else c # strip_tags s)"
  by pat_completeness auto
termination
proof (relation "measure length")
  fix c s body and tail :: string
  assume "tail = dropWhile (\<lambda>d. d \<noteq> CHR ''>'') s"
  then show "(drop 1 tail, c # s) \<in> measure length"
    using length_dropWhile_le[of "\<lambda>d. d \<noteq> CHR ''>''" s] by (simp add: le_imp_less_Suc)
qed auto

definition html_to_text :: "(string \<Rightarrow> exn + html_event list) \<Rightarrow> string \<Rightarrow> string" where
  "html_to_text parse html = (case parse html of
      Inr evs \<Rightarrow> get_text (foldl handle_html \<lparr>ex_parts = [], ex_skip = False\<rparr> evs)
    | Inl _ \<Rightarrow> strip (strip_tags html))"

section \<open>Fetching a page\<close>

text \<open>\<open>resp.read(n)\<close>: a negative number reads everything.\<close>

definition read_bytes_upto :: "int \<Rightarrow> bytes \<Rightarrow> bytes" where
  "read_bytes_upto n b = (if n < 0 then b else take (nat n) b)"

definition plus_1024 :: "json \<Rightarrow> exn + int" where
  "plus_1024 j = (case j of
      JInt i \<Rightarrow> Inr (i + 1024)
    | JBool b \<Rightarrow> Inr ((if b then 1 else 0) + 1024)
    | _ \<Rightarrow> Inl (TypeError ''argument should be integer or None''))"

definition fetch_page :: "env \<Rightarrow> json \<Rightarrow> json \<Rightarrow> ('z world_scheme, tool_result + (bytes \<times> string)) eff" where
  "fetch_page env url max_length = tryc
     (case url of
        JStr u \<Rightarrow> bnd (ask_env (e_fetch env) (Fetch u [(''User-Agent'', ''HiveKernel-Agent/1.0'')])) (\<lambda>(ok, code, reason, content_type, body).
          if ok then bnd (lift_sum (plus_1024 max_length)) (\<lambda>n. ret (Inr (read_bytes_upto n body, content_type)))
          else ret (Inl (ToolResult (''HTTP '' @ str_int code @ '': '' @ reason) True)))
      | _ \<Rightarrow> throw (AttributeError ''object has no attribute timeout''))
     (\<lambda>e. ret (Inl (ToolResult (''Fetch error: '' @ exn_str e) True)))"

text \<open>The text of a page, cut to \<open>max_length\<close> characters; a fetch succeeds only with a whole number.\<close>

definition page_text :: "(string \<Rightarrow> exn + html_event list) \<Rightarrow> int \<Rightarrow> bytes \<Rightarrow> string \<Rightarrow> string" where
  "page_text parse max_length raw content_type = (let text0 = utf8_decode_replace raw;
       text = (if contains ''html'' (lower content_type) then html_to_text parse text0 else text0) in
     if int (length text) > max_length then slice_to max_length text @ nl @ ''... (truncated)'' else text)"

definition WebFetchTool :: "env \<Rightarrow> (string \<Rightarrow> exn + html_event list) \<Rightarrow> 'z world_scheme tool" where
  "WebFetchTool env parse = \<lparr>tl_name = ''web_fetch'',
     tl_description = ''Fetch a URL and return its text content (HTML stripped)'',
     tl_parameters = params_schema [schema_prop ''url'' ''string'' ''URL to fetch'',
       schema_prop ''max_length'' ''integer'' ''Max chars to return (default 50000)''] [''url''],
     tl_execute = (\<lambda>ctx args. bnd (lift_sum (index_key ''url'' args)) (\<lambda>url.
       bnd (lift_sum (get_key ''max_length'' (JInt 50000) args)) (\<lambda>max_length.
       bnd (fetch_page env url max_length) (\<lambda>r. case r of
           Inl t \<Rightarrow> ret t
         | Inr (raw, content_type) \<Rightarrow> bnd (lift_sum (as_count max_length)) (\<lambda>n.
             ret (ToolResult (page_text parse n raw content_type) False))))))\<rparr>"

section \<open>Searching\<close>

text \<open>\<open>urllib.request.quote\<close>: bytes other than those of unreserved characters and the slash are escaped.\<close>

definition unreserved :: "char \<Rightarrow> bool" where
  "unreserved c \<longleftrightarrow> (let n = of_char c :: nat in (65 \<le> n \<and> n \<le> 90) \<or> (97 \<le> n \<and> n \<le> 122) \<or> (48 \<le> n \<and> n \<le> 57)) \<or>
     c \<in> set ''_.-~/''"

definition hex_upper :: "nat \<Rightarrow> char" where
  "hex_upper n = char_of (if n < 10 then 48 + n else 55 + n)"

definition quote_char :: "char \<Rightarrow> string" where
  "quote_char c = (if unreserved c then [c]
     else let n = of_char c :: nat in [CHR ''%'', hex_upper (n div 16), hex_upper (n mod 16)])"

definition url_quote :: "json \<Rightarrow> exn + string" where
  "url_quote j = (case j of
      JStr t \<Rightarrow> Inr (concat (map quote_char (utf8_encode t)))
    | _ \<Rightarrow> Inl (TypeError ''quote_from_bytes() expected bytes''))"

text \<open>\<open>min(args.get("count", 5), 20)\<close> keeps the first of two equal values.\<close>

definition search_count :: "(string \<Rightarrow> rat) \<Rightarrow> json \<Rightarrow> exn + json" where
  "search_count pyfloat j = (case j of
      JInt i \<Rightarrow> Inr (JInt (min i 20))
    | JBool b \<Rightarrow> Inr (JBool b)
    | JFloat t \<Rightarrow> Inr (if 20 < pyfloat t then JInt 20 else JFloat t)
    | _ \<Rightarrow> Inl (TypeError ''< not supported between instances''))"

definition search_headers :: "string \<Rightarrow> (string \<times> string) list" where
  "search_headers brave_key = [(''Accept'', ''application/json''), (''Accept-Encoding'', ''gzip''), (''X-Subscription-Token'', brave_key)]"

definition search_url :: "string \<Rightarrow> json \<Rightarrow> string" where
  "search_url q cnt = ''https://api.search.brave.com/res/v1/web/search?q='' @ q @ ''&count='' @ py_str cnt"

definition search_data :: "env \<Rightarrow> string \<Rightarrow> json \<Rightarrow> json \<Rightarrow> ('z world_scheme, string + json) eff" where
  "search_data env brave_key query cnt = tryc
     (bnd (lift_sum (url_quote query)) (\<lambda>q.
      bnd (ask_env (e_fetch env) (Fetch (search_url q cnt) (search_headers brave_key))) (\<lambda>(ok, code, reason, content_type, body).
        if ok then bnd (of_opt (UnicodeDecodeError ''invalid start byte'') (utf8_decode body)) (\<lambda>t.
          bnd (of_opt (JSONDecodeError ''Expecting value'') (loads t)) (\<lambda>j. ret (Inr j)))
        else throw (OSError (''HTTP Error '' @ str_int code @ '': '' @ reason)))))
     (\<lambda>e. ret (Inl (''Search error: '' @ exn_str e)))"

text \<open>\<open>results[:count]\<close>: a text is cut into characters, which are no results; other values cannot be cut.\<close>

definition slice_results :: "json \<Rightarrow> json \<Rightarrow> exn + json list" where
  "slice_results cnt j = (case j of
      JList xs \<Rightarrow> slice_json cnt xs
    | JStr t \<Rightarrow> slice_json cnt (map (\<lambda>c. JStr [c]) t)
    | _ \<Rightarrow> Inl (TypeError ''object is not subscriptable''))"

definition search_item :: "json \<Rightarrow> ('s, json) eff" where
  "search_item item = bnd (lift_sum (get_key ''title'' (JStr []) item)) (\<lambda>title.
     bnd (lift_sum (get_key ''url'' (JStr []) item)) (\<lambda>url. bnd (lift_sum (get_key ''description'' (JStr []) item)) (\<lambda>snippet.
     ret (JObj [(''title'', title), (''url'', url), (''snippet'', snippet)]))))"

definition search_results :: "json \<Rightarrow> json \<Rightarrow> ('s, json list) eff" where
  "search_results cnt data = bnd (lift_sum (get_key ''web'' (JObj []) data)) (\<lambda>web.
     bnd (lift_sum (get_key ''results'' (JList []) web)) (\<lambda>rs.
     bnd (lift_sum (slice_results cnt rs)) (\<lambda>items. mapeff search_item items)))"

definition WebSearchTool :: "env \<Rightarrow> (string \<Rightarrow> rat) \<Rightarrow> string \<Rightarrow> 'z world_scheme tool" where
  "WebSearchTool env pyfloat brave_key = \<lparr>tl_name = ''web_search'',
     tl_description = ''Search the web using Brave Search API (requires BRAVE_API_KEY env)'',
     tl_parameters = params_schema [schema_prop ''query'' ''string'' ''Search query'',
       schema_prop ''count'' ''integer'' ''Number of results (default 5, max 20)''] [''query''],
     tl_execute = (\<lambda>ctx args. if brave_key = [] then ret (ToolResult ''BRAVE_API_KEY not set. Web search unavailable.'' True)
       else bnd (lift_sum (index_key ''query'' args)) (\<lambda>query.
         bnd (lift_sum (get_key ''count'' (JInt 5) args)) (\<lambda>c. bnd (lift_sum (search_count pyfloat c)) (\<lambda>cnt.
         bnd (search_data env brave_key query cnt) (\<lambda>d. case d of
             Inl m \<Rightarrow> ret (ToolResult m True)
           | Inr data \<Rightarrow> bnd (search_results cnt data) (\<lambda>rs. ret (ToolResult (dumps_indent True 0 (JList rs)) False)))))))\<rparr>"

definition WEB_TOOLS :: "env \<Rightarrow> (string \<Rightarrow> exn + html_event list) \<Rightarrow> (string \<Rightarrow> rat) \<Rightarrow> string \<Rightarrow> 'z world_scheme tool list" where
  "WEB_TOOLS env parse pyfloat brave_key = [WebFetchTool env parse, WebSearchTool env pyfloat brave_key]"

section \<open>The text of a page\<close>

text \<open>No run of more than two line feeds, when \<open>k\<close> of them come before.\<close>

fun short_runs :: "nat \<Rightarrow> string \<Rightarrow> bool" where
  "short_runs k [] = True"
| "short_runs k (c # s) = (if c = CHR 0x0A then k < 2 \<and> short_runs (Suc k) s else short_runs 0 s)"

lemma short_runs_cap: "short_runs k (cap_newlines k s)"
  by (induction k s rule: cap_newlines.induct) auto

lemma short_runs_squeeze: "short_runs k s \<Longrightarrow> inside \<longrightarrow> k = 0 \<Longrightarrow> short_runs k (squeeze_blanks inside s)"
  by (induction inside s arbitrary: k rule: squeeze_blanks.induct) (auto split: if_splits)

lemma short_runs_suffix: "short_runs k (a @ b) \<Longrightarrow> \<exists>j. short_runs j b"
  by (induction a arbitrary: k) (auto split: if_splits)

lemma short_runs_contains: "short_runs k s \<Longrightarrow> \<not> contains [CHR 0x0A, CHR 0x0A, CHR 0x0A] s"
  by (auto simp: contains_iff dest!: short_runs_suffix)

lemma squeeze_no_tab: "CHR 0x09 \<notin> set (squeeze_blanks inside s)"
  by (induction inside s rule: squeeze_blanks.induct) auto

fun single_blanks :: "bool \<Rightarrow> string \<Rightarrow> bool" where
  "single_blanks inside [] = True"
| "single_blanks inside (c # s) = (if c = CHR '' '' then \<not> inside \<and> single_blanks True s else single_blanks False s)"

lemma single_blanks_squeeze: "single_blanks inside (squeeze_blanks inside s)"
  by (induction inside s rule: squeeze_blanks.induct) auto

lemma single_blanks_suffix: "single_blanks inside (a @ b) \<Longrightarrow> \<exists>i. single_blanks i b"
  by (induction a arbitrary: inside) (auto split: if_splits)

lemma single_blanks_contains: "single_blanks inside s \<Longrightarrow> \<not> contains ''  '' s"
  by (auto simp: contains_iff dest!: single_blanks_suffix)

lemma strip_infix: "\<exists>a b. s = a @ strip s @ b"
proof -
  have "u = rev (dropWhile is_space (rev u)) @ rev (takeWhile is_space (rev u))" for u
    by (metis rev_append rev_rev_ident takeWhile_dropWhile_id)
  then show ?thesis unfolding strip_def strip_by_def by (metis takeWhile_dropWhile_id)
qed

lemma contains_strip: "contains x (strip s) \<Longrightarrow> contains x s"
  using strip_infix[of s] unfolding contains_iff by (metis append.assoc)

text \<open>
  The text extracted from a page is clean, whatever the page: no tab, no two blanks in a row,
  no blank line but single ones, and nothing to strip at either end.
\<close>

theorem html_text_clean:
  assumes "parse html = Inr evs" "t = html_to_text parse html"
  shows "strip t = t \<and> CHR 0x09 \<notin> set t \<and> \<not> contains ''  '' t \<and> \<not> contains [CHR 0x0A, CHR 0x0A, CHR 0x0A] t"
proof -
  let ?c = "cap_newlines 0 (concat (ex_parts (foldl handle_html \<lparr>ex_parts = [], ex_skip = False\<rparr> evs)))"
  have t: "t = strip (squeeze_blanks False ?c)" using assms by (simp add: html_to_text_def get_text_def)
  then have "\<not> contains ''  '' t" "\<not> contains [CHR 0x0A, CHR 0x0A, CHR 0x0A] t"
    using contains_strip single_blanks_contains[OF single_blanks_squeeze[of False ?c]]
      short_runs_contains[OF short_runs_squeeze[OF short_runs_cap, of False]] by blast+
  moreover have "CHR 0x09 \<notin> set t"
    using t squeeze_no_tab[of False ?c] set_strip_by[of is_space "squeeze_blanks False ?c"] by (auto simp: strip_def)
  ultimately show ?thesis using t by simp
qed

definition example_page :: "html_event list" where
  "example_page = [StartTag ''p'', PageText ''a '', StartTag ''style'', PageText ''.x'', EndTag ''style'', PageText '' b'', EndTag ''p'']"

theorem html_text_clean_witness:
  "html_to_text (\<lambda>_. Inr example_page) ''page'' = ''a b'' \<and> \<not> contains ''  '' ''a b''"
proof -
  have shown: "html_to_text (\<lambda>_. Inr example_page) ''page'' = ''a b''" by code_simp
  with html_text_clean[of "\<lambda>_. Inr example_page" "''page''" example_page "''a b''"] show ?thesis by simp
qed

text \<open>
  What a page hides from its readers is hidden from the model: the text between the tags of
  a script, a style sheet or a \<open>noscript\<close> element that has no other of these inside leaves
  no trace.
\<close>

lemma skipped_texts: "ex_skip x \<Longrightarrow> foldl handle_html x (map PageText ds) = x"
  by (induction ds) auto

theorem hidden_text_dropped:
  assumes "tag \<in> set hidden_tags" "\<not> ex_skip (foldl handle_html \<lparr>ex_parts = [], ex_skip = False\<rparr> pre)"
    and "parse page = Inr (pre @ StartTag tag # map PageText ds @ EndTag tag # post)" "parse shown = Inr (pre @ post)"
  shows "html_to_text parse page = html_to_text parse shown"
proof -
  let ?x = "foldl handle_html \<lparr>ex_parts = [], ex_skip = False\<rparr> pre"
  have "tag \<notin> set line_tags" using assms(1) by (auto simp: hidden_tags_def line_tags_def)
  then have "foldl handle_html ?x (StartTag tag # map PageText ds @ [EndTag tag]) = ?x\<lparr>ex_skip := False\<rparr>"
    using assms(1) by (simp add: skipped_texts Let_def)
  also have "\<dots> = ?x" using assms(2) by (cases ?x) simp
  finally have "foldl handle_html \<lparr>ex_parts = [], ex_skip = False\<rparr> (pre @ (StartTag tag # map PageText ds @ [EndTag tag]) @ post) =
      foldl handle_html \<lparr>ex_parts = [], ex_skip = False\<rparr> (pre @ post)" by (simp only: foldl_append)
  then show ?thesis using assms(3,4) by (simp add: html_to_text_def)
qed

theorem hidden_text_dropped_witness:
  "html_to_text (\<lambda>p. if p = ''page'' then Inr example_page else Inr [StartTag ''p'', PageText ''a '', PageText '' b'', EndTag ''p'']) ''page'' =
   html_to_text (\<lambda>p. if p = ''page'' then Inr example_page else Inr [StartTag ''p'', PageText ''a '', PageText '' b'', EndTag ''p'']) ''shown''"
  by (rule hidden_text_dropped[of "''style''" "[StartTag ''p'', PageText ''a '']" _ _ "[''.x'']" "[PageText '' b'', EndTag ''p'']"])
    (simp_all add: example_page_def hidden_tags_def)

text \<open>But the flag does not count: the end of an inner element shows the rest of the outer one.\<close>

theorem nested_hidden_text_shown:
  assumes "parse page = Inr [StartTag ''noscript'', StartTag ''style'', EndTag ''style'', PageText ''enable JavaScript'', EndTag ''noscript'']"
  shows "html_to_text parse page = ''enable JavaScript''"
proof -
  have "html_to_text (\<lambda>_. Inr [StartTag ''noscript'', StartTag ''style'', EndTag ''style'', PageText ''enable JavaScript'', EndTag ''noscript'']) [] =
    ''enable JavaScript''" by code_simp
  with assms show ?thesis by (simp add: html_to_text_def)
qed

theorem nested_hidden_text_shown_witness:
  "html_to_text (\<lambda>_. Inr [StartTag ''noscript'', StartTag ''style'', EndTag ''style'', PageText ''enable JavaScript'', EndTag ''noscript'']) ''x'' =
   ''enable JavaScript''"
  by (rule nested_hidden_text_shown) simp

section \<open>Bounds\<close>

lemma to_is_error_ToolResult [simp]: "to_is_error (ToolResult m b) = b" "to_content (ToolResult m b) = m"
  by (simp_all add: ToolResult_def)

text \<open>
  A fetched page fits: a result of \<open>web_fetch\<close> that is no error has at most \<open>max_length\<close>
  characters and, when it was cut, the note that says so.
\<close>

theorem web_fetch_bounded:
  fixes s :: "'a world_scheme"
  assumes "result (tl_execute (WebFetchTool env parse) ctx args) s = Inr r" "\<not> to_is_error r"
    and "get_key ''max_length'' (JInt 50000) args = Inr (JInt n)" "0 \<le> n"
  shows "int (length (to_content r)) \<le> n \<or>
    (\<exists>x. to_content r = x @ nl @ ''... (truncated)'' \<and> int (length x) = n)"
proof -
  have fetch: "wp (fetch_page env url (JInt n)) (\<lambda>v _. case v of Inl t \<Rightarrow> to_is_error t | Inr _ \<Rightarrow> True) (\<lambda>_ _. False) u" for url and u :: "'a world_scheme"
    unfolding fetch_page_def by (cases url) (auto simp: wp_simps ToolResult_def plus_1024_def split: sum.split)
  have "wp (bnd (fetch_page env url (JInt n)) (\<lambda>v. case v of Inl t \<Rightarrow> ret t
      | Inr (raw, ct) \<Rightarrow> bnd (lift_sum (as_count (JInt n))) (\<lambda>k. ret (ToolResult (page_text parse k raw ct) False))))
      (\<lambda>r _. to_is_error r \<or> (\<exists>raw ct. to_content r = page_text parse n raw ct)) (\<lambda>_ _. True) u" for url and u :: "'a world_scheme"
    unfolding wp_bnd
    by (rule wp_mono[OF fetch]) (auto simp: wp_simps as_count_def ToolResult_def split: sum.splits)
  then have "wp (tl_execute (WebFetchTool env parse) ctx args) (\<lambda>r _. to_is_error r \<or> (\<exists>raw ct. to_content r = page_text parse n raw ct)) (\<lambda>_ _. True) s"
    unfolding WebFetchTool_def tool.simps wp_bnd wp_lift_sum assms(3) by (simp split: sum.split)
  with assms(1,2) obtain raw ct where "to_content r = page_text parse n raw ct"
    by (auto simp: wp_def result_def split: prod.splits)
  then show ?thesis using assms(4) by (auto simp: page_text_def Let_def slice_to_def)
qed

lemma fetch_execs:
  "result (tl_execute (WebFetchTool (example_env\<lparr>e_fetch := \<lambda>_. Inr (True, 200, ''OK'', ''text/plain'', ''hello'')\<rparr>) parse) ctx
     (JObj [(''url'', JStr ''u''), (''max_length'', JInt 2)])) \<lparr>trace = []\<rparr> = Inr (ToolResult (''he'' @ nl @ ''... (truncated)'') False)"
proof -
  have "page_text parse 2 ''hello'' ''text/plain'' = ''he'' @ nl @ ''... (truncated)''" by code_simp
  then show ?thesis by (simp add: WebFetchTool_def fetch_page_def index_key_def get_key_def ask_env_def lift_sum_def
      plus_1024_def as_count_def read_bytes_upto_def dget_def eff_defs)
qed

theorem web_fetch_bounded_witness:
  "\<exists>r. result (tl_execute (WebFetchTool (example_env\<lparr>e_fetch := \<lambda>_. Inr (True, 200, ''OK'', ''text/plain'', ''hello'')\<rparr>) (\<lambda>_. Inr [])) example_ctx
     (JObj [(''url'', JStr ''u''), (''max_length'', JInt 2)])) \<lparr>trace = []\<rparr> = Inr r \<and>
     (int (length (to_content r)) \<le> 2 \<or> (\<exists>x. to_content r = x @ nl @ ''... (truncated)'' \<and> int (length x) = 2))"
  using web_fetch_bounded[OF fetch_execs, of 2] fetch_execs by (auto simp: ToolResult_def get_key_def dget_def)

lemma mapeff_length: "mapeff f xs s = (Inr ys, t) \<Longrightarrow> length ys = length xs"
  by (induction xs arbitrary: s ys) (auto simp: eff_defs split: prod.splits sum.splits)

lemma length_slice_to: "0 \<le> k \<Longrightarrow> int (length (slice_to k xs)) \<le> k"
  by (simp add: slice_to_def)

text \<open>
  A search asks for and returns at most 20 results: whatever the answer of the service is, a
  result that is no error lists at most the number of items asked for, and never more than 20.
\<close>

theorem web_search_bounded:
  fixes s :: "'a world_scheme"
  assumes "result (tl_execute (WebSearchTool env pyfloat brave_key) ctx args) s = Inr r" "\<not> to_is_error r"
    and "get_key ''count'' (JInt 5) args = Inr (JInt n)" "0 \<le> n"
  shows "\<exists>rs. to_content r = dumps_indent True 0 (JList rs) \<and> int (length rs) \<le> min n 20"
proof -
  let ?Q = "\<lambda>rs _. int (length rs) \<le> min n 20"
  have "wp (mapeff search_item items) ?Q (\<lambda>_ _. True) u" if "int (length items) \<le> min n 20" for items and u :: "'a world_scheme"
    using that mapeff_length[of search_item items u] by (auto simp: wp_def split: prod.split sum.split)
  then have results: "wp (search_results (JInt (min n 20)) data) ?Q (\<lambda>_ _. True) u" for data and u :: "'a world_scheme"
    using length_slice_to[of "min n 20"] assms(4)
    by (auto simp: search_results_def slice_results_def slice_json_def wp_simps split: sum.split json.split)
  define ok :: "tool_result \<Rightarrow> bool" where
    "ok = (\<lambda>r. to_is_error r \<or> (\<exists>rs. to_content r = dumps_indent True 0 (JList rs) \<and> int (length rs) \<le> min n 20))"
  have ok: "ok (ToolResult m True)" "int (length rs) \<le> min n 20 \<Longrightarrow> ok (ToolResult (dumps_indent True 0 (JList rs)) False)" for m rs
    unfolding ok_def to_is_error_ToolResult by blast+
  have shown: "wp (bnd (search_results (JInt (min n 20)) data) (\<lambda>rs. ret (ToolResult (dumps_indent True 0 (JList rs)) False)))
      (\<lambda>r _. ok r) (\<lambda>_ _. True) u" for data and u :: "'a world_scheme"
    unfolding wp_bnd wp_ret by (rule wp_mono[OF results]) (simp_all only: ok)
  have "wp (search_data env brave_key query cnt) (\<lambda>_ _. True) (\<lambda>_ _. False) u" for query cnt and u :: "'a world_scheme"
    unfolding search_data_def by (auto simp: wp_simps split: sum.split option.split)
  then have found: "wp (search_data env brave_key query (JInt (min n 20))) (\<lambda>d. wp (case d of
        Inl m \<Rightarrow> ret (ToolResult m True)
      | Inr data \<Rightarrow> bnd (search_results (JInt (min n 20)) data) (\<lambda>rs. ret (ToolResult (dumps_indent True 0 (JList rs)) False)))
      (\<lambda>r _. ok r) (\<lambda>_ _. True)) (\<lambda>_ _. True) u" for query and u :: "'a world_scheme"
    by (rule wp_mono) (use shown ok(1) in \<open>simp_all add: wp_ret del: dumps_indent.simps split: sum.split\<close>)
  have "wp (tl_execute (WebSearchTool env pyfloat brave_key) ctx args) (\<lambda>r _. ok r) (\<lambda>_ _. True) s"
    using found ok(1) unfolding WebSearchTool_def tool.simps wp_if wp_bnd wp_lift_sum assms(3) search_count_def
    by (simp add: wp_ret del: dumps_indent.simps split: sum.split)
  then show ?thesis using assms(1,2) unfolding ok_def by (simp add: wp_def result_def del: dumps_indent.simps split: prod.splits)
qed

definition example_web :: "bytes \<Rightarrow> env" where
  "example_web body = example_env\<lparr>e_fetch := \<lambda>_. Inr (True, 200, ''OK'', ''application/json'', body)\<rparr>"

definition example_hits :: bytes where
  "example_hits = utf8_encode (dumps True (JObj [(''web'', JObj [(''results'', JList [JObj [(''title'', JStr ''a'')], JObj [(''title'', JStr ''b'')]])])]))"

lemma search_execs:
  "result (tl_execute (WebSearchTool (example_web example_hits) (\<lambda>_. 0) ''key'') example_ctx
     (JObj [(''query'', JStr ''q''), (''count'', JInt 1)])) \<lparr>trace = []\<rparr> =
   Inr (ToolResult (dumps_indent True 0 (JList [JObj [(''title'', JStr ''a''), (''url'', JStr []), (''snippet'', JStr [])]])) False)"
  by code_simp

theorem web_search_bounded_witness:
  "\<exists>rs. dumps_indent True 0 (JList [JObj [(''title'', JStr ''a''), (''url'', JStr []), (''snippet'', JStr [])]]) = dumps_indent True 0 (JList rs) \<and>
     int (length rs) \<le> min 1 20"
  using web_search_bounded[OF search_execs, of 1] by (simp add: get_key_def dget_def del: dumps_indent.simps)

text \<open>
  C24.  A compressed answer is never understood: the request says that the tool accepts \<open>gzip\<close>, and when the
  service takes it at its word the body starts with the two bytes of that format, which are
  no UTF-8, so every such search fails.
\<close>

theorem gzip_search_fails:
  assumes "brave_key \<noteq> []" "map_of kvs ''query'' = Some (JStr q)" "dget kvs ''count'' (JInt 5) = JInt n"
    and "e_fetch env (trace s @ [Fetch (search_url (concat (map quote_char (utf8_encode q))) (JInt (min n 20))) (search_headers brave_key)]) =
      Inr (True, code, reason, content_type, CHR 0x1F # CHR 0x8B # rest)"
  shows "(''Accept-Encoding'', ''gzip'') \<in> set (search_headers brave_key) \<and>
    (\<exists>e. result (tl_execute (WebSearchTool env pyfloat brave_key) ctx (JObj kvs)) s = Inr (ToolResult (''Search error: '' @ e) True))"
proof -
  have "utf8_decode (CHR 0x1F # CHR 0x8B # rest) = None" by simp
  with assms show ?thesis
    by (auto simp: WebSearchTool_def index_key_def get_key_def search_count_def search_data_def url_quote_def search_headers_def
        ask_env_def lift_sum_def eff_defs)
qed

theorem gzip_search_fails_witness:
  "\<exists>e. result (tl_execute (WebSearchTool (example_web [CHR 0x1F, CHR 0x8B, CHR 0x08]) (\<lambda>_. 0) ''key'') example_ctx
     (JObj [(''query'', JStr ''q'')])) \<lparr>trace = []\<rparr> = Inr (ToolResult (''Search error: '' @ e) True)"
  using gzip_search_fails[of "''key''" "[(''query'', JStr ''q'')]" "''q''" 5 "example_web [CHR 0x1F, CHR 0x8B, CHR 0x08]" "\<lparr>trace = []\<rparr>"
      200 "''OK''" "''application/json''" "[CHR 0x08]" "\<lambda>_. 0" example_ctx]
  by (simp add: example_web_def dget_def)

end
