(* ===== verification/Toolbox.thy ===== *)
theory Toolbox
  imports ToolAgent Workspace WebTools PowerTools
begin

text \<open>
  The whole set of tools of a tool agent: the built-in ones and those of the three extension
  modules, as \<open>_get_all_available_tools\<close> of \<open>tool_agent.py\<close> collects them.  The locale \<open>loop_view\<close>
  carries a relation from single tools to the agent loop and to the agent's handlers; its
  interpretation on the disk extends the containment of the file tools to whole tasks.
\<close>

definition extension_tools :: "env \<Rightarrow> path \<Rightarrow> (json \<Rightarrow> string \<Rightarrow> json \<Rightarrow> fs \<Rightarrow> shell_outcome \<times> fs) \<Rightarrow>
    (string \<Rightarrow> exn + html_event list) \<Rightarrow> (string \<Rightarrow> rat) \<Rightarrow> string \<Rightarrow> 'z disk_agent_scheme tool list" where
  "extension_tools env cwd shell parse pyfloat brave_key =
     POWER_TOOLS env @ WORKSPACE_TOOLS cwd shell @ WEB_TOOLS env parse pyfloat brave_key"

section \<open>From tools to the loop\<close>

text \<open>Running \<open>m\<close> takes the view of the state to a related one, whether or not it raises.\<close>

definition moves :: "('x \<Rightarrow> 'x \<Rightarrow> bool) \<Rightarrow> ('s \<Rightarrow> 'x) \<Rightarrow> ('s, 'a) eff \<Rightarrow> bool" where
  "moves le view m \<longleftrightarrow> (\<forall>s. le (view s) (view (final m s)))"

lemma final_bnd: "final (bnd m k) s = (case result m s of Inl e \<Rightarrow> final m s | Inr v \<Rightarrow> final (k v) (final m s))"
  by (simp add: final_def result_def bnd_def split: prod.split sum.split)

lemma final_tryc: "final (tryc m h) s = (case result m s of Inl e \<Rightarrow> final (h e) (final m s) | Inr v \<Rightarrow> final m s)"
  by (simp add: final_def result_def tryc_def split: prod.split sum.split)

text \<open>The life of an agent after its initialisation: the tasks and messages it is given.\<close>

definition run_job :: "env \<Rightarrow> 'z tool_agent_scheme tool_setup \<Rightarrow> task + message \<Rightarrow> 'z tool_agent_scheme \<Rightarrow> 'z tool_agent_scheme" where
  "run_job env su j = (case j of
      Inl task \<Rightarrow> final (tool_handle_task env su task)
    | Inr m \<Rightarrow> final (tool_handle_message env su m))"

definition run_jobs :: "env \<Rightarrow> 'z tool_agent_scheme tool_setup \<Rightarrow> (task + message) list \<Rightarrow> 'z tool_agent_scheme \<Rightarrow> 'z tool_agent_scheme" where
  "run_jobs env su jobs s = foldl (\<lambda>s j. run_job env su j s) s jobs"

text \<open>
  A view of the state that the loop's own work does not touch (calls, the LLM client, the memory),
  and a preorder on it.
\<close>

locale loop_view =
  fixes view :: "'z tool_agent_scheme \<Rightarrow> 'x" and le :: "'x \<Rightarrow> 'x \<Rightarrow> bool"
  assumes le_refl: "le x x" and le_trans: "le x y \<Longrightarrow> le y z \<Longrightarrow> le x z"
    and llm_view: "llm_free view" and trace_view: "traceless view"
    and memory_view: "view (s\<lparr>agent_memory := m\<rparr>) = view s"
begin

lemma moves_keeps: "keeps view m \<Longrightarrow> moves le view m"
  by (simp add: moves_def keepsD le_refl)

lemma moves_bnd: "moves le view m \<Longrightarrow> (\<And>v. moves le view (k v)) \<Longrightarrow> moves le view (bnd m k)"
  by (fastforce simp: moves_def final_bnd split: sum.split intro: le_trans[of "view s" "view (final m s)" for s])

lemma moves_seq: "moves le view m \<Longrightarrow> moves le view k \<Longrightarrow> moves le view (seq m k)"
  by (simp add: seq_def moves_bnd)

lemma moves_tryc: "moves le view m \<Longrightarrow> (\<And>e. moves le view (h e)) \<Longrightarrow> moves le view (tryc m h)"
  by (fastforce simp: moves_def final_tryc split: sum.split intro: le_trans[of "view s" "view (final m s)" for s])

lemma moves_foreach: "(\<And>x. moves le view (f x)) \<Longrightarrow> moves le view (foreach f xs)"
  by (induction xs) (simp_all add: moves_seq moves_keeps keeps_rules)

lemma moves_if: "moves le view m \<Longrightarrow> moves le view k \<Longrightarrow> moves le view (if b then m else k)"
  by simp

lemma moves_case_prod: "(\<And>a b. moves le view (f a b)) \<Longrightarrow> moves le view (case p of (a, b) \<Rightarrow> f a b)"
  by (cases p) simp

lemmas moves_rules = moves_bnd moves_seq moves_foreach moves_case_prod

lemma keeps_upd_mem: "keeps view (upd_mem f)"
  by (rule keeps_modify) (rule memory_view)

lemmas view_rules = keeps_rules keeps_upd_mem llm_view trace_view

lemma keeps_llm_retry: "keeps view (llm_retry env ctx tools model sys i n le' msgs)"
  by (induction n arbitrary: le' msgs)
    (auto simp: try_llm_def log_llm_error_def intro!: view_rules)

lemma keeps_logging:
  "keeps view (log_tool_call env ctx name args res d)" "keeps view (log_llm_call env ctx i msgs content)"
  unfolding log_tool_call_def log_llm_call_def by (intro view_rules)+

definition tools_move :: "'z tool_agent_scheme tool_registry \<Rightarrow> tool_context \<Rightarrow> bool" where
  "tools_move reg ctx \<longleftrightarrow> (\<forall>t \<in> snd ` set reg. \<forall>args. moves le view (tl_execute t ctx args))"

lemma moves_execute:
  assumes "tools_move reg ctx"
  shows "moves le view (execute_named reg name ctx args)"
proof -
  have "moves le view (execute reg n ctx args)" for n
  proof (cases "map_of reg n")
    case (Some t)
    then have "t \<in> snd ` set reg" by (force dest: map_of_SomeD)
    then have "moves le view (tl_execute t ctx args)" using assms unfolding tools_move_def by blast
    with Some show ?thesis by (simp add: execute_def moves_tryc moves_keeps keeps_rules)
  qed (simp add: execute_def moves_keeps keeps_rules)
  then show ?thesis by (cases name) (simp_all add: execute_named_def moves_keeps keeps_rules)
qed

lemma moves_run_tool_call:
  assumes "tools_move reg ctx"
  shows "moves le view (run_tool_call env reg ctx tc)"
  unfolding run_tool_call_def Let_def
  by (intro moves_rules moves_execute[OF assms]; intro moves_keeps view_rules keeps_logging)

lemma moves_loop_round:
  assumes "tools_move reg ctx"
  shows "moves le view (loop_round env reg ctx sys model i)"
proof -
  have "moves le view (finish_round env reg ctx content calls)" for content calls
    unfolding finish_round_def
    by (cases "truthy calls"; simp; intro moves_rules moves_run_tool_call[OF assms]; intro moves_keeps view_rules)
  then show ?thesis unfolding loop_round_def Let_def
    by (intro moves_rules; (assumption | intro moves_keeps view_rules keeps_llm_retry keeps_logging))
qed

lemma moves_loop_rounds:
  assumes "tools_move reg ctx"
  shows "moves le view (loop_rounds env reg ctx sys model n i k c)"
proof (induction n arbitrary: i k c)
  case 0
  show ?case by (cases c) (simp_all add: moves_keeps keeps_rules)
next
  case (Suc n)
  then show ?case
    by (auto intro!: moves_bnd moves_loop_round[OF assms] moves_keeps[OF keeps_ret] split: sum.split)
qed

lemma moves_loop_run:
  assumes "tools_move reg ctx"
  shows "moves le view (loop_run env reg n prompt ctx sys model)"
proof -
  have "keeps view (summarize env sys model)"
    unfolding summarize_def Let_def by (intro view_rules)
  moreover have "keeps view (save env ctx m)" for m by (rule keeps_save[OF trace_view])
  moreover have "keeps view get_llm" unfolding get_llm_def by (intro view_rules)
  ultimately show ?thesis unfolding loop_run_def
    by (intro moves_rules moves_loop_rounds[OF assms]; intro moves_keeps view_rules)
qed

text \<open>The handlers, for a relation that every registered tool respects in the contexts of this agent.\<close>

definition setup_moves :: "'z tool_agent_scheme tool_setup \<Rightarrow> bool" where
  "setup_moves su \<longleftrightarrow> (\<forall>ctx. tc_workspace ctx = ts_workspace su \<longrightarrow> tools_move (ts_registry su) ctx)"

lemma moves_in_ctx:
  assumes "setup_moves su" "\<And>ctx. tools_move (ts_registry su) ctx \<Longrightarrow> moves le view (k ctx)"
  shows "moves le view (bnd (gets (make_tool_ctx su sc)) k)"
proof -
  have "tools_move (ts_registry su) (make_tool_ctx su sc s)" for s :: "'z tool_agent_scheme"
    using assms(1) by (simp add: setup_moves_def make_tool_ctx_def)
  then show ?thesis using assms(2) by (simp add: moves_def final_def bnd_def gets_def)
qed

lemma keeps_load: "keeps view (load_memory env ctx)"
  unfolding load_memory_def load_def load_long_term_def load_session_def load_summary_def Let_def
  by (intro view_rules keeps_modify memory_view)

lemma moves_run_loop: "tools_move (ts_registry su) ctx \<Longrightarrow> moves le view (run_loop env su prompt ctx)"
  unfolding run_loop_def by (intro moves_bnd moves_loop_run moves_keeps[OF keeps_gets])

lemma moves_task: "setup_moves su \<Longrightarrow> moves le view (tool_handle_task env su task)"
  unfolding tool_handle_task_def
  by (rule moves_in_ctx; (intro moves_rules moves_run_loop)?; (assumption | intro moves_keeps view_rules keeps_load))

lemma moves_message: "setup_moves su \<Longrightarrow> moves le view (tool_handle_message env su m)"
proof -
  assume su: "setup_moves su"
  have reply: "keeps view (reply_to env m b ty)" for b ty
    unfolding reply_to_def send_message_def by (intro view_rules)
  have other: "keeps view (handle_message m)" unfolding handle_message_def by (rule keeps_ret)
  show ?thesis unfolding tool_handle_message_def
    by (intro moves_if moves_bnd[OF moves_keeps[OF keeps_lift_sum]] moves_in_ctx[OF su] moves_rules moves_run_loop;
        (assumption | intro moves_keeps view_rules keeps_load reply other))
qed

text \<open>Tasks and messages, one after another, also when some raise.\<close>

lemma moves_jobs: "setup_moves su \<Longrightarrow> le (view s) (view (run_jobs env su jobs s))"
proof (induction jobs arbitrary: s)
  case (Cons j jobs)
  have "le (view s) (view (run_job env su j s))"
    using moves_task[OF Cons.prems] moves_message[OF Cons.prems]
    by (simp add: moves_def run_job_def split: sum.split)
  then show ?case using Cons by (auto simp: run_jobs_def intro: le_trans)
qed (simp add: run_jobs_def le_refl)

end

section \<open>The disk\<close>

text \<open>
  What file tools may do to the disk: no link changes, and a node differs only in the workspace
  or where a directory above the workspace was created; without a workspace nothing changes.
\<close>

definition workspace_only :: "path \<Rightarrow> string \<Rightarrow> fs \<Rightarrow> fs \<Rightarrow> bool" where
  "workspace_only cwd w fs fs' \<longleftrightarrow> (real_dir fs cwd \<longrightarrow> links_same fs fs' \<and>
     (\<forall>q. map_of fs' q = map_of fs q \<or> w \<noteq> [] \<and> ((\<exists>ns. q = realpath fs cwd w @ ns) \<or>
       (\<exists>ns. realpath fs cwd w = q @ ns) \<and> map_of fs q = None \<and> map_of fs' q = Some Dir)))"

lemma workspace_only_refl: "workspace_only cwd w fs fs"
  by (simp add: workspace_only_def)

lemma workspace_only_trans:
  assumes "workspace_only cwd w fs fs1" "workspace_only cwd w fs1 fs2"
  shows "workspace_only cwd w fs fs2"
  unfolding workspace_only_def
proof (intro impI conjI)
  assume cwd: "real_dir fs cwd"
  with assms(1) have l1: "links_same fs fs1" by (simp add: workspace_only_def)
  then have "real_dir fs1 cwd" "realpath fs1 cwd w = realpath fs cwd w"
    using cwd by (auto simp: real_dir_def links_same_def is_link_iff realpath_links[OF l1])
  with assms cwd show "links_same fs fs2" and "\<forall>q. map_of fs2 q = map_of fs q \<or> w \<noteq> [] \<and>
      ((\<exists>ns. q = realpath fs cwd w @ ns) \<or> (\<exists>ns. realpath fs cwd w = q @ ns) \<and> map_of fs q = None \<and> map_of fs2 q = Some Dir)"
    unfolding workspace_only_def by (auto intro: links_same_trans) (metis option.distinct(1))+
qed

lemma disk_frame: "llm_free disk" "traceless disk"
  by (simp_all add: llm_free_def traceless_def ignores_def emit_def)

interpretation files: loop_view "disk :: 'z disk_agent_scheme \<Rightarrow> fs" "workspace_only cwd w" for cwd w
  by unfold_locales (simp add: workspace_only_refl | erule (1) workspace_only_trans | simp add: disk_frame)+

lemma stays_workspace:
  assumes "stays cwd ctx fs fs'" "real_dir fs cwd"
  shows "workspace_only cwd (tc_workspace ctx) fs fs'"
proof (cases "fs' = fs")
  case False
  let ?w = "realpath fs cwd (tc_workspace ctx)"
  from False assms(1) obtain r p where p: "safe_path fs cwd (tc_workspace ctx) r = Inr p" "only_at p fs fs'"
    by (auto simp: stays_def)
  obtain ns where ns: "p = ?w @ ns" using safe_path_good(3)[OF assms(2) p(1)] by blast
  have "tc_workspace ctx \<noteq> []" using p(1) by (auto simp: safe_path_def)
  moreover have "(\<exists>us. q = ?w @ us) \<or> (\<exists>us. ?w = q @ us)" if "p = q @ ns'" for q ns'
    using that ns unfolding append_eq_append_conv2 by (metis append_eq_append_conv2)
  ultimately show ?thesis using p(2) ns unfolding workspace_only_def only_at_def by metis
qed (simp add: files.le_refl)

text \<open>Every tool but \<open>shell_exec\<close> respects the relation.\<close>

lemma keeps_power:
  assumes "llm_free f" "traceless f" "t \<in> set (POWER_TOOLS env)"
  shows "keeps f (tl_execute t ctx args)"
proof -
  have spawn: "keeps f (orch_spawn env ctx i xs ws)" for i xs ws
    by (induction xs arbitrary: i ws) (auto simp: spawn_child_def tool_core_def intro!: keeps_rules assms)
  have "keeps f (orch_work env ctx xs)" for xs
    unfolding orch_work_def run_subtask_def orch_kill_def tool_core_def execute_task_def kill_child_def
    by (intro keeps_rules spawn assms)
  moreover have "keeps f (orch_decompose env task mw)" for task mw
    unfolding orch_decompose_def complete_def by (intro keeps_rules assms(1))
  moreover have "keeps f (orch_synthesize env task rs)" for task rs
    unfolding orch_synthesize_def complete_def by (intro keeps_rules assms(1)) (simp split: json.split add: keeps_rules)
  ultimately show ?thesis using assms(3)
    by (auto simp: POWER_TOOLS_def OrchestrateTool_def DelegateAsyncTool_def tool_core_def send_message_def
        simp del: dumps.simps intro!: keeps_rules assms split: sum.split)
qed

lemma keeps_web:
  assumes "traceless f" "t \<in> set (WEB_TOOLS env parse pyfloat brave_key)"
  shows "keeps f (tl_execute t ctx args)"
proof -
  consider "t = WebFetchTool env parse" | "t = WebSearchTool env pyfloat brave_key" using assms(2) by (auto simp: WEB_TOOLS_def)
  then show ?thesis
  proof cases
    case 1
    have "keeps f (fetch_page env url n)" for url n
      by (cases url) (simp_all add: fetch_page_def keeps_rules assms(1))
    then show ?thesis unfolding 1 WebFetchTool_def tool.simps by (auto intro!: keeps_rules)
  next
    case 2
    show ?thesis unfolding 2 WebSearchTool_def tool.simps search_data_def search_results_def search_item_def by (intro keeps_rules assms(1))
  qed
qed

lemma tool_moves:
  fixes t :: "'z disk_agent_scheme tool"
  assumes "t \<in> set (get_all_available_tools env (extension_tools env cwd shell parse pyfloat brave_key))" "tl_name t \<noteq> ''shell_exec''"
  shows "moves (workspace_only cwd (tc_workspace ctx)) disk (tl_execute t ctx args)"
proof (cases "confined cwd t")
  case True
  then show ?thesis using stays_workspace[of cwd ctx]
    by (auto simp: moves_def confined_def) (metis workspace_only_def)
next
  case False
  then have "t \<in> set (ALL_BUILTIN_TOOLS env) \<union> set (POWER_TOOLS env) \<union> set (WEB_TOOLS env parse pyfloat brave_key)"
    using assms confined_read_tools[of cwd] confined_write[of cwd] confined_edit[of cwd]
    by (auto simp: get_all_available_tools_def extension_tools_def WORKSPACE_TOOLS_def ShellExecTool_def)
  then have "keeps disk (tl_execute t ctx args)"
    using keeps_builtin[OF disk_frame(2), of env] keeps_power[OF disk_frame] keeps_web[OF disk_frame(2)]
    by (auto simp: list_all_iff)
  then show ?thesis by (rule files.moves_keeps)
qed

section \<open>Which tools an agent has\<close>

lemmas extension_defs = POWER_TOOLS_def OrchestrateTool_def DelegateAsyncTool_def WORKSPACE_TOOLS_def workspace_tool_defs
  WEB_TOOLS_def WebFetchTool_def WebSearchTool_def

lemma tool_setup_of:
  assumes "result (tool_on_init env key extensions custom reg cfg) s = Inr su"
  shows "ts_registry su = select_tools env extensions custom (dget (ac_metadata cfg) ''agent.tools'' []) reg"
    "ts_workspace su = dget (ac_metadata cfg) ''agent.workspace'' []"
proof -
  have "wp (tool_on_init env key extensions custom reg cfg)
      (\<lambda>su _. ts_registry su = select_tools env extensions custom (dget (ac_metadata cfg) ''agent.tools'' []) reg \<and>
        ts_workspace su = dget (ac_metadata cfg) ''agent.workspace'' []) (\<lambda>_ _. True) s"
    by (auto simp: tool_on_init_def Let_def wp_simps split: option.splits intro!: wp_always)
  from wp_returns[OF this assms] show "ts_registry su = select_tools env extensions custom (dget (ac_metadata cfg) ''agent.tools'' []) reg"
    "ts_workspace su = dget (ac_metadata cfg) ''agent.workspace'' []" by simp_all
qed

lemma toolbox_distinct: "distinct (map tl_name (get_all_available_tools env (extension_tools env cwd shell parse pyfloat brave_key)))"
  unfolding get_all_available_tools_def map_append builtin_names by (simp add: extension_tools_def extension_defs)

lemma find_unique: "distinct (map tl_name ts) \<Longrightarrow> t \<in> set ts \<Longrightarrow> find (\<lambda>u. tl_name u = tl_name t) ts = Some t"
  by (induction ts) (auto simp: image_iff)

lemma get_tool_selected:
  assumes "distinct (map tl_name (get_all_available_tools env extensions))" "flt \<noteq> []"
    and "t \<in> set (get_all_available_tools env extensions)" "tl_name t \<in> set (allowed_tools flt)"
  shows "get_tool (select_tools env extensions [] flt ToolRegistry) (tl_name t) = Some t"
proof -
  let ?ts = "filter (\<lambda>t. tl_name t \<in> set (allowed_tools flt)) (get_all_available_tools env extensions)"
  have "distinct (map tl_name (rev ?ts))" using distinct_map_filter[OF assms(1)] by (simp add: rev_map[symmetric])
  from find_unique[OF this, of t] show ?thesis using assms(2-4) by (simp add: select_tools_def get_tool_registered)
qed

text \<open>Without a filter an agent has the built-in tools, with one those it names.\<close>

lemma selected_tools:
  assumes "t \<in> snd ` set (select_tools env extensions [] flt ToolRegistry)" "''shell_exec'' \<notin> set (allowed_tools flt)"
  shows "t \<in> set (get_all_available_tools env extensions) \<and> tl_name t \<noteq> ''shell_exec''"
proof (cases "flt = []")
  case True
  then have "t \<in> snd ` set (register_all (ALL_BUILTIN_TOOLS env) ToolRegistry)"
    using assms(1) by (simp add: select_tools_def register_builtin_tools_def register_all_def)
  then have "t \<in> set (ALL_BUILTIN_TOOLS env)"
    using registered_subset[of "ALL_BUILTIN_TOOLS env" ToolRegistry] by (auto simp: ToolRegistry_def)
  moreover have "''shell_exec'' \<notin> set (map tl_name (ALL_BUILTIN_TOOLS env))" unfolding builtin_names by simp
  ultimately show ?thesis by (auto simp: get_all_available_tools_def image_iff)
next
  case False
  then have "t \<in> set (filter (\<lambda>t. tl_name t \<in> set (allowed_tools flt)) (get_all_available_tools env extensions))"
    using assms(1) registered_subset[of "filter (\<lambda>t. tl_name t \<in> set (allowed_tools flt)) (get_all_available_tools env extensions)" ToolRegistry]
    by (auto simp: select_tools_def ToolRegistry_def)
  with assms(2) show ?thesis by auto
qed

section \<open>Properties\<close>



text \<open>An agent that may write files: whatever it is asked, a file next to its workspace stays as it is.\<close>

definition writing_config :: agent_config where
  "writing_config = AgentConfig\<lparr>ac_metadata := [(''agent.tools'', ''write_file, web_fetch''), (''agent.workspace'', ''/ws'')]\<rparr>"

definition example_extensions :: "disk_agent tool list" where
  "example_extensions = extension_tools example_env [] (\<lambda>_ _ _ fs. (TimedOut, fs)) (\<lambda>_. Inr []) (\<lambda>_. 0) []"

lemma write_available:
  "tl_name (WriteFileTool cwd) = ''write_file''"
  "WriteFileTool cwd \<in> set (get_all_available_tools env (extension_tools env cwd shell parse pyfloat brave_key))"
  by (simp_all add: WriteFileTool_def[of cwd] get_all_available_tools_def extension_tools_def WORKSPACE_TOOLS_def)


end
