(* ===== verification/Startup.thy ===== *)
theory Startup
  imports Workspace
begin

text \<open>
  How an agent process starts: the API key from the environment or a \<open>.env\<close> file (\<open>_load_dotenv\<close>
  and \<open>on_init\<close> of \<open>llm_agent.py\<close>), the entry point \<open>runner.py\<close> and \<open>HiveAgent.run\<close> of
  \<open>agent.py\<close>.  The environment of the process is an association list.  Importing a module, binding
  and starting the gRPC server and how the wait for its end turns out are arguments; the
  model keeps the order of the steps the process takes with its server and its channel.
\<close>

section \<open>Environment variables\<close>

text \<open>\<open>line.partition("=")\<close>: the text before the first sign and the text after it.\<close>

definition partition_eq :: "string \<Rightarrow> string \<times> string" where
  "partition_eq s = (takeWhile (\<lambda>c. c \<noteq> CHR ''='') s, tl (dropWhile (\<lambda>c. c \<noteq> CHR ''='') s))"

text \<open>The assignment of a line, if it has one.\<close>

definition dotenv_entry :: "string \<Rightarrow> (string \<times> string) option" where
  "dotenv_entry raw = (let line = strip raw in
     if line = [] \<or> startswith line ''#'' then None
     else if CHR ''='' \<in> set line then (let (key, value) = partition_eq line in Some (strip key, strip value)) else None)"

text \<open>\<open>os.environ.setdefault\<close>; setting a variable without a name or with a null character raises.\<close>

definition env_setdefault :: "string \<Rightarrow> string \<Rightarrow> (string, string) dict \<Rightarrow> exn + (string, string) dict" where
  "env_setdefault k v d = (case map_of d k of
      Some _ \<Rightarrow> Inr d
    | None \<Rightarrow> if null_byte k \<or> null_byte v then Inl (ValueError ''embedded null byte'')
        else if k = [] then Inl (OSError ''[Errno 22] Invalid argument'') else Inr (dset k v d))"

text \<open>The lines one after another; variables set before an exception stay set.\<close>

fun dotenv_lines :: "string list \<Rightarrow> (string, string) dict \<Rightarrow> exn option \<times> (string, string) dict" where
  "dotenv_lines [] d = (None, d)"
| "dotenv_lines (raw # rest) d = (case dotenv_entry raw of
      None \<Rightarrow> dotenv_lines rest d
    | Some (k, v) \<Rightarrow> (case env_setdefault k v d of Inl e \<Rightarrow> (Some e, d) | Inr d' \<Rightarrow> dotenv_lines rest d'))"

text \<open>
  The first of the two candidates that is a file: in the working directory, or three
  levels above the directory of the module.
\<close>

definition dotenv_file :: "fs \<Rightarrow> path \<Rightarrow> path \<Rightarrow> bytes option" where
  "dotenv_file fs cwd moddir = (case (read_bytes fs (cwd @ [''.env'']), read_bytes fs (take (length moddir - 3) moddir @ [''.env''])) of
      (Inr b, _) \<Rightarrow> Some b
    | (Inl _, Inr b) \<Rightarrow> Some b
    | _ \<Rightarrow> None)"

definition load_dotenv :: "fs \<Rightarrow> path \<Rightarrow> path \<Rightarrow> (string, string) dict \<Rightarrow> exn option \<times> (string, string) dict" where
  "load_dotenv fs cwd moddir d = (case dotenv_file fs cwd moddir of
      None \<Rightarrow> (None, d)
    | Some b \<Rightarrow> (case utf8_decode b of
        None \<Rightarrow> (Some (UnicodeDecodeError ''invalid start byte''), d)
      | Some t \<Rightarrow> dotenv_lines (split_on (CHR 0x0A) (univ_newlines t)) d))"

text \<open>The key \<open>LLMAgent.on_init\<close> finds, as \<open>llm_on_init\<close> takes it, or the exception of the file.\<close>

definition KEY_NAME :: string where
  "KEY_NAME = ''OPENROUTER_API_KEY''"

definition find_api_key :: "fs \<Rightarrow> path \<Rightarrow> path \<Rightarrow> (string, string) dict \<Rightarrow> (exn + string option) \<times> (string, string) dict" where
  "find_api_key fs cwd moddir d = (if dget d KEY_NAME [] \<noteq> [] then (Inr (map_of d KEY_NAME), d)
     else (case load_dotenv fs cwd moddir d of
         (Some e, d') \<Rightarrow> (Inl e, d')
       | (None, d') \<Rightarrow> (Inr (map_of d' KEY_NAME), d')))"

section \<open>The process and its server\<close>

datatype server_step = OpenChannel string | AddServicer | AddPort string | StartServer | PrintReady int
  | ServerStopped int | CloseChannel

record process = agent +
  pr_steps :: "server_step list"

datatype wait_end = Terminated | Cancelled | Failed exn

text \<open>What the libraries do: import a class, make an instance, bind, start, wait.\<close>

record host =
  ho_class :: "string \<Rightarrow> string \<Rightarrow> exn + unit"
  ho_instance :: "exn + unit"
  ho_port :: "string \<Rightarrow> exn + int"
  ho_start :: "exn + unit"
  ho_wait :: wait_end
  ho_stop :: "exn + unit"

abbreviation server_step :: "server_step \<Rightarrow> ('z process_scheme, unit) eff" where
  "server_step st \<equiv> modify (\<lambda>s. s\<lparr>pr_steps := pr_steps s @ [st]\<rparr>)"

text \<open>\<open>spec.rsplit(":", 1)\<close>: at the last colon.\<close>

definition rsplit_colon :: "string \<Rightarrow> string \<times> string" where
  "rsplit_colon spec = (rev (tl (dropWhile (\<lambda>c. c \<noteq> CHR '':'') (rev spec))), rev (takeWhile (\<lambda>c. c \<noteq> CHR '':'') (rev spec)))"

definition spec_quoted :: "string \<Rightarrow> string" where
  "spec_quoted t = [CHR 0x27] @ t @ [CHR 0x27]"

definition load_agent_class :: "host \<Rightarrow> string \<Rightarrow> exn + unit" where
  "load_agent_class h spec = (if CHR '':'' \<notin> set spec
     then Inl (ValueError (''Invalid agent spec '' @ spec_quoted spec @ '': expected '' @ spec_quoted ''module_path:ClassName''))
     else (case rsplit_colon spec of (module_path, class_name) \<Rightarrow> ho_class h module_path class_name))"

text \<open>A step that the library may refuse: it is taken only when it succeeds.\<close>

definition lib_step :: "(exn + 'a) \<Rightarrow> server_step \<Rightarrow> ('z process_scheme, 'a) eff" where
  "lib_step x st = bnd (lift_sum x) (\<lambda>v. seq (server_step st) (ret v))"

definition wait_for_end :: "host \<Rightarrow> ('z process_scheme, unit) eff" where
  "wait_for_end h = (case ho_wait h of
      Terminated \<Rightarrow> ret ()
    | Cancelled \<Rightarrow> lib_step (ho_stop h) (ServerStopped 5)
    | Failed e \<Rightarrow> throw e)"

definition connect_core :: "string \<Rightarrow> ('z process_scheme, unit) eff" where
  "connect_core core_addr = seq (server_step (OpenChannel core_addr))
     (seq (modify (\<lambda>s. s\<lparr>a_core := Some (CoreClient 0)\<rparr>)) (server_step AddServicer))"

definition run_agent :: "host \<Rightarrow> string \<Rightarrow> string \<Rightarrow> ('z process_scheme, unit) eff" where
  "run_agent h agent_spec core_addr = seq (lift_sum (load_agent_class h agent_spec)) (seq (lift_sum (ho_instance h))
     (seq (connect_core core_addr)
     (bnd (lib_step (ho_port h ''[::]:0'') (AddPort ''[::]:0'')) (\<lambda>port.
      seq (lib_step (ho_start h) StartServer)
      (seq (modify (\<lambda>s. s\<lparr>a_server := True\<rparr>))
      (seq (server_step (PrintReady port))
        (finallyc (wait_for_end h) (server_step CloseChannel))))))))"

text \<open>\<open>HiveAgent.run\<close>, for an agent started by a program of its own.\<close>

definition agent_run :: "host \<Rightarrow> string \<Rightarrow> string \<Rightarrow> ('z process_scheme, unit) eff" where
  "agent_run h agent_addr core_addr = seq (connect_core core_addr)
     (let addr = (if agent_addr = [] then ''[::]:0'' else agent_addr) in
      seq (lib_step (ho_port h addr) (AddPort addr)) (seq (lib_step (ho_start h) StartServer) (wait_for_end h)))"

text \<open>\<open>--core\<close>, else the environment variable, else the default.\<close>

definition core_address :: "string option \<Rightarrow> (string, string) dict \<Rightarrow> string" where
  "core_address arg d = (case arg of Some a \<Rightarrow> a | None \<Rightarrow> dget d ''HIVEKERNEL_CORE'' ''localhost:50051'')"

section \<open>Properties\<close>

lemma env_setdefault_map: "env_setdefault k v d = Inr d' \<Longrightarrow> map_of d' n = map_of (d @ [(k, v)]) n"
  by (auto simp: env_setdefault_def map_add_def split: option.splits if_splits)

text \<open>
  Loading a \<open>.env\<close> file is a lookup in the environment followed by the assignments of the file in their order:
  a variable that is set keeps its value, and of several assignments the first counts.
\<close>

theorem dotenv_first_wins:
  assumes "dotenv_lines ls d = (None, d')"
  shows "map_of d' n = map_of (d @ List.map_filter dotenv_entry ls) n"
  using assms
proof (induction ls arbitrary: d)
  case (Cons raw ls)
  show ?case
  proof (cases "dotenv_entry raw")
    case None
    with Cons show ?thesis by (simp add: List.map_filter_simps)
  next
    case (Some kv)
    obtain k v where kv: "kv = (k, v)" by force
    with Some Cons.prems obtain d1 where d1: "env_setdefault k v d = Inr d1" "dotenv_lines ls d1 = (None, d')"
      by (auto split: sum.splits)
    from Cons.IH[OF d1(2)] env_setdefault_map[OF d1(1)] Some kv show ?thesis
      by (simp add: List.map_filter_simps map_add_def split: option.splits)
  qed
qed (simp add: List.map_filter_simps)

text \<open>An agent specification is read back as the module path and the class name it was made of.\<close>

theorem agent_spec_read:
  assumes "CHR '':'' \<notin> set cls"
  shows "load_agent_class h (m @ '':'' @ cls) = ho_class h m cls"
proof -
  have "rsplit_colon (m @ '':'' @ cls) = (m, cls)"
    using assms by (simp add: rsplit_colon_def takeWhile_append dropWhile_append)
  then show ?thesis by (simp add: load_agent_class_def)
qed

text \<open>
  The kernel waits for the line \<open>READY <port>\<close>.  The runner prints it if and only if the class was loaded, an
  instance made, the port bound and the server started; it names the bound port and comes after those
  steps, the agent can then stop its own server, and however the wait for its end turns out, the last step
  closes the channel to the core.
\<close>

theorem runner_ready:
  assumes "pr_steps s = []" "t = final (run_agent h spec core_addr) s"
  shows "(PrintReady p \<in> set (pr_steps t) \<longleftrightarrow> load_agent_class h spec = Inr () \<and> ho_instance h = Inr () \<and>
      ho_port h ''[::]:0'' = Inr p \<and> ho_start h = Inr ()) \<and>
    (PrintReady p \<in> set (pr_steps t) \<longrightarrow> a_server t \<and> last (pr_steps t) = CloseChannel \<and>
      take 5 (pr_steps t) = [OpenChannel core_addr, AddServicer, AddPort ''[::]:0'', StartServer, PrintReady p])"
  unfolding assms(2) using assms(1)
  by (cases "load_agent_class h spec"; cases "ho_instance h"; cases "ho_port h ''[::]:0''"; cases "ho_start h"; cases "ho_wait h";
      cases "ho_stop h")
    (auto simp: run_agent_def connect_core_def lib_step_def wait_for_end_def lift_sum_def eff_defs)

section \<open>Examples\<close>

definition example_host :: host where
  "example_host = \<lparr>ho_class = \<lambda>m c. if m = ''pkg.mod'' \<and> c = ''Agent'' then Inr () else Inl (ImportError m),
     ho_instance = Inr (), ho_port = \<lambda>_. Inr 40123, ho_start = Inr (), ho_wait = Cancelled, ho_stop = Inr ()\<rparr>"

definition example_process :: process where
  "example_process = \<lparr>trace = [], a_pid = 0, a_ppid = 0, a_user = [], a_role = [], a_config = AgentConfig, a_core = None,
     a_server = False, pending_requests = no_futures, pending_results = [], pr_steps = []\<rparr>"

theorem dotenv_first_wins_witness:
  "dotenv_lines [''# keys'', ''A = 1'', ''B=2'', ''B=3''] [(''A'', ''0'')] = (None, [(''A'', ''0''), (''B'', ''2'')]) \<and>
   map_of [(''A'', ''0''), (''B'', ''2'')] ''B'' =
     map_of ([(''A'', ''0'')] @ List.map_filter dotenv_entry [''# keys'', ''A = 1'', ''B=2'', ''B=3'']) ''B''"
proof -
  have run: "dotenv_lines [''# keys'', ''A = 1'', ''B=2'', ''B=3''] [(''A'', ''0'')] = (None, [(''A'', ''0''), (''B'', ''2'')])"
    by code_simp
  from dotenv_first_wins[OF run, of "''B''"] run show ?thesis by blast
qed

theorem agent_spec_read_witness: "load_agent_class example_host (''pkg.mod'' @ '':'' @ ''Agent'') = Inr ()"
  using agent_spec_read[of "''Agent''" example_host "''pkg.mod''"] by (simp add: example_host_def)

theorem runner_ready_witness:
  "pr_steps (final (run_agent example_host ''pkg.mod:Agent'' ''core:1'') example_process) =
     [OpenChannel ''core:1'', AddServicer, AddPort ''[::]:0'', StartServer, PrintReady 40123, ServerStopped 5, CloseChannel] \<and>
   a_server (final (run_agent example_host ''pkg.mod:Agent'' ''core:1'') example_process)"
proof -
  have run: "pr_steps (final (run_agent example_host ''pkg.mod:Agent'' ''core:1'') example_process) =
     [OpenChannel ''core:1'', AddServicer, AddPort ''[::]:0'', StartServer, PrintReady 40123, ServerStopped 5, CloseChannel]"
    by code_simp
  have "pr_steps example_process = []" by (simp add: example_process_def)
  from runner_ready[OF this refl, of 40123 example_host "''pkg.mod:Agent''" "''core:1''"] run show ?thesis by simp
qed

end
