(* ===== verification/DialogLog.thy ===== *)
theory DialogLog
  imports Startup
begin

text \<open>
  \<open>DialogLogger\<close> of \<open>dialog_log.py\<close>: one line of JSON for each LLM call, appended to a file that the agents
  of a session share.  The time stamps are arguments.  The calls the LLM client makes to it
  change nothing but this file and are not part of the model of the client.
\<close>

record dialog_logger =
  dg_path :: string
  dg_pid :: pid
  dg_agent :: string
  dg_trace_id :: string

text \<open>The arguments of \<open>log\<close>.\<close>

record dialog_call =
  dc_method :: string
  dc_model :: string
  dc_messages :: "json list"
  dc_tools :: "json list option"
  dc_params :: "(string, json) dict"
  dc_response :: json
  dc_usage :: json
  dc_latency_ms :: rat
  dc_generation_id :: json
  dc_provider :: json

text \<open>A path as the operating system takes it, from the working directory if it is relative.\<close>

definition os_path :: "path \<Rightarrow> string \<Rightarrow> path" where
  "os_path cwd s = (if is_abs s then [] else cwd) @ split_on slash s"

definition log_dir :: string where
  "log_dir = path_join ''logs'' ''dialogs''"

text \<open>The constructor; \<open>now\<close> is used when the session has no time stamp.\<close>

definition DialogLogger :: "path \<Rightarrow> (string, string) dict \<Rightarrow> string \<Rightarrow> pid \<Rightarrow> string \<Rightarrow> fs \<Rightarrow> (exn + dialog_logger) \<times> fs" where
  "DialogLogger cwd environ now p agent_name fs =
     (let ts0 = dget environ ''HIVE_SESSION_TS'' []; session_ts = (if ts0 = [] then now else ts0);
          (err, fs1) = makedirs fs (os_path cwd log_dir) in
      case err of
        Some e \<Rightarrow> (Inl (errno_exn (os_path cwd log_dir) e), fs1)
      | None \<Rightarrow> (Inr \<lparr>dg_path = path_join log_dir (session_ts @ ''.jsonl''), dg_pid = p, dg_agent = agent_name, dg_trace_id = []\<rparr>, fs1))"

definition dialog_entry :: "string \<Rightarrow> dialog_logger \<Rightarrow> dialog_call \<Rightarrow> json" where
  "dialog_entry now lg c = JObj [(''ts'', JStr now), (''pid'', JInt (dg_pid lg)), (''agent'', JStr (dg_agent lg)),
     (''trace_id'', JStr (dg_trace_id lg)), (''generation_id'', dc_generation_id c), (''provider'', dc_provider c),
     (''model'', JStr (dc_model c)), (''method'', JStr (dc_method c)),
     (''request'', JObj (foldl (\<lambda>d (k, v). dset k v d)
        [(''messages'', JList (dc_messages c)), (''tools'', case dc_tools c of None \<Rightarrow> JNull | Some ts \<Rightarrow> JList ts)] (dc_params c))),
     (''response'', dc_response c), (''usage'', dc_usage c), (''latency_ms'', JFloat (str_float1 (round1 (dc_latency_ms c))))]"

text \<open>Opening for appending: where the file is, and what it holds.\<close>

definition open_a :: "fs \<Rightarrow> path \<Rightarrow> errno + path \<times> bytes" where
  "open_a fs p = (case lookup fs p of
      Inl e \<Rightarrow> Inl e
    | Inr q \<Rightarrow> (case node_at fs q of
        Some Dir \<Rightarrow> Inl EISDIR
      | Some (File b) \<Rightarrow> Inr (q, b)
      | Some (Link _) \<Rightarrow> Inl ELOOP
      | None \<Rightarrow> Inr (q, [])))"

text \<open>\<open>log\<close>: every exception of opening and writing is dropped.\<close>

definition dialog_log :: "path \<Rightarrow> dialog_logger \<Rightarrow> string \<times> dialog_call \<Rightarrow> fs \<Rightarrow> fs" where
  "dialog_log cwd lg nc fs = (if null_byte (dg_path lg) then fs
     else case open_a fs (os_path cwd (dg_path lg)) of
         Inl _ \<Rightarrow> fs
       | Inr (q, b) \<Rightarrow> dset q (File (b @ utf8_encode (dumps False (dialog_entry (fst nc) lg (snd nc)) @ nl))) fs)"

section \<open>Lines\<close>

text \<open>Printed JSON has no line feed, if the texts of its floats have none.\<close>

fun floats_ok :: "json \<Rightarrow> bool" where
  "floats_ok (JFloat t) = (CHR 0x0A \<notin> set t)"
| "floats_ok (JList xs) = (\<forall>x \<in> set xs. floats_ok x)"
| "floats_ok (JObj kvs) = (\<forall>p \<in> set kvs. floats_ok (snd p))"
| "floats_ok _ = True"

lemma hex_digit_line: "n < 16 \<Longrightarrow> hex_digit n \<noteq> CHR 0x0A"
proof -
  assume n: "n < 16"
  then have "of_char (hex_digit n) = (if n < 10 then 48 + n else 87 + n)" by (simp add: hex_digit_def)
  then have "of_char (hex_digit n) \<noteq> (10 :: nat)" using n by (simp split: if_splits)
  then show ?thesis by auto
qed

lemma quote_line: "CHR 0x0A \<notin> set (json_quote ea s)"
proof -
  have "CHR 0x0A \<notin> set (u_escape c)" for c
  proof -
    have "(of_char c :: nat) div 16 < 16" by (rule less_mult_imp_div_less) simp
    then show ?thesis using hex_digit_line[of "of_char c div 16"] hex_digit_line[of "of_char c mod 16"]
      by (auto simp: u_escape_def Let_def)
  qed
  then show ?thesis by (auto simp: json_quote_def json_char_def)
qed

lemma str_nat_line: "CHR 0x0A \<notin> set (str_nat n)"
  using str_nat_digits[of n] by (auto simp: is_digit_def)

lemma join_line: "c \<notin> set sep \<Longrightarrow> (\<And>x. x \<in> set xs \<Longrightarrow> c \<notin> set x) \<Longrightarrow> c \<notin> set (join sep xs)"
  by (induction sep xs rule: join.induct) auto

lemma dumps_line: "floats_ok j \<Longrightarrow> CHR 0x0A \<notin> set (dumps ea j)"
proof (induction j rule: floats_ok.induct)
  case (2 xs)
  then have "CHR 0x0A \<notin> set (join '', '' (map (dumps ea) xs))" by (intro join_line) auto
  then show ?case by simp
next
  case (3 kvs)
  then have "CHR 0x0A \<notin> set (join '', '' (map (\<lambda>(k, v). json_quote ea k @ '': '' @ dumps ea v) kvs))"
    using quote_line by (intro join_line) auto
  then show ?case by simp
qed (auto simp: quote_line str_int_def str_nat_line)

lemma float_line: "CHR 0x0A \<notin> set (str_float1 x)"
  by (simp add: str_float1_def Let_def str_nat_line)

text \<open>The text of a log: the lines of its entries.\<close>

definition log_text :: "json list \<Rightarrow> string" where
  "log_text es = concat (map (\<lambda>e. dumps False e @ nl) es)"

lemma split_on_line: "c \<notin> set x \<Longrightarrow> split_on c (x @ c # s) = x # split_on c s"
  by (induction x) auto

lemma log_text_lines: "\<forall>e \<in> set es. floats_ok e \<Longrightarrow> split_on (CHR 0x0A) (log_text es) = map (dumps False) es @ [[]]"
  by (induction es) (simp_all add: log_text_def split_on_line dumps_line nl_def)

section \<open>Properties\<close>

definition dialog_logs :: "path \<Rightarrow> dialog_logger \<Rightarrow> (string \<times> dialog_call) list \<Rightarrow> fs \<Rightarrow> fs" where
  "dialog_logs cwd lg calls fs = foldl (\<lambda>fs nc. dialog_log cwd lg nc fs) fs calls"

lemma dialog_log_file:
  assumes "good fs p" "list_all name_ok p" "p \<noteq> []" "p = os_path cwd (dg_path lg)" "\<not> null_byte (dg_path lg)"
    and "lookup fs p = Inr p" "map_of fs p = Some (File b)"
  shows "\<exists>fs'. dialog_log cwd lg nc fs = fs' \<and> good fs' p \<and> lookup fs' p = Inr p \<and>
    map_of fs' p = Some (File (b @ utf8_encode (log_text [dialog_entry (fst nc) lg (snd nc)])))"
proof -
  let ?f = "File (b @ utf8_encode (dumps False (dialog_entry (fst nc) lg (snd nc)) @ nl))"
  have "open_a fs p = Inr (p, b)" using assms(3,6,7) by (simp add: open_a_def node_at_def)
  then have "dialog_log cwd lg nc fs = dset p ?f fs" using assms(4,5) by (simp add: dialog_log_def)
  moreover have "good (dset p ?f fs) p"
    using assms(7) by (intro good_links[OF links_same_dset assms(1)]) simp_all
  moreover have "lookup (dset p ?f fs) p = Inr p" by (rule lookup_update[OF assms(1,2,6,3)]) simp
  ultimately show ?thesis by (simp add: log_text_def)
qed

lemma utf8_append: "utf8_encode (a @ b) = utf8_encode a @ utf8_encode b"
  by (simp add: utf8_encode_def)

lemma dialog_logs_file:
  assumes "good fs p" "list_all name_ok p" "p \<noteq> []" "p = os_path cwd (dg_path lg)" "\<not> null_byte (dg_path lg)"
    and "lookup fs p = Inr p" "map_of fs p = Some (File b)"
  shows "map_of (dialog_logs cwd lg calls fs) p = Some (File (b @ utf8_encode (log_text (map (\<lambda>nc. dialog_entry (fst nc) lg (snd nc)) calls))))"
  using assms(1,6,7)
proof (induction calls arbitrary: fs b)
  case Nil
  then show ?case by (simp add: dialog_logs_def log_text_def utf8_encode_def)
next
  case (Cons nc calls)
  obtain fs' where fs': "dialog_log cwd lg nc fs = fs'" "good fs' p" "lookup fs' p = Inr p"
    "map_of fs' p = Some (File (b @ utf8_encode (log_text [dialog_entry (fst nc) lg (snd nc)])))"
    using dialog_log_file[OF Cons.prems(1) assms(2-5) Cons.prems(2,3)] by blast
  from Cons.IH[OF fs'(2-4)] fs'(1) show ?case by (simp add: dialog_logs_def log_text_def utf8_append)
qed

text \<open>
  The dialog log is a JSON Lines file: logging calls to a log that is an empty file never fails and leaves, for each
  call in order, exactly one line, the JSON of its entry, whatever line feeds the texts of the dialog have.
\<close>

theorem dialog_log_lines:
  assumes "good fs p" "list_all name_ok p" "p \<noteq> []" "p = os_path cwd (dg_path lg)" "\<not> null_byte (dg_path lg)"
    and "lookup fs p = Inr p" "map_of fs p = Some (File [])"
    and "\<forall>nc \<in> set calls. floats_ok (dialog_entry (fst nc) lg (snd nc))"
  shows "\<exists>b t. map_of (dialog_logs cwd lg calls fs) p = Some (File b) \<and> utf8_decode b = Some t \<and>
    split_on (CHR 0x0A) t = map (\<lambda>nc. dumps False (dialog_entry (fst nc) lg (snd nc))) calls @ [[]]"
  using dialog_logs_file[OF assms(1-7), of calls] log_text_lines[of "map (\<lambda>nc. dialog_entry (fst nc) lg (snd nc)) calls"] assms(8)
  by (simp add: comp_def)

definition example_logs :: fs where
  "example_logs = [([''logs''], Dir), ([''logs'', ''dialogs''], Dir), ([''logs'', ''dialogs'', ''s.jsonl''], File [])]"

definition example_dialog :: dialog_call where
  "example_dialog = \<lparr>dc_method = ''chat'', dc_model = ''m'', dc_messages = [JStr (''a'' @ nl @ ''b'')], dc_tools = None,
     dc_params = [(''max_tokens'', JInt 5)], dc_response = JNull, dc_usage = JNull, dc_latency_ms = 3 / 2,
     dc_generation_id = JStr [], dc_provider = JStr []\<rparr>"

definition example_logger :: dialog_logger where
  "example_logger = \<lparr>dg_path = ''logs/dialogs/s.jsonl'', dg_pid = 2, dg_agent = ''a'', dg_trace_id = []\<rparr>"

lemma example_logger_made: "DialogLogger [] [(''HIVE_SESSION_TS'', ''s'')] [] 2 ''a'' example_logs = (Inr example_logger, example_logs)"
  by code_simp

theorem dialog_log_lines_witness:
  "\<exists>b t. map_of (dialog_logs [] example_logger [(''t0'', example_dialog), (''t1'', example_dialog)] example_logs) [''logs'', ''dialogs'', ''s.jsonl''] = Some (File b) \<and>
     utf8_decode b = Some t \<and> length (split_on (CHR 0x0A) t) = 3"
proof -
  let ?p = "[''logs'', ''dialogs'', ''s.jsonl'']"
  have fs: "lookup example_logs ?p = Inr ?p" "map_of example_logs ?p = Some (File [])" "?p = os_path [] (dg_path example_logger)"
    "\<not> null_byte (dg_path example_logger)" "list_all name_ok ?p" by code_simp+
  have good: "good example_logs ?p" by (auto simp: good_def example_logs_def split: if_splits)
  have entries: "floats_ok (dialog_entry ''t0'' example_logger example_dialog)" "floats_ok (dialog_entry ''t1'' example_logger example_dialog)"
    by (simp_all add: dialog_entry_def example_dialog_def float_line)
  from dialog_log_lines[OF good fs(5) _ fs(3,4,1,2), of "[(''t0'', example_dialog), (''t1'', example_dialog)]"] entries
  show ?thesis by auto
qed

end
