(* ===== verification/Queen.thy ===== *)
theory Queen
  imports Accounting
begin

text \<open>
  \<open>QueenAgent\<close> of \<open>queen.py\<close>: the assessment of a task (history, keywords, LLM), the pool
  of idle leads, the three execution strategies, the two entry points and the reaper.
  Coroutines are run one after the other, except for the reaper, whose awaits are where
  other coroutines change the pool.
\<close>

section \<open>State\<close>

record history_entry =
  he_task :: string
  he_complexity :: string
  he_exit_code :: int
  he_ts :: rat

record queen = llm_agent +
  idle_leads :: "(pid \<times> rat) list"
  queen_history :: "history_entry list"
  max_workers :: string

definition LEAD_IDLE_TIMEOUT :: rat where "LEAD_IDLE_TIMEOUT = 300"
definition MAX_HISTORY :: nat where "MAX_HISTORY = 20"
definition SIMILARITY_THRESHOLD :: rat where "SIMILARITY_THRESHOLD = 1 / 2"

definition SIMPLE_KEYWORDS :: "string list" where
  "SIMPLE_KEYWORDS = [''translate'', ''summarize'', ''define'', ''explain'', ''convert'', ''format'', ''count'',
     ''list'', ''describe'', ''what'']"

definition COMPLEX_KEYWORDS :: "string list" where
  "COMPLEX_KEYWORDS = [''research'', ''analyze'', ''compare'', ''investigate'', ''plan'', ''design'', ''implement'',
     ''evaluate'', ''review'', ''create'', ''develop'', ''build'', ''optimize'', ''benchmark'']"

definition ARCHITECT_KEYWORDS :: "string list" where
  "ARCHITECT_KEYWORDS = [''architect'', ''architecture'', ''blueprint'', ''roadmap'', ''infrastructure'', ''framework'']"

text \<open>\<open>self.core\<close>, when it is used without a check.\<close>

definition get_core :: "('z agent_scheme, core_client) eff" where
  "get_core = bnd (gets a_core) (of_opt (AttributeError ''NoneType object has no attribute''))"

definition info_log :: "env \<Rightarrow> string \<Rightarrow> string \<Rightarrow> ('z agent_scheme, unit) eff" where
  "info_log env level msg = bnd get_core (\<lambda>c. core_log env c level msg [])"

section \<open>Assessing a task\<close>

definition word_similarity :: "string \<Rightarrow> string \<Rightarrow> rat" where
  "word_similarity a b = (let wa = set (split_ws (lower a)); wb = set (split_ws (lower b)) in
     if wa = {} \<or> wb = {} then 0 else of_nat (card (wa \<inter> wb)) / of_nat (card (wa \<union> wb)))"

definition hits :: "string \<Rightarrow> string list \<Rightarrow> nat" where
  "hits description keywords = (let ws = split_ws (lower description) in
     length (filter (\<lambda>k. k \<in> set ws) keywords))"

definition heuristic :: "string \<Rightarrow> string option" where
  "heuristic description =
     (if hits description ARCHITECT_KEYWORDS \<ge> 1 then Some ''architect''
      else if length description < 80 \<and> hits description SIMPLE_KEYWORDS > 0 \<and> hits description COMPLEX_KEYWORDS = 0
      then Some ''simple''
      else if length description > 200 \<or> hits description COMPLEX_KEYWORDS \<ge> 2 then Some ''complex''
      else None)"

definition quoted :: "string \<Rightarrow> string" where
  "quoted t = [CHR 0x22] @ t @ [CHR 0x22]"

definition complexity_object :: "string \<Rightarrow> string" where
  "complexity_object c = ''{'' @ quoted ''complexity'' @ '': '' @ quoted c @ ''}''"

definition complexity_prompt :: "string \<Rightarrow> string" where
  "complexity_prompt description = (let br = [CHR 0x0A] in
     ''You are a task complexity assessor. Determine the execution strategy for the following task.'' @ br @ br @
     ''Task: '' @ description @ br @ br @ ''Options:'' @ br @
     ''- '' @ quoted ''simple'' @ '': single step, one agent can handle it'' @ br @
     ''- '' @ quoted ''complex'' @ '': needs decomposition into multiple subtasks'' @ br @
     ''- '' @ quoted ''architect'' @ '': needs strategic planning/design before execution'' @ br @ br @
     ''Reply with ONLY a JSON object: '' @ complexity_object ''simple'' @ '' or '' @ complexity_object ''complex'' @
     '' or '' @ complexity_object ''architect'' @ ''. No other text.'')"

definition strip_fence :: "string \<Rightarrow> string" where
  "strip_fence response = (let text = strip response in
     if startswith text ''```''
     then join [CHR 0x0A] (filter (\<lambda>l. \<not> startswith (strip l) ''```'') (split_on (CHR 0x0A) text))
     else text)"

definition COMPLEXITIES :: "string list" where
  "COMPLEXITIES = [''simple'', ''complex'', ''architect'']"

definition read_complexity :: "json \<Rightarrow> string" where
  "read_complexity response = (case response of
      JStr t \<Rightarrow> (case loads (strip_fence t) of
          Some (JObj kvs) \<Rightarrow> (case dget kvs ''complexity'' (JStr ''complex'') of
              JStr c \<Rightarrow> if c \<in> set COMPLEXITIES then c else ''complex''
            | _ \<Rightarrow> ''complex'')
        | _ \<Rightarrow> ''complex'')
    | _ \<Rightarrow> ''complex'')"

definition assess_complexity_llm :: "env \<Rightarrow> string \<Rightarrow> ('z llm_agent_scheme, string) eff" where
  "assess_complexity_llm env description =
     tryc (bnd (ask env (complexity_prompt description) [] 64 ''0.0'') (\<lambda>r. ret (read_complexity r)))
       (\<lambda>_. ret ''complex'')"

definition assess_complexity :: "env \<Rightarrow> string \<Rightarrow> ('z queen_scheme, string) eff" where
  "assess_complexity env description = bnd (gets queen_history) (\<lambda>hist.
     case find (\<lambda>e. word_similarity (he_task e) description \<ge> SIMILARITY_THRESHOLD) hist of
       Some e \<Rightarrow> ret (he_complexity e)
     | None \<Rightarrow> (case heuristic description of
           Some c \<Rightarrow> ret c
         | None \<Rightarrow> assess_complexity_llm env description))"

section \<open>The Maid's report\<close>

text \<open>\<open>"; ".join(xs)\<close> of a list of strings, of a string or of the keys of an object.\<close>

fun join_values :: "json \<Rightarrow> string option" where
  "join_values (JList xs) = map_option (join ''; '') (those (map (\<lambda>x. case x of JStr t \<Rightarrow> Some t | _ \<Rightarrow> None) xs))"
| "join_values (JStr t) = Some (join ''; '' (map (\<lambda>c. [c]) t))"
| "join_values (JObj kvs) = Some (join ''; '' (map fst kvs))"
| "join_values _ = None"

definition health_warning :: "bytes \<Rightarrow> string" where
  "health_warning content = (case utf8_decode content of
      None \<Rightarrow> []
    | Some t \<Rightarrow> (case loads t of
        Some (JObj kvs) \<Rightarrow> (let a = dget kvs ''anomalies'' JNull in
          if truthy a then (case join_values a of None \<Rightarrow> [] | Some w \<Rightarrow> w) else [])
      | _ \<Rightarrow> []))"

definition check_maid_health :: "env \<Rightarrow> ('z agent_scheme, string) eff" where
  "check_maid_health env = bnd (gets a_core) (\<lambda>c. case c of
      None \<Rightarrow> ret []
    | Some core \<Rightarrow> tryc (bnd (get_artifact env core ''maid/health-report'' []) (\<lambda>b. ret (health_warning b)))
        (\<lambda>_. ret []))"

section \<open>Leads\<close>

text \<open>
  The \<open>while\<close> loop of \<open>_acquire_lead\<close> takes one lead out of the pool in every round, so
  it makes at most as many rounds as there are leads.
\<close>

fun reuse_lead :: "env \<Rightarrow> nat \<Rightarrow> ('z queen_scheme, pid option) eff" where
  "reuse_lead env 0 = ret None"
| "reuse_lead env (Suc n) = bnd (gets idle_leads) (\<lambda>ls. case ls of
      [] \<Rightarrow> ret None
    | (p, _) # rest \<Rightarrow> seq (modify (\<lambda>s. s\<lparr>idle_leads := rest\<rparr>))
        (bnd (tryc (bnd get_core (\<lambda>c. bnd (get_process_info env c p) (\<lambda>i. ret (pi_state i = 0 \<or> pi_state i = 1))))
                (\<lambda>_. ret False))
          (\<lambda>alive. if alive then ret (Some p) else reuse_lead env n)))"

definition lead_prompt :: string where
  "lead_prompt = ''You are a task orchestrator. You decompose tasks, delegate to workers, and synthesize results.''"

definition acquire_lead :: "env \<Rightarrow> bool \<Rightarrow> ('z queen_scheme, pid) eff" where
  "acquire_lead env with_ctx = bnd (gets (length \<circ> idle_leads)) (\<lambda>n. bnd (reuse_lead env n) (\<lambda>r. case r of
      Some p \<Rightarrow> ret p
    | None \<Rightarrow>
        if with_ctx then sys_spawn env ''queen-lead'' ''lead'' ''tactical'' lead_prompt ''sonnet'' None [] None
          ''hivekernel_sdk.orchestrator:OrchestratorAgent'' ''python''
        else bnd get_core (\<lambda>c. spawn_child env c ''queen-lead'' ''lead'' ''tactical'' lead_prompt ''sonnet'' None [] None
          ''hivekernel_sdk.orchestrator:OrchestratorAgent'' ''python'')))"

definition release_lead :: "env \<Rightarrow> pid \<Rightarrow> ('z queen_scheme, unit) eff" where
  "release_lead env lead_pid = bnd (time_time env) (\<lambda>now.
     modify (\<lambda>s. s\<lparr>idle_leads := idle_leads s @ [(lead_pid, now)]\<rparr>))"

definition kill_quietly :: "env \<Rightarrow> pid \<Rightarrow> ('z agent_scheme, unit) eff" where
  "kill_quietly env p = tryc (bnd get_core (\<lambda>c. seq (kill_child env c p True) (ret ()))) (\<lambda>_. ret ())"

section \<open>Strategies\<close>

text \<open>
  The trace id of an IPC task is whatever its payload has: a text is added to the
  parameters, any other true value makes the request constructor raise.
\<close>

definition run_on :: "env \<Rightarrow> pid \<Rightarrow> string \<Rightarrow> params \<Rightarrow> json \<Rightarrow> int \<Rightarrow> ('z agent_scheme, task_result) eff" where
  "run_on env p description ps trace_id timeout = bnd get_core (\<lambda>c. case trace_id of
      JStr t \<Rightarrow> execute_task env c p description (Some (if t = [] then ps else dset ''trace_id'' t ps)) timeout
    | j \<Rightarrow> if truthy j then throw (TypeError ''bad argument type for built-in operation'')
           else execute_task env c p description (Some ps) timeout)"

definition with_meta :: "(string, string) dict \<Rightarrow> task_result \<Rightarrow> task_result" where
  "with_meta kvs r = r\<lparr>tr_metadata := foldl (\<lambda>d (k, v). dset k v d) (tr_metadata r) kvs\<rparr>"

definition failed :: "string \<Rightarrow> exn \<Rightarrow> task_result" where
  "failed what e = TaskResult 1 (what @ exn_str e) [] []"

definition handle_simple :: "env \<Rightarrow> string \<Rightarrow> json \<Rightarrow> ('z queen_scheme, task_result) eff" where
  "handle_simple env description trace_id =
     bnd (tryc (seq (info_log env ''info'' ''Simple strategy: spawning task worker'')
        (bnd get_core (\<lambda>c. bnd (spawn_child env c ''queen-task'' ''task'' ''operational''
           ''You are a skilled assistant. Complete the given task thoroughly and concisely.'' ''mini'' None [] None
           ''hivekernel_sdk.worker:WorkerAgent'' ''python'') (\<lambda>p. ret (Inr p))))) (\<lambda>e. ret (Inl e)))
     (\<lambda>r. case r of
        Inl e \<Rightarrow> ret (failed ''Task failed: '' e)
      | Inr worker_pid \<Rightarrow> tryc
          (bnd (run_on env worker_pid description [(''subtask'', description)] trace_id 120) (\<lambda>res.
           seq (kill_quietly env worker_pid) (ret (with_meta [(''strategy'', ''simple'')] res))))
          (\<lambda>e. seq (whenc (worker_pid \<noteq> 0) (kill_quietly env worker_pid)) (ret (failed ''Task failed: '' e))))"

definition handle_complex :: "env \<Rightarrow> string \<Rightarrow> json \<Rightarrow> ('z queen_scheme, task_result) eff" where
  "handle_complex env description trace_id =
     seq (info_log env ''info'' ''Complex strategy: acquiring orchestrator lead'')
     (bnd (acquire_lead env False) (\<lambda>lead_pid.
      tryc (bnd (gets max_workers) (\<lambda>mw.
            bnd (run_on env lead_pid description [(''task'', description), (''max_workers'', mw)] trace_id 300) (\<lambda>res.
            seq (release_lead env lead_pid)
              (ret (with_meta [(''strategy'', ''complex''), (''lead_pid'', str_int lead_pid)] res)))))
        (\<lambda>e. seq (kill_quietly env lead_pid) (ret (failed ''Task failed: '' e)))))"

text \<open>The second half of the architect strategy: the lead runs the plan.\<close>

definition run_plan :: "env \<Rightarrow> string \<Rightarrow> json \<Rightarrow> pid \<Rightarrow> string \<Rightarrow> ('z queen_scheme, task_result) eff" where
  "run_plan env description trace_id arch_pid plan_json =
     seq (info_log env ''info'' (''Architect plan received ('' @ str_nat (length plan_json) @ '' bytes)''))
     (bnd (acquire_lead env False) (\<lambda>lead_pid.
      tryc (bnd (gets max_workers) (\<lambda>mw.
            bnd (run_on env lead_pid description [(''task'', description), (''plan'', plan_json), (''max_workers'', mw)]
                   trace_id 300) (\<lambda>res.
            seq (release_lead env lead_pid)
              (ret (with_meta [(''strategy'', ''architect''), (''architect_pid'', str_int arch_pid)] res)))))
        (\<lambda>e. seq (info_log env ''error'' (''Lead execution failed: '' @ exn_str e))
          (seq (kill_quietly env lead_pid) (ret (failed ''Architect execution failed: '' e))))))"

definition handle_architect :: "env \<Rightarrow> string \<Rightarrow> json \<Rightarrow> ('z queen_scheme, task_result) eff" where
  "handle_architect env description trace_id =
     seq (info_log env ''info'' ''Architect strategy: spawning strategic planner'')
     (bnd get_core (\<lambda>c. bnd (spawn_child env c ''architect'' ''task'' ''tactical''
        ''You are a strategic architect. Analyze tasks thoroughly, identify challenges, and produce detailed execution plans.''
        ''sonnet'' None [] None ''hivekernel_sdk.architect:ArchitectAgent'' ''python'') (\<lambda>arch_pid.
     seq (info_log env ''info'' (''Architect spawned as PID '' @ str_int arch_pid))
     (bnd (gets max_workers) (\<lambda>mw.
      bnd (tryc (bnd (run_on env arch_pid description [(''task'', description), (''max_workers'', mw)] trace_id 120)
                  (\<lambda>r. ret (Inr (tr_output r)))) (\<lambda>e. ret (Inl e)))
      (\<lambda>plan. case plan of
         Inl e \<Rightarrow> seq (info_log env ''error'' (''Architect failed: '' @ exn_str e @ '', falling back to complex''))
            (handle_complex env description trace_id)
       | Inr plan_json \<Rightarrow> run_plan env description trace_id arch_pid plan_json))))))"

definition run_strategy :: "env \<Rightarrow> string \<Rightarrow> string \<Rightarrow> json \<Rightarrow> ('z queen_scheme, task_result) eff" where
  "run_strategy env complexity description trace_id =
     (if complexity = ''simple'' then handle_simple env description trace_id
      else if complexity = ''architect'' then handle_architect env description trace_id
      else handle_complex env description trace_id)"

section \<open>Entry points\<close>

text \<open>\<open>deque(maxlen=MAX_HISTORY)\<close> drops at the front.\<close>

definition remember :: "'z queen_scheme \<Rightarrow> history_entry \<Rightarrow> 'z queen_scheme" where
  "remember s e = s\<lparr>queen_history := last_n MAX_HISTORY (queen_history s @ [e])\<rparr>"

interpretation history: bounded_log remember queen_history MAX_HISTORY
  by unfold_locales (simp add: remember_def)

definition record_result :: "env \<Rightarrow> string \<Rightarrow> string \<Rightarrow> task_result \<Rightarrow> ('z queen_scheme, unit) eff" where
  "record_result env description complexity r = bnd (time_time env) (\<lambda>now.
     modify (\<lambda>s. remember s \<lparr>he_task = description, he_complexity = complexity, he_exit_code = tr_exit_code r, he_ts = now\<rparr>))"

definition store_result :: "env \<Rightarrow> string \<Rightarrow> string \<Rightarrow> task_result \<Rightarrow> ('z agent_scheme, unit) eff" where
  "store_result env description complexity r = tryc (bnd get_core (\<lambda>c. seq (store_artifact env c
       (''queen-result-'' @ take 40 (replace_all '' '' ''-'' (lower description)))
       (utf8_encode (dumps False (JObj [(''task'', JStr description), (''complexity'', JStr complexity),
          (''output'', JStr (take 4000 (tr_output r))), (''exit_code'', JInt (tr_exit_code r))])))
       ''application/json'' 3) (ret ()))) (\<lambda>_. ret ())"

definition warn_health :: "env \<Rightarrow> ('z agent_scheme, unit) eff" where
  "warn_health env = bnd (check_maid_health env) (\<lambda>w.
     whenc (w \<noteq> []) (info_log env ''warn'' (''Maid health: '' @ w)))"

definition params_json :: "params \<Rightarrow> json" where
  "params_json ps = JObj (map (\<lambda>(k, v). (k, JStr v)) ps)"

definition ipc_task :: "env \<Rightarrow> string \<Rightarrow> json \<Rightarrow> ('z queen_scheme, bytes) eff" where
  "ipc_task env description trace_id = seq (warn_health env)
     (bnd (assess_complexity env description) (\<lambda>complexity.
      bnd (run_strategy env complexity description trace_id) (\<lambda>r.
      seq (record_result env description complexity r) (seq (store_result env description complexity r)
      (ret (utf8_encode (dumps False (JObj [(''output'', JStr (tr_output r)), (''exit_code'', JInt (tr_exit_code r)),
         (''metadata'', params_json (tr_metadata r))]))))))))"

text \<open>
  The body of the \<open>try\<close> of \<open>_process_message_task\<close>.  A description that is no text is
  cut for the log line, which raises unless it is a list, and then has no \<open>lower\<close>.
\<close>

definition ipc_payload :: "env \<Rightarrow> bytes \<Rightarrow> ('z queen_scheme, bytes) eff" where
  "ipc_payload env b =
     bnd (of_opt (UnicodeDecodeError ''invalid start byte'') (utf8_decode b)) (\<lambda>text.
     bnd (of_opt (JSONDecodeError ''Expecting value'') (loads text)) (\<lambda>payload.
     bnd (lift_sum (get_key ''description'' (JStr []) payload)) (\<lambda>d0.
     bnd (lift_sum (get_key ''task'' d0 payload)) (\<lambda>description.
     bnd (lift_sum (get_key ''trace_id'' (JStr []) payload)) (\<lambda>t0.
     bnd (if truthy t0 then ret t0 else bnd (uuid4 env) (\<lambda>u. ret (JStr u))) (\<lambda>trace_id.
     if \<not> truthy description then ret (utf8_encode (dumps True (JObj [(''error'', JStr ''empty task'')])))
     else case description of
         JStr d \<Rightarrow> ipc_task env d trace_id
       | JList _ \<Rightarrow> seq (warn_health env) (throw (AttributeError ''list object has no attribute lower''))
       | _ \<Rightarrow> throw (TypeError ''object is not subscriptable'')))))))"

definition process_message_task :: "env \<Rightarrow> message \<Rightarrow> ('z queen_scheme, unit) eff" where
  "process_message_task env m =
     bnd (tryc (ipc_payload env (ms_payload m))
        (\<lambda>e. ret (utf8_encode (dumps True (JObj [(''error'', JStr (exn_str e)), (''exit_code'', JInt 1)])))))
     (\<lambda>result_payload. bnd (gets a_core) (\<lambda>c. case c of
        None \<Rightarrow> ret ()
      | Some core \<Rightarrow> whenc (ms_from_pid m \<noteq> 0) (tryc (seq (send_message env core (ms_from_pid m) [] ''task_response''
          result_payload ''normal'' False 0 (ms_reply_to m)) (ret ())) (\<lambda>_. ret ()))))"

text \<open>The acknowledgement, and whether a task is started for the message.\<close>

definition queen_handle_message :: "message \<Rightarrow> message_ack \<times> bool" where
  "queen_handle_message m = (if ms_type m = ''task_request'' \<or> ms_type m = ''cron_task''
     then (MessageAck ACK_QUEUED, True) else (MessageAck ACK_ACCEPTED, False))"

definition strategy_progress :: "string \<Rightarrow> string" where
  "strategy_progress complexity = (if complexity = ''simple'' then ''Spawning task worker...''
     else if complexity = ''architect'' then ''Spawning architect...'' else ''Acquiring orchestrator...'')"

definition queen_handle_task :: "env \<Rightarrow> task \<Rightarrow> ('z queen_scheme, task_result) eff" where
  "queen_handle_task env task =
     (let description = dget (tk_params task) ''task'' (tk_description task);
          t = dget (tk_params task) ''trace_id'' [] in
      seq (modify (\<lambda>s. s\<lparr>max_workers := dget (tk_params task) ''max_workers'' ''3''\<rparr>))
      (bnd (if t \<noteq> [] then ret t else uuid4 env) (\<lambda>trace_id.
       if strip description = [] then ret (TaskResult 1 ''Empty task description'' [] [])
       else seq (report_progress ''Assessing task complexity...'' 5)
        (seq (info_log env ''info'' (''Queen received task: '' @ take 100 description))
        (seq (warn_health env)
        (bnd (assess_complexity env description) (\<lambda>complexity.
         seq (info_log env ''info'' (''Task complexity: '' @ complexity))
         (seq (report_progress (strategy_progress complexity) 15)
         (bnd (run_strategy env complexity description (JStr trace_id)) (\<lambda>r.
          seq (record_result env description complexity r)
          (seq (report_progress ''Storing result...'' 95)
          (seq (store_result env description complexity r)
          (seq (info_log env ''info'' (''Queen task done (exit='' @ str_int (tr_exit_code r) @ '')'')) (ret r))))))))))))))"

definition queen_on_shutdown :: "env \<Rightarrow> ('z queen_scheme, bytes option) eff" where
  "queen_on_shutdown env = bnd (gets idle_leads) (\<lambda>ls.
     seq (foreach (\<lambda>(p, _). kill_quietly env p) ls)
       (seq (modify (\<lambda>s. s\<lparr>idle_leads := []\<rparr>)) (ret None)))"

text \<open>
  One round of \<open>_lead_reaper\<close>.  It walks over the pool by position while other coroutines
  may change it at each kill (\<open>others\<close>, given the calls so far), and then replaces the
  pool by the leads it saw and did not kill.  The walk ends when the position is past the
  end; the first argument bounds its steps.
\<close>

fun reap_from :: "nat \<Rightarrow> env \<Rightarrow> (call list \<Rightarrow> (pid \<times> rat) list \<Rightarrow> (pid \<times> rat) list) \<Rightarrow> rat \<Rightarrow> nat \<Rightarrow>
    (pid \<times> rat) list \<Rightarrow> ('z queen_scheme, (pid \<times> rat) list) eff" where
  "reap_from 0 env others now i still_idle = ret still_idle"
| "reap_from (Suc k) env others now i still_idle = bnd (gets idle_leads) (\<lambda>ls.
     if length ls \<le> i then ret still_idle
     else (case ls ! i of (p, since) \<Rightarrow>
       if now - since > LEAD_IDLE_TIMEOUT
       then seq (kill_quietly env p) (seq (modify (\<lambda>s. s\<lparr>idle_leads := others (trace s) (idle_leads s)\<rparr>))
         (reap_from k env others now (Suc i) still_idle))
       else reap_from k env others now (Suc i) (still_idle @ [(p, since)])))"

definition reaper_round :: "nat \<Rightarrow> env \<Rightarrow> (call list \<Rightarrow> (pid \<times> rat) list \<Rightarrow> (pid \<times> rat) list) \<Rightarrow>
    ('z queen_scheme, unit) eff" where
  "reaper_round k env others = bnd (time_time env) (\<lambda>now. bnd (reap_from k env others now 0 [])
     (\<lambda>still_idle. modify (\<lambda>s. s\<lparr>idle_leads := still_idle\<rparr>)))"

section \<open>What the strategies leave alone\<close>

text \<open>
  A view of the state that ignores calls that send no message and does not look at the pool
  or the LLM client: the strategies keep it.  When it does not look at the history either,
  whatever the Queen does for a task, up to its reply, keeps it.
\<close>

locale strategy_view =
  fixes f :: "'z queen_scheme \<Rightarrow> 'x"
  assumes ign: "sent_message c = [] \<Longrightarrow> ignores f c"
    and llm_upd: "f (s\<lparr>llm := l\<rparr>) = f s"
    and pool_upd: "f (s\<lparr>idle_leads := ls\<rparr>) = f s"
begin

lemma llm_free_view: "llm_free f"
  by (simp add: llm_free_def ign llm_upd)

lemma keeps_calls:
  "keeps f (core_log env c l m fs)" "keeps f (execute_task env c q d ps tmo)"
  "keeps f (store_artifact env c k b ct v)" "keeps f (get_artifact env c k i)"
  "keeps f (get_process_info env c q)" "keeps f (time_time env)" "keeps f (uuid4 env)"
  "keeps f (spawn_child env c n r tier sp m tools it lms img rt)" "keeps f (kill_child env c q rec)"
  unfolding core_log_def execute_task_def store_artifact_def get_artifact_def get_process_info_def
    spawn_child_def spawn_req_def kill_child_def rpc_def
  by (intro keeps_rules keeps_ignored ign; simp)+

lemma keeps_helpers:
  "keeps f get_core" "keeps f (info_log env l m)" "keeps f (kill_quietly env p)" "keeps f (check_maid_health env)"
  "keeps f (warn_health env)" "keeps f (store_result env d c r)" "keeps f (release_lead env p)"
proof -
  show core: "keeps f get_core" unfolding get_core_def by (intro keeps_rules)
  show log: "keeps f (info_log env l m)" for l m unfolding info_log_def by (intro keeps_rules keeps_calls core)
  show "keeps f (kill_quietly env p)" unfolding kill_quietly_def by (intro keeps_rules keeps_calls core)
  show health: "keeps f (check_maid_health env)" unfolding check_maid_health_def by (intro keeps_rules keeps_calls)
  show "keeps f (warn_health env)" unfolding warn_health_def by (intro keeps_rules health log)
  show "keeps f (store_result env d c r)" unfolding store_result_def by (intro keeps_rules keeps_calls core)
  show "keeps f (release_lead env p)" unfolding release_lead_def
    by (intro keeps_rules keeps_calls keeps_modify) (simp add: pool_upd)
qed

lemma keeps_assess: "keeps f (assess_complexity env d)"
  unfolding assess_complexity_def assess_complexity_llm_def by (intro keeps_rules llm_free_view)

lemma keeps_reuse: "keeps f (reuse_lead env n)"
proof (induction n)
  case (Suc n)
  show ?case unfolding reuse_lead.simps
    by (intro keeps_rules) (auto split: list.split prod.split
        intro!: keeps_rules keeps_modify keeps_helpers keeps_calls Suc simp: pool_upd)
qed (simp add: keeps_rules)

lemma keeps_acquire: "keeps f (acquire_lead env False)"
  unfolding acquire_lead_def by (simp add: keeps_rules keeps_reuse keeps_helpers keeps_calls)

lemma keeps_run_on: "keeps f (run_on env p d ps tr tmo)"
  unfolding run_on_def by (intro keeps_rules keeps_helpers) (auto split: json.split intro!: keeps_rules keeps_calls)

lemma keeps_strategies:
  "keeps f (handle_simple env d tr)" "keeps f (handle_complex env d tr)" "keeps f (handle_architect env d tr)"
proof -
  show "keeps f (handle_simple env d tr)" unfolding handle_simple_def
    by (intro keeps_rules keeps_helpers keeps_calls keeps_run_on)
  show complex: "keeps f (handle_complex env d tr)" unfolding handle_complex_def
    by (intro keeps_rules keeps_helpers keeps_calls keeps_run_on keeps_acquire)
  show "keeps f (handle_architect env d tr)" unfolding handle_architect_def run_plan_def
    by (intro keeps_rules keeps_helpers keeps_calls keeps_run_on keeps_acquire complex)
qed

lemma keeps_run_strategy: "keeps f (run_strategy env c d tr)"
  unfolding run_strategy_def by (intro keeps_rules keeps_strategies)

end

locale quiet_view = strategy_view +
  assumes history_upd: "f (s\<lparr>queen_history := hs\<rparr>) = f s"
begin

lemma keeps_ipc_payload: "keeps f (ipc_payload env b)"
proof -
  have "keeps f (record_result env d c r)" for d c r unfolding record_result_def remember_def
    by (intro keeps_rules keeps_calls keeps_modify) (simp add: history_upd)
  then have "keeps f (ipc_task env d tr)" for d tr
    unfolding ipc_task_def by (intro keeps_rules keeps_helpers keeps_assess keeps_run_strategy)
  then show ?thesis unfolding ipc_payload_def
    by (intro keeps_rules keeps_calls) (auto split: json.split intro!: keeps_rules keeps_helpers)
qed

end

interpretation sent_view: quiet_view sent
  by unfold_locales (simp_all add: ignores_sent sent_def)

interpretation core_view: quiet_view a_core
  by unfold_locales (simp_all add: ignores_def emit_def)

interpretation history_view: strategy_view queen_history
  by unfold_locales (simp_all add: ignores_def emit_def)

lemma wp_process_message_task:
  assumes "a_core s = Some core" "ms_from_pid m \<noteq> 0"
  shows "wp (process_message_task env m) (\<lambda>_ t. \<exists>payload. sent t = sent s @ [\<lparr>mq_to_pid = ms_from_pid m, mq_to_queue = [],
       mq_type = ''task_response'', mq_priority = 2, mq_payload = payload, mq_requires_ack = False,
       mq_ttl_seconds = 0, mq_reply_to = ms_reply_to m\<rparr>]) (\<lambda>_ _. False) s"
proof -
  let ?body = "tryc (ipc_payload env (ms_payload m))
        (\<lambda>e. ret (utf8_encode (dumps True (JObj [(''error'', JStr (exn_str e)), (''exit_code'', JInt 1)]))))"
  let ?reply = "\<lambda>t. \<exists>payload. sent t = sent s @ [\<lparr>mq_to_pid = ms_from_pid m, mq_to_queue = [],
       mq_type = ''task_response'', mq_priority = 2, mq_payload = payload, mq_requires_ack = False,
       mq_ttl_seconds = 0, mq_reply_to = ms_reply_to m\<rparr>]"
  have kept: "keeps sent ?body" "keeps a_core ?body"
    by (intro keeps_rules sent_view.keeps_ipc_payload core_view.keeps_ipc_payload)+
  have "wp ?body (\<lambda>_ _. True) (\<lambda>_ _. False) s" unfolding wp_tryc wp_ret by (rule wp_always) simp_all
  from wp_conj[OF this wp_conj[OF wp_keeps[OF kept(1), of s "\<lambda>_ t. sent t = sent s" "\<lambda>_ _. True"]
      wp_keeps[OF kept(2), of s "\<lambda>_ t. a_core t = a_core s" "\<lambda>_ _. True"]]]
  have "wp ?body (\<lambda>_ t. sent t = sent s \<and> a_core t = Some core) (\<lambda>_ _. False) s"
    by (rule wp_mono) (use assms(1) in auto)
  then show "wp (process_message_task env m) (\<lambda>_. ?reply) (\<lambda>_ _. False) s"
    unfolding process_message_task_def wp_bnd[of ?body]
  proof (rule wp_mono)
    fix b and t :: "'a queen_scheme"
    assume t: "sent t = sent s \<and> a_core t = Some core"
    show "wp (bnd (gets a_core) (\<lambda>c. case c of
        None \<Rightarrow> ret ()
      | Some core \<Rightarrow> whenc (ms_from_pid m \<noteq> 0) (tryc (seq (send_message env core (ms_from_pid m) [] ''task_response''
          b ''normal'' False 0 (ms_reply_to m)) (ret ())) (\<lambda>_. ret ())))) (\<lambda>_. ?reply) (\<lambda>_ _. False) t"
      using t assms(2)
      by (simp add: wp_bnd wp_gets wp_whenc wp_tryc wp_seq wp_ret, intro wp_mono[OF wp_send_message])
        (simp_all add: priority_to_proto_def PRIORITY_MAP_def)
  qed simp
qed

text \<open>
  C13.  Every IPC task gets exactly one answer: whatever the payload is, whatever the kernel,
  the LLM and the workers answer, processing a message never raises and sends exactly one
  message, a \<open>task_response\<close> to the sender that carries the sender's request id.
\<close>

theorem queen_always_replies:
  assumes "a_core s = Some core" "ms_from_pid m \<noteq> 0"
  shows "result (process_message_task env m) s = Inr () \<and>
    (\<exists>payload. sent (final (process_message_task env m) s) = sent s @ [\<lparr>mq_to_pid = ms_from_pid m, mq_to_queue = [],
       mq_type = ''task_response'', mq_priority = 2, mq_payload = payload, mq_requires_ack = False,
       mq_ttl_seconds = 0, mq_reply_to = ms_reply_to m\<rparr>])"
  using wp_process_message_task[OF assms, of env]
  by (auto simp: wp_def result_def final_def split: prod.splits sum.splits)

definition example_queen :: queen where
  "example_queen = llm_agent.extend example_llm_agent \<lparr>idle_leads = [], queen_history = [], max_workers = ''3''\<rparr>"

lemma example_queen_simps [simp]:
  "a_core example_queen = Some (CoreClient 2)" "idle_leads example_queen = []" "queen_history example_queen = []"
  "trace example_queen = []"
  by (simp_all add: example_queen_def example_llm_agent_def llm_agent.defs)

theorem queen_always_replies_witness:
  "result (process_message_task example_env ((example_message ''m1'' ''r1'')\<lparr>ms_from_pid := 9, ms_payload := ''not json''\<rparr>)) example_queen = Inr () \<and>
   (\<exists>payload. sent (final (process_message_task example_env ((example_message ''m1'' ''r1'')\<lparr>ms_from_pid := 9, ms_payload := ''not json''\<rparr>)) example_queen) =
     sent example_queen @ [\<lparr>mq_to_pid = 9, mq_to_queue = [], mq_type = ''task_response'', mq_priority = 2, mq_payload = payload,
       mq_requires_ack = False, mq_ttl_seconds = 0, mq_reply_to = ''r1''\<rparr>])"
  using queen_always_replies[of example_queen "CoreClient 2" "(example_message ''m1'' ''r1'')\<lparr>ms_from_pid := 9, ms_payload := ''not json''\<rparr>" example_env]
  by (simp add: example_message_def)

section \<open>Spawned, killed, pooled\<close>

text \<open>The pids spawned and killed so far, the pool and the core client.\<close>

definition ledger :: "env \<Rightarrow> 'z queen_scheme \<Rightarrow> pid list \<times> pid list \<times> (pid \<times> rat) list \<times> core_client option" where
  "ledger env s = (spawned env (trace s), kills (trace s), idle_leads s, a_core s)"

lemma queen_emit [simp]: "idle_leads (emit c s) = idle_leads s" "a_core (emit c s') = a_core s'"
  "queen_history (emit c s) = queen_history s"
  by (simp_all add: emit_def)

lemma ignores_ledger: "\<not> is_spawn c \<Longrightarrow> killed_pid c = [] \<Longrightarrow> ignores (ledger env) c"
  by (simp add: ignores_def ledger_def spawn_answer_def)

lemma keeps_ledger:
  "keeps (ledger env) (core_log env' c l m fs)" "keeps (ledger env) (execute_task env' c q d ps tmo)"
  "keeps (ledger env) (get_process_info env' c q)" "keeps (ledger env) (time_time env')"
  "keeps (ledger env) get_core" "keeps (ledger env) (info_log env' l m)" "keeps (ledger env) (run_on env' q d ps' tr tmo')"
proof -
  show calls: "keeps (ledger env) (core_log env' c l m fs)" "keeps (ledger env) (execute_task env' c q d ps tmo)"
    "keeps (ledger env) (get_process_info env' c q)" "keeps (ledger env) (time_time env')" for c l m fs q d ps tmo
    unfolding core_log_def execute_task_def get_process_info_def rpc_def
    by (intro keeps_rules keeps_ignored ignores_ledger; simp)+
  show core: "keeps (ledger env) get_core" unfolding get_core_def by (intro keeps_rules)
  show "keeps (ledger env) (info_log env' l m)" unfolding info_log_def by (intro keeps_rules calls core)
  show "keeps (ledger env) (run_on env' q d ps' tr tmo')" unfolding run_on_def
    by (intro keeps_rules core) (auto split: json.split intro!: keeps_rules calls)
qed

lemma wp_kill_quietly:
  "ledger env s = (sp, ks, ls, Some c) \<Longrightarrow>
   wp (kill_quietly env' p) (\<lambda>_ t. ledger env t = (sp, ks @ [p], ls, Some c)) E s"
  by (auto simp: kill_quietly_def get_core_def kill_child_def rpc_def wp_simps ledger_def spawn_answer_def
      split: sum.splits)

lemma wp_spawn_ledger:
  "ledger env s = (sp, ks, ls, c) \<Longrightarrow>
   wp (spawn_child env cl n r ct prm m tools it lms img rt)
     (\<lambda>p t. ledger env t = (sp @ [p], ks, ls, c)) (\<lambda>_ t. ledger env t = (sp, ks, ls, c)) s"
  by (auto simp: spawn_child_def spawn_req_def rpc_def wp_simps ledger_def spawn_answer_def split: sum.splits)

lemma wp_release_lead:
  "ledger env s = (sp, ks, ls, c) \<Longrightarrow>
   wp (release_lead env' p) (\<lambda>_ t. \<exists>now. ledger env t = (sp, ks, ls @ [(p, now)], c)) E s"
  by (auto simp: release_lead_def wp_simps ledger_def spawn_answer_def)

text \<open>A step that keeps the ledger, as a rule.\<close>

lemma wp_ledger_step:
  "keeps (ledger env) m \<Longrightarrow> ledger env s = x \<Longrightarrow> wp m (\<lambda>_ t. ledger env t = x) (\<lambda>_ t. ledger env t = x) s"
  by (rule wp_keeps) auto

lemma wp_reuse_lead:
  "ledger env s = (sp, ks, ls, c) \<Longrightarrow>
   wp (reuse_lead env' (length ls)) (\<lambda>r t. case r of
       None \<Rightarrow> ledger env t = (sp, ks, [], c)
     | Some p \<Rightarrow> (\<exists>pre since rest. ls = pre @ (p, since) # rest \<and> ledger env t = (sp, ks, rest, c)))
     (\<lambda>_ _. False) s"
proof (induction ls arbitrary: s)
  case Nil
  then show ?case by (simp add: wp_simps)
next
  case (Cons l ls)
  obtain p since where l: "l = (p, since)" by (cases l)
  let ?alive = "tryc (bnd get_core (\<lambda>c. bnd (get_process_info env' c p) (\<lambda>i. ret (pi_state i = 0 \<or> pi_state i = 1)))) (\<lambda>_. ret False)"
  have idle: "idle_leads s = l # ls" using Cons.prems by (simp add: ledger_def)
  have pop: "ledger env (s\<lparr>idle_leads := ls\<rparr>) = (sp, ks, ls, c)" using Cons.prems by (simp add: ledger_def)
  have kept: "keeps (ledger env) ?alive" by (intro keeps_rules keeps_ledger)
  have tot: "wp ?alive (\<lambda>_ _. True) (\<lambda>_ _. False) (s\<lparr>idle_leads := ls\<rparr>)"
    unfolding wp_tryc wp_ret by (rule wp_always) simp_all
  have alive: "wp ?alive (\<lambda>_ t. ledger env t = (sp, ks, ls, c)) (\<lambda>_ _. False) (s\<lparr>idle_leads := ls\<rparr>)"
    by (rule wp_mono[OF wp_conj[OF tot wp_ledger_step[OF kept pop]]]) simp_all
  show ?case unfolding list.size add_Suc_right add_0_right reuse_lead.simps wp_bnd wp_gets wp_seq wp_modify idle l list.case prod.case
  proof (rule wp_mono[OF alive])
    fix v and t :: "'a queen_scheme"
    assume t: "ledger env t = (sp, ks, ls, c)"
    show "wp (if v then ret (Some p) else reuse_lead env' (length ls)) (\<lambda>r t. case r of
        None \<Rightarrow> ledger env t = (sp, ks, [], c)
      | Some q \<Rightarrow> (\<exists>pre snc rest. (p, since) # ls = pre @ (q, snc) # rest \<and> ledger env t = (sp, ks, rest, c))) (\<lambda>_ _. False) t"
    proof (cases v)
      case True
      then show ?thesis using t by (auto simp: wp_simps)
    next
      case False
      have "wp (reuse_lead env' (length ls)) (\<lambda>r t. case r of
        None \<Rightarrow> ledger env t = (sp, ks, [], c)
      | Some q \<Rightarrow> (\<exists>pre snc rest. (p, since) # ls = pre @ (q, snc) # rest \<and> ledger env t = (sp, ks, rest, c))) (\<lambda>_ _. False) t"
        by (rule wp_mono[OF Cons.IH[OF t]]) (auto split: option.splits intro: exI[of _ "(p, since) # pre" for pre])
      with False show ?thesis by simp
    qed
  qed simp
qed

text \<open>How a lead was obtained: out of the pool, past leads found dead, or newly spawned.\<close>

definition lead_taken :: "(pid \<times> rat) list \<Rightarrow> pid list \<Rightarrow> pid \<Rightarrow> (pid \<times> rat) list \<Rightarrow> pid list \<Rightarrow> bool" where
  "lead_taken ls sp p rest sp' \<longleftrightarrow> (\<exists>pre since. ls = pre @ (p, since) # rest \<and> sp' = sp) \<or> rest = [] \<and> sp' = sp @ [p]"

lemma wp_acquire_lead:
  assumes "ledger env s = (sp, ks, ls, c)"
  shows "wp (acquire_lead env False) (\<lambda>p t. \<exists>rest sp'. lead_taken ls sp p rest sp' \<and> ledger env t = (sp', ks, rest, c))
    (\<lambda>_ _. True) s"
proof -
  have len: "(length \<circ> idle_leads) s = length ls" using assms by (simp add: ledger_def)
  have new: "wp (bnd get_core (\<lambda>c. spawn_child env c n r ct prm m tools it lms img rt))
      (\<lambda>p t. ledger env t = (sp @ [p], ks, [], c)) (\<lambda>_ _. True) u"
    if "ledger env u = (sp, ks, [], c)" for u :: "'a queen_scheme" and n r ct prm m tools it lms img rt
    unfolding wp_bnd
    by (rule wp_mono[OF wp_ledger_step[OF keeps_ledger(5) that]]) (auto intro: wp_mono[OF wp_spawn_ledger])
  show ?thesis unfolding acquire_lead_def wp_bnd wp_gets len
    by (rule wp_mono[OF wp_reuse_lead[OF assms]])
      (auto split: option.splits simp: wp_ret lead_taken_def intro: wp_mono[OF new])
qed

lemma wp_handle_complex:
  assumes "ledger env s = (sp, ks, ls, Some c)"
  shows "wp (handle_complex env d tr) (\<lambda>r t. \<exists>p rest sp'. lead_taken ls sp p rest sp' \<and>
      ((\<exists>now. ledger env t = (sp', ks, rest @ [(p, now)], Some c)) \<or>
       ledger env t = (sp', ks @ [p], rest, Some c) \<and> tr_exit_code r = 1)) (\<lambda>_ _. True) s"
proof -
  have use_lead: "wp (tryc (bnd (gets max_workers) (\<lambda>mw. bnd (run_on env p d (ps mw) tr 300) (\<lambda>res.
        seq (release_lead env p) (ret (g res))))) (\<lambda>e. seq (kill_quietly env p) (ret (failed w e))))
      (\<lambda>r t. (\<exists>now. ledger env t = (sp', ks, rest @ [(p, now)], Some c)) \<or>
         ledger env t = (sp', ks @ [p], rest, Some c) \<and> tr_exit_code r = 1) (\<lambda>_ _. True) u"
    if u: "ledger env u = (sp', ks, rest, Some c)" for u :: "'a queen_scheme" and p ps g w rest sp'
    unfolding wp_tryc wp_bnd wp_gets wp_seq wp_ret
    by (rule wp_mono[OF wp_ledger_step[OF keeps_ledger(7) u]])
      (auto intro!: wp_mono[OF wp_release_lead] wp_mono[OF wp_kill_quietly] simp: failed_def TaskResult_def)
  show ?thesis unfolding handle_complex_def wp_seq
    apply (rule wp_mono[OF wp_ledger_step[OF keeps_ledger(6) assms]])
     apply (unfold wp_bnd[of "acquire_lead env False"])
     apply (erule wp_mono[OF wp_acquire_lead])
      apply (elim exE conjE)
      apply (erule wp_mono[OF use_lead])
       apply auto
    done
qed



lemma wp_handle_simple:
  assumes "ledger env s = (sp, ks, ls, Some c)"
  shows "wp (handle_simple env d tr) (\<lambda>_ t. ledger env t = (sp, ks, ls, Some c) \<or>
      (\<exists>p. ledger env t = (sp @ [p], ks @ [p], ls, Some c) \<or> p = 0 \<and> ledger env t = (sp @ [p], ks, ls, Some c)))
      (\<lambda>_ _. False) s"
proof -
  let ?start = "tryc (seq (info_log env ''info'' ''Simple strategy: spawning task worker'')
        (bnd get_core (\<lambda>c. bnd (spawn_child env c ''queen-task'' ''task'' ''operational''
           ''You are a skilled assistant. Complete the given task thoroughly and concisely.'' ''mini'' None [] None
           ''hivekernel_sdk.worker:WorkerAgent'' ''python'') (\<lambda>p. ret (Inr p))))) (\<lambda>e. ret (Inl e)) :: ('a queen_scheme, exn + pid) eff"
  have start: "wp ?start (\<lambda>r t. case r of Inl _ \<Rightarrow> ledger env t = (sp, ks, ls, Some c)
      | Inr p \<Rightarrow> ledger env t = (sp @ [p], ks, ls, Some c)) (\<lambda>_ _. False) s"
    unfolding wp_tryc wp_seq wp_bnd wp_ret
    apply (rule wp_mono[OF wp_ledger_step[OF keeps_ledger(6) assms]])
     apply (erule wp_mono[OF wp_ledger_step[OF keeps_ledger(5)]])
      apply (erule wp_mono[OF wp_spawn_ledger])
       apply auto
    done
  have run: "wp (tryc (bnd (run_on env p d ps tr 120) (\<lambda>res. seq (kill_quietly env p) (ret (g res))))
      (\<lambda>e. seq (whenc (p \<noteq> 0) (kill_quietly env p)) (ret (h e))))
      (\<lambda>_ t. ledger env t = (sp @ [p], ks @ [p], ls, Some c) \<or> p = 0 \<and> ledger env t = (sp @ [p], ks, ls, Some c))
      (\<lambda>_ _. False) u"
    if "ledger env u = (sp @ [p], ks, ls, Some c)" for u :: "'a queen_scheme" and p ps g h
    unfolding wp_tryc wp_bnd wp_seq wp_ret wp_whenc
    by (rule wp_mono[OF wp_ledger_step[OF keeps_ledger(7) that]]) (auto intro!: wp_mono[OF wp_kill_quietly])
  show ?thesis unfolding handle_simple_def wp_bnd[of ?start]
    by (rule wp_mono[OF start]) (auto split: sum.splits simp: wp_ret intro!: wp_mono[OF run])
qed

text \<open>
  The simple strategy cleans up: it never raises, and it leaves either no new process or
  one new worker for which it has sent a kill, whether the task succeeded or failed (a
  worker with pid 0, which the kernel never gives, would be the exception).
\<close>

theorem simple_kills_worker:
  assumes "a_core s = Some c"
  shows "let t = final (handle_simple env d tr) s in
    (\<exists>r. result (handle_simple env d tr) s = Inr r) \<and> idle_leads t = idle_leads s \<and>
    (spawned env (trace t) = spawned env (trace s) \<and> kills (trace t) = kills (trace s) \<or>
     (\<exists>p. spawned env (trace t) = spawned env (trace s) @ [p] \<and> (kills (trace t) = kills (trace s) @ [p] \<or> p = 0)))"
proof -
  have "ledger env s = (spawned env (trace s), kills (trace s), idle_leads s, Some c)" using assms by (simp add: ledger_def)
  from wp_handle_simple[OF this, of d tr] show ?thesis
    by (auto simp: wp_def result_def final_def ledger_def Let_def split: prod.splits sum.splits)
qed

theorem simple_kills_worker_witness:
  "\<exists>r. result (handle_simple (example_env\<lparr>e_exec := \<lambda>_. Inl (RpcError ''gone'')\<rparr>) ''count'' (JStr [])) example_queen = Inr r"
  using simple_kills_worker[of example_queen "CoreClient 2" "example_env\<lparr>e_exec := \<lambda>_. Inl (RpcError ''gone'')\<rparr>" "''count''" "JStr []"]
  by (auto simp: Let_def)

section \<open>The reaper\<close>

definition expired :: "rat \<Rightarrow> pid \<times> rat \<Rightarrow> bool" where
  "expired now l \<longleftrightarrow> now - snd l > LEAD_IDLE_TIMEOUT"

lemma wp_reap_quiet:
  "ledger env s = (sp, ks, ls, Some c) \<Longrightarrow> length ls - i \<le> k \<Longrightarrow>
   wp (reap_from k env' (\<lambda>_ ls. ls) now i still)
     (\<lambda>r t. r = still @ filter (\<lambda>l. \<not> expired now l) (drop i ls) \<and>
        ledger env t = (sp, ks @ map fst (filter (expired now) (drop i ls)), ls, Some c)) (\<lambda>_ _. False) s"
proof (induction k arbitrary: s ks i still)
  case 0
  then show ?case by (simp add: wp_simps)
next
  case (Suc k)
  have idle: "idle_leads s = ls" using Suc.prems by (simp add: ledger_def)
  show ?case
  proof (cases "length ls \<le> i")
    case True
    then show ?thesis using Suc.prems idle by (simp add: wp_simps)
  next
    case False
    obtain p since where l: "ls ! i = (p, since)" by fastforce
    have dr: "drop i ls = (p, since) # drop (Suc i) ls" using False l by (metis Cons_nth_drop_Suc not_le)
    have k: "length ls - Suc i \<le> k" using Suc.prems(2) by simp
    show ?thesis
    proof (cases "now - since > LEAD_IDLE_TIMEOUT")
      case True
      have "wp (seq (kill_quietly env' p) (seq (modify (\<lambda>s. s\<lparr>idle_leads := idle_leads s\<rparr>))
          (reap_from k env' (\<lambda>_ ls. ls) now (Suc i) still)))
        (\<lambda>r t. r = still @ filter (\<lambda>l. \<not> expired now l) (drop (Suc i) ls) \<and>
          ledger env t = (sp, (ks @ [p]) @ map fst (filter (expired now) (drop (Suc i) ls)), ls, Some c)) (\<lambda>_ _. False) s"
        unfolding wp_seq wp_modify
        by (rule wp_mono[OF wp_kill_quietly[OF Suc.prems(1)]], drule Suc.IH[OF _ k, of _ _ still]) simp_all
      moreover have "expired now (p, since)" using True by (simp add: expired_def)
      ultimately show ?thesis using idle False l dr True by (simp add: wp_bnd wp_gets)
    next
      case not_exp: False
      then have "\<not> expired now (p, since)" by (simp add: expired_def)
      with not_exp show ?thesis using idle False l dr Suc.IH[OF Suc.prems(1) k, of "still @ [(p, since)]"]
        by (simp add: wp_bnd wp_gets)
    qed
  qed
qed

text \<open>
  An undisturbed round of the reaper kills exactly the leads that have been idle for more
  than five minutes, in the order of the pool, and keeps exactly the others.
\<close>

theorem reaper_exact:
  assumes "a_core s = Some c" "length (idle_leads s) \<le> k"
  shows "let t = final (reaper_round k env (\<lambda>_ ls. ls)) s; now = e_time env (trace s @ [Clock]) in
    result (reaper_round k env (\<lambda>_ ls. ls)) s = Inr () \<and>
    idle_leads t = filter (\<lambda>(p, since). now - since \<le> 300) (idle_leads s) \<and>
    kills (trace t) = kills (trace s) @ map fst (filter (\<lambda>(p, since). now - since > 300) (idle_leads s))"
proof -
  let ?now = "e_time env (trace s @ [Clock])"
  have "ledger env (emit Clock s) = (spawned env (trace s), kills (trace s), idle_leads s, Some c)"
    using assms(1) by (simp add: ledger_def spawn_answer_def)
  from wp_reap_quiet[OF this, of 0 k env ?now "[]"] assms(2)
  have "wp (reap_from k env (\<lambda>_ ls. ls) ?now 0 []) (\<lambda>r t. r = filter (\<lambda>l. \<not> expired ?now l) (idle_leads s) \<and>
      kills (trace t) = kills (trace s) @ map fst (filter (expired ?now) (idle_leads s))) (\<lambda>_ _. False) (emit Clock s)"
    by (auto intro: wp_mono simp: ledger_def)
  moreover have "expired ?now = (\<lambda>(p, since). ?now - since > 300)"
    "(\<lambda>l. \<not> expired ?now l) = (\<lambda>(p, since). ?now - since \<le> 300)"
    by (auto simp: expired_def LEAD_IDLE_TIMEOUT_def fun_eq_iff)
  ultimately show ?thesis unfolding Let_def
    by (auto simp: reaper_round_def wp_def result_def final_def bnd_def time_time_def modify_def split: prod.splits sum.splits)
qed

definition pool_queen :: "(pid \<times> rat) list \<Rightarrow> queen" where
  "pool_queen ls = example_queen\<lparr>idle_leads := ls\<rparr>"

theorem reaper_exact_witness:
  "idle_leads (final (reaper_round 2 (example_env\<lparr>e_time := \<lambda>_. 1000\<rparr>) (\<lambda>_ ls. ls)) (pool_queen [(5, 100), (6, 900)])) = [(6, 900)]"
  using reaper_exact[of "pool_queen [(5, 100), (6, 900)]" "CoreClient 2" 2 "example_env\<lparr>e_time := \<lambda>_. 1000\<rparr>"]
  by (simp add: pool_queen_def Let_def)

text \<open>
  A lead handed out while the reaper waits for a kill is put back into the pool although
  it is in use: the reaper has already noted it as idle and replaces the whole pool by its
  notes.
\<close>

theorem reaper_returns_busy_lead:
  assumes "a_core s = Some c" "idle_leads s = [(p, t1), (q, t2)]"
    "e_time env (trace s @ [Clock]) - t1 \<le> 300" "e_time env (trace s @ [Clock]) - t2 > 300" "2 \<le> k"
  shows "idle_leads (final (reaper_round k env (\<lambda>_ ls. tl ls)) s) = [(p, t1)]"
proof -
  obtain j where k: "k = Suc (Suc j)" using assms(5) by (metis One_nat_def Suc_1 Suc_le_D Suc_le_mono)
  have "reap_from j env (\<lambda>_ ls. tl ls) now 2 st u = (Inr st, u)" if "idle_leads u = [(q, t2)]" for now st and u :: "'a queen_scheme"
    using that by (cases j) (simp_all add: eff_defs)
  then show ?thesis using assms k
    by (auto simp: reaper_round_def time_time_def kill_quietly_def get_core_def kill_child_def checked_def ask_env_def
        LEAD_IDLE_TIMEOUT_def eff_defs numeral_2_eq_2 split: sum.splits prod.splits)
qed

theorem reaper_returns_busy_lead_witness:
  "idle_leads (final (reaper_round 5 (example_env\<lparr>e_time := \<lambda>_. 1000\<rparr>) (\<lambda>_ ls. tl ls)) (pool_queen [(5, 900), (6, 100)])) = [(5, 900)]"
  by (rule reaper_returns_busy_lead[of _ "CoreClient 2" 5 900 6 100]) (simp_all add: pool_queen_def)

section \<open>The history\<close>

definition queen_ok :: "'z queen_scheme \<Rightarrow> bool" where
  "queen_ok s \<longleftrightarrow> length (queen_history s) \<le> MAX_HISTORY \<and> he_complexity ` set (queen_history s) \<subseteq> set COMPLEXITIES"

lemma queen_ok_cong: "queen_history t = queen_history s \<Longrightarrow> queen_ok s \<Longrightarrow> queen_ok t"
  by (simp add: queen_ok_def)

lemma wp_keeps_history:
  "keeps queen_history m \<Longrightarrow> queen_ok s \<Longrightarrow> wp m (\<lambda>_. queen_ok) (\<lambda>_. queen_ok) s"
  by (rule wp_keeps) (auto intro: queen_ok_cong)

lemma read_complexity_range: "read_complexity j \<in> set COMPLEXITIES"
  by (auto simp: read_complexity_def COMPLEXITIES_def split: json.splits option.splits)

lemma heuristic_range: "heuristic d = Some c \<Longrightarrow> c \<in> set COMPLEXITIES"
  by (auto simp: heuristic_def COMPLEXITIES_def split: if_splits)

lemma wp_assess:
  assumes "queen_ok s"
  shows "wp (assess_complexity env d) (\<lambda>c t. c \<in> set COMPLEXITIES \<and> queen_ok t) (\<lambda>_ _. False) s"
proof -
  have llm: "wp (assess_complexity_llm env d) (\<lambda>c t. c \<in> set COMPLEXITIES) (\<lambda>_ _. False) s"
    unfolding assess_complexity_llm_def wp_tryc wp_bnd wp_ret
    by (rule wp_always) (rule read_complexity_range, simp add: COMPLEXITIES_def)
  have hist: "he_complexity e \<in> set COMPLEXITIES" if "find P (queen_history s) = Some e" for P e
  proof -
    have "e \<in> set (queen_history s)" using that by (auto simp: find_Some_iff)
    then show ?thesis using assms unfolding queen_ok_def by blast
  qed
  have "wp (assess_complexity env d) (\<lambda>c t. c \<in> set COMPLEXITIES) (\<lambda>_ _. False) s"
    unfolding assess_complexity_def wp_bnd wp_gets
    by (auto split: option.splits simp: wp_ret hist heuristic_range llm)
  from wp_conj[OF this wp_keeps_history[OF history_view.keeps_assess assms]] show ?thesis by simp
qed

lemma queen_ok_remember: "queen_ok s \<Longrightarrow> he_complexity e \<in> set COMPLEXITIES \<Longrightarrow> queen_ok (remember s e)"
  using history.push_bound[of s e] set_last_n[of MAX_HISTORY "queen_history s @ [e]"]
  by (auto simp: queen_ok_def remember_def)

lemma wp_record_result:
  "queen_ok s \<Longrightarrow> c \<in> set COMPLEXITIES \<Longrightarrow> wp (record_result env d c r) (\<lambda>_. queen_ok) (\<lambda>_. queen_ok) s"
  unfolding record_result_def wp_bnd wp_time_time wp_modify
  by (rule queen_ok_remember) (simp_all add: queen_ok_def emit_def)

text \<open>The body shared by both entry points: assess, run, record.\<close>

lemma wp_assess_run_record:
  assumes "queen_ok s" "\<And>c. keeps queen_history (m1 c)" "\<And>c r. keeps queen_history (m2 c r)"
  shows "wp (bnd (assess_complexity env d) (\<lambda>c. seq (m1 c) (bnd (run_strategy env c d tr) (\<lambda>r.
     seq (record_result env d c r) (m2 c r))))) (\<lambda>_. queen_ok) (\<lambda>_. queen_ok) s"
  unfolding wp_bnd wp_seq
  apply (rule wp_mono[OF wp_assess[OF assms(1)]])
   apply (elim conjE)
   apply (rule wp_mono[OF wp_keeps_history[OF assms(2)]], assumption)
    apply (rule wp_mono[OF wp_keeps_history[OF history_view.keeps_run_strategy]], assumption)
     apply (rule wp_mono[OF wp_record_result], assumption, assumption)
      apply (rule wp_keeps_history[OF assms(3)], assumption)
     apply simp_all
  done

lemma wp_seq_history:
  "keeps queen_history m \<Longrightarrow> (\<And>t. queen_ok t \<Longrightarrow> wp k (\<lambda>_. queen_ok) (\<lambda>_. queen_ok) t) \<Longrightarrow> queen_ok s \<Longrightarrow>
   wp (seq m k) (\<lambda>_. queen_ok) (\<lambda>_. queen_ok) s"
  unfolding wp_seq by (rule wp_mono[OF wp_keeps_history]) auto

lemma wp_bnd_history:
  "keeps queen_history m \<Longrightarrow> (\<And>v t. queen_ok t \<Longrightarrow> wp (k v) (\<lambda>_. queen_ok) (\<lambda>_. queen_ok) t) \<Longrightarrow> queen_ok s \<Longrightarrow>
   wp (bnd m k) (\<lambda>_. queen_ok) (\<lambda>_. queen_ok) s"
  unfolding wp_bnd by (rule wp_mono[OF wp_keeps_history]) auto

lemma wp_ipc_payload: "queen_ok s \<Longrightarrow> wp (ipc_payload env b) (\<lambda>_. queen_ok) (\<lambda>_. queen_ok) s"
proof -
  have task: "wp (ipc_task env d tr) (\<lambda>_. queen_ok) (\<lambda>_. queen_ok) t" if "queen_ok t" for d tr and t :: "'a queen_scheme"
    unfolding ipc_task_def
  proof (rule wp_seq_history[OF history_view.keeps_helpers(5) _ that])
    fix u :: "'a queen_scheme" assume "queen_ok u"
    from wp_assess_run_record[OF this, of "\<lambda>_. ret ()" "\<lambda>c r. seq (store_result env d c r)
       (ret (utf8_encode (dumps False (JObj [(''output'', JStr (tr_output r)), (''exit_code'', JInt (tr_exit_code r)),
         (''metadata'', params_json (tr_metadata r))]))))" env d tr]
    show "wp (bnd (assess_complexity env d) (\<lambda>complexity. bnd (run_strategy env complexity d tr) (\<lambda>r.
      seq (record_result env d complexity r) (seq (store_result env d complexity r)
      (ret (utf8_encode (dumps False (JObj [(''output'', JStr (tr_output r)), (''exit_code'', JInt (tr_exit_code r)),
         (''metadata'', params_json (tr_metadata r))])))))))) (\<lambda>_. queen_ok) (\<lambda>_. queen_ok) u"
      by (simp add: keeps_rules history_view.keeps_helpers wp_bnd wp_seq wp_ret del: dumps.simps)
  qed
  show "queen_ok s \<Longrightarrow> wp (ipc_payload env b) (\<lambda>_. queen_ok) (\<lambda>_. queen_ok) s"
    unfolding ipc_payload_def
    by (intro wp_bnd_history keeps_rules history_view.keeps_calls)
      (auto split: json.split simp: wp_ret wp_throw intro!: task wp_seq_history history_view.keeps_helpers)
qed

lemma keeps_report: "keeps queen_history (report_progress m p)"
  unfolding report_progress_def by (intro keeps_modify) (simp add: emit_def)

lemma wp_task_body:
  assumes "queen_ok s"
  shows "wp (bnd (assess_complexity env d) (\<lambda>c. seq (info_log env l (w c)) (seq (report_progress (v c) x)
     (bnd (run_strategy env c d tr) (\<lambda>r. seq (record_result env d c r) (seq (report_progress z y)
       (seq (store_result env d c r) (seq (info_log env l' (w' r)) (ret r)))))))))
     (\<lambda>_. queen_ok) (\<lambda>_. queen_ok) s"
  using wp_assess_run_record[OF assms, of "\<lambda>c. seq (info_log env l (w c)) (report_progress (v c) x)"
      "\<lambda>c r. seq (report_progress z y) (seq (store_result env d c r) (seq (info_log env l' (w' r)) (ret r)))" env d tr]
  by (simp add: keeps_rules keeps_report history_view.keeps_helpers wp_bnd wp_seq)

text \<open>
  The task history is bounded and sound: both entry points keep at most the 20 newest
  results, each with one of the three known complexities, whatever happens to the task.
\<close>

theorem queen_history_valid:
  assumes "queen_ok s"
  shows "queen_ok (final (process_message_task env m) s) \<and> queen_ok (final (queen_handle_task env task) s)"
proof
  have "wp (process_message_task env m) (\<lambda>_. queen_ok) (\<lambda>_. queen_ok) s"
    unfolding process_message_task_def wp_bnd[of "tryc _ _"] wp_tryc wp_ret
    by (rule wp_mono[OF wp_ipc_payload[OF assms]]; rule wp_keeps_history; (assumption)?)
      (intro keeps_rules keeps_ask_env; simp add: send_message_def keeps_rules traceless_def)+
  then show "queen_ok (final (process_message_task env m) s)"
    by (auto simp: wp_def final_def split: prod.splits sum.splits)
  have "wp (queen_handle_task env task) (\<lambda>_. queen_ok) (\<lambda>_. queen_ok) s"
    unfolding queen_handle_task_def Let_def
  proof (rule wp_seq_history[OF keeps_modify wp_bnd_history assms])
    fix tid and t :: "'a queen_scheme"
    let ?d = "dget (tk_params task) ''task'' (tk_description task)"
    assume "queen_ok t"
    then show "wp (if strip ?d = [] then ret (TaskResult 1 ''Empty task description'' [] [])
       else seq (report_progress ''Assessing task complexity...'' 5)
        (seq (info_log env ''info'' (''Queen received task: '' @ take 100 ?d))
        (seq (warn_health env)
        (bnd (assess_complexity env ?d) (\<lambda>complexity.
         seq (info_log env ''info'' (''Task complexity: '' @ complexity))
         (seq (report_progress (strategy_progress complexity) 15)
         (bnd (run_strategy env complexity ?d (JStr tid)) (\<lambda>r.
          seq (record_result env ?d complexity r)
          (seq (report_progress ''Storing result...'' 95)
          (seq (store_result env ?d complexity r)
          (seq (info_log env ''info'' (''Queen task done (exit='' @ str_int (tr_exit_code r) @ '')'')) (ret r))))))))))))
      (\<lambda>_. queen_ok) (\<lambda>_. queen_ok) t"
      by (auto simp: wp_ret intro!: wp_seq_history wp_task_body history_view.keeps_helpers keeps_report)
  qed (auto intro!: keeps_rules history_view.keeps_calls)
  then show "queen_ok (final (queen_handle_task env task) s)"
    by (auto simp: wp_def final_def split: prod.splits sum.splits)
qed

theorem queen_history_valid_witness:
  "queen_ok (final (process_message_task example_env (example_message ''m1'' ''r1'')) example_queen)"
  using queen_history_valid[of example_queen example_env "example_message ''m1'' ''r1''" example_task]
  by (simp add: queen_ok_def)

end
