(* ===== verification/GitHubMonitor.thy ===== *)
theory GitHubMonitor
  imports Loop Queen
begin

text \<open>
  \<open>GitHubMonitorAgent\<close> of \<open>github_monitor.py\<close>: a cron job that asks GitHub for the latest
  commits of some repositories, compares them with the ones it saw before, kept in the
  artifact store, and reports the new ones.  GitHub is the HTTP service of the environment; the
  body of a failed request stands for its reason.  Hashes are compared as JSON values.
\<close>

definition DEFAULT_REPOS :: "string list" where
  "DEFAULT_REPOS = [''Selemilka/hivekernel'']"

definition COMMITS_PER_PAGE :: nat where
  "COMMITS_PER_PAGE = 5"

section \<open>GitHub\<close>

definition http_get_json :: "env \<Rightarrow> string \<Rightarrow> ('z world_scheme, json) eff" where
  "http_get_json env url = bnd (tryc (ask_env (e_http env) (Http url [] JNull))
       (\<lambda>e. throw (RuntimeError (''Network error: '' @ exn_str e)))) (\<lambda>(ok, code, b).
     if ok then bnd (of_opt (UnicodeDecodeError ''invalid start byte'') (utf8_decode b)) (\<lambda>t.
       of_opt (JSONDecodeError ''Expecting value'') (loads t))
     else throw (RuntimeError (''GitHub API error '' @ str_int code @ '': '' @ utf8_decode_replace b)))"

definition commits_url :: "string \<Rightarrow> string" where
  "commits_url repo = ''https://api.github.com/repos/'' @ repo @ ''/commits?per_page='' @ str_nat COMMITS_PER_PAGE"

definition state_key :: "string \<Rightarrow> string" where
  "state_key repo = ''github/state/'' @ repo"

section \<open>Comparison\<close>

text \<open>\<open>set(...)\<close> of a decoded value: the elements it iterates over, which must be hashable.\<close>

fun hashable :: "json \<Rightarrow> bool" where
  "hashable (JList _) = False" | "hashable (JObj _) = False" | "hashable _ = True"

definition json_set :: "json \<Rightarrow> json list option" where
  "json_set j = (case j of
      JList xs \<Rightarrow> if list_all hashable xs then Some xs else None
    | JStr t \<Rightarrow> Some (map (\<lambda>c. JStr [c]) t)
    | JObj kvs \<Rightarrow> Some (map (JStr \<circ> fst) kvs)
    | _ \<Rightarrow> None)"

definition load_known :: "env \<Rightarrow> string \<Rightarrow> ('z agent_scheme, json list) eff" where
  "load_known env repo = tryc (bnd get_core (\<lambda>c. bnd (get_artifact env c (state_key repo) []) (\<lambda>b.
     bnd (of_opt (UnicodeDecodeError ''invalid start byte'') (utf8_decode b)) (\<lambda>t.
     bnd (of_opt (JSONDecodeError ''Expecting value'') (loads t)) (\<lambda>j.
     of_opt (TypeError ''unhashable type'') (json_set j))))))
     (\<lambda>_. ret [])"

text \<open>The test of one commit: is its hash unknown?\<close>

definition is_new :: "json list \<Rightarrow> json \<Rightarrow> exn + bool" where
  "is_new known c = (case get_key ''sha'' (JStr []) c of
      Inl e \<Rightarrow> Inl e
    | Inr h \<Rightarrow> if hashable h then Inr (h \<notin> set known) else Inl (TypeError ''unhashable type''))"

fun new_commits :: "json list \<Rightarrow> json list \<Rightarrow> exn + json list" where
  "new_commits known [] = Inr []"
| "new_commits known (c # cs) = (case is_new known c of
      Inl e \<Rightarrow> Inl e
    | Inr b \<Rightarrow> (case new_commits known cs of Inl e \<Rightarrow> Inl e | Inr ns \<Rightarrow> Inr (if b then c # ns else ns)))"

text \<open>\<open>[c["sha"] for c in commits if "sha" in c]\<close>; by then every commit is known to be an object.\<close>

definition commit_shas :: "json list \<Rightarrow> json list" where
  "commit_shas cs = concat (map (\<lambda>c. case c of JObj kvs \<Rightarrow> (case map_of kvs ''sha'' of Some h \<Rightarrow> [h] | None \<Rightarrow> []) | _ \<Rightarrow> []) cs)"

definition slice7 :: "json \<Rightarrow> exn + json" where
  "slice7 j = (case j of
      JStr t \<Rightarrow> Inr (JStr (take 7 t))
    | JList xs \<Rightarrow> Inr (JList (take 7 xs))
    | _ \<Rightarrow> Inl (TypeError ''object is not subscriptable''))"

definition first_line :: "json \<Rightarrow> exn + json" where
  "first_line j = (case j of
      JStr t \<Rightarrow> Inr (JStr (hd (split_on (CHR 0x0A) t)))
    | _ \<Rightarrow> Inl (AttributeError ''object has no attribute split''))"

definition describe_commit :: "string \<Rightarrow> json \<Rightarrow> ('s, json) eff" where
  "describe_commit repo c =
     bnd (lift_sum (get_key ''sha'' (JStr []) c)) (\<lambda>h. bnd (lift_sum (slice7 h)) (\<lambda>sha.
     bnd (lift_sum (get_key ''commit'' (JObj []) c)) (\<lambda>commit.
     bnd (lift_sum (get_key ''message'' (JStr []) commit)) (\<lambda>m. bnd (lift_sum (first_line m)) (\<lambda>message.
     bnd (lift_sum (get_key ''author'' (JObj []) commit)) (\<lambda>a.
     bnd (lift_sum (get_key ''name'' (JStr ''unknown'') a)) (\<lambda>author.
     bnd (lift_sum (get_key ''date'' (JStr []) a)) (\<lambda>date.
       ret (JObj [(''repo'', JStr repo), (''sha'', sha), (''message'', message), (''author'', author), (''date'', date)])))))))))"

definition check_repo :: "env \<Rightarrow> string \<Rightarrow> ('z agent_scheme, json list) eff" where
  "check_repo env repo = bnd (http_get_json env (commits_url repo)) (\<lambda>commits. case commits of
      JList cs \<Rightarrow> bnd (load_known env repo) (\<lambda>known. bnd (lift_sum (new_commits known cs)) (\<lambda>new.
        seq (tryc (seq (sys_store_artifact env (state_key repo) (utf8_encode (dumps True (JList (commit_shas cs))))
                ''application/json'' 3) (ret ())) (\<lambda>_. ret ()))
          (mapeff (describe_commit repo) new)))
    | _ \<Rightarrow> ret [])"

section \<open>The task\<close>

text \<open>The repositories of a task: the names that \<open>', '.join(repos)\<close> accepts.\<close>

fun all_texts :: "json list \<Rightarrow> string list option" where
  "all_texts [] = Some []"
| "all_texts (JStr t # js) = map_option (Cons t) (all_texts js)"
| "all_texts (_ # js) = None"

definition repo_names :: "json \<Rightarrow> exn + string list" where
  "repo_names j = (case j of
      JList js \<Rightarrow> (case all_texts js of Some ts \<Rightarrow> Inr ts | None \<Rightarrow> Inl (TypeError ''sequence item: expected str instance''))
    | JStr t \<Rightarrow> Inr (map (\<lambda>c. [c]) t)
    | JObj kvs \<Rightarrow> Inr (map fst kvs)
    | _ \<Rightarrow> Inl (TypeError ''object has no len()''))"

definition monitored :: "params \<Rightarrow> exn + string list" where
  "monitored ps = (let raw = dget ps ''repos'' []; single = dget ps ''repo'' [] in
     if raw \<noteq> [] then (case loads raw of None \<Rightarrow> Inr [raw] | Some j \<Rightarrow> repo_names j)
     else if single \<noteq> [] then Inr [single] else Inr DEFAULT_REPOS)"

text \<open>One repository after the other; an exception is noted and the next one is checked.\<close>

fun check_all :: "env \<Rightarrow> string list \<Rightarrow> json list \<Rightarrow> string list \<Rightarrow> ('z agent_scheme, json list \<times> string list) eff" where
  "check_all env [] updates errors = ret (updates, errors)"
| "check_all env (repo # repos) updates errors =
     bnd (tryc (bnd (check_repo env repo) (\<lambda>us. ret (Inr us))) (\<lambda>e. ret (Inl (repo @ '': '' @ exn_str e)))) (\<lambda>r. case r of
       Inr us \<Rightarrow> check_all env repos (updates @ us) errors
     | Inl m \<Rightarrow> check_all env repos updates (errors @ [m]))"

definition obj_text :: "json \<Rightarrow> string \<Rightarrow> string" where
  "obj_text u k = (case u of JObj kvs \<Rightarrow> py_str (dget kvs k JNull) | _ \<Rightarrow> [])"

definition format_updates :: "json list \<Rightarrow> string" where
  "format_updates us = join nl ([''Found '' @ str_nat (length us) @ '' new commit(s):'', []] @
     map (\<lambda>u. ''  ['' @ obj_text u ''repo'' @ ''] '' @ obj_text u ''sha'' @ '' - '' @ obj_text u ''message'' @
       '' ('' @ obj_text u ''author'' @ '')'') us)"

definition report_updates :: "env \<Rightarrow> json list \<Rightarrow> ('z agent_scheme, task_result) eff" where
  "report_updates env us = seq (sys_escalate env (''GitHub updates: '' @ str_nat (length us) @ '' new commit(s)'') ''info'' True)
     (seq (sys_store_artifact env ''github/latest-updates'' (utf8_encode (dumps False (JList us))) ''application/json'' 3)
     (seq (sys_log env ''info'' (''GitMonitor found '' @ str_nat (length us) @ '' new commit(s)'') [])
       (ret (TaskResult 0 (format_updates us) [] []))))"

definition report_nothing :: "env \<Rightarrow> string list \<Rightarrow> ('z agent_scheme, task_result) eff" where
  "report_nothing env errors = (let msg = ''No new updates'' @
       (if errors = [] then [] else '' (errors: '' @ join ''; '' errors @ '')'') in
     seq (sys_log env ''info'' msg []) (ret (TaskResult 0 msg [] [])))"

definition monitor_handle_task :: "env \<Rightarrow> task \<Rightarrow> ('z agent_scheme, task_result) eff" where
  "monitor_handle_task env task = bnd (lift_sum (monitored (tk_params task))) (\<lambda>repos.
     seq (sys_log env ''info'' (''GitMonitor checking '' @ str_nat (length repos) @ '' repo(s): '' @ join '', '' repos) [])
     (bnd (check_all env repos [] []) (\<lambda>(updates, errors).
        if updates \<noteq> [] then report_updates env updates else report_nothing env errors)))"

section \<open>Against GitHub and the kernel's store\<close>

text \<open>A commit as GitHub sends it, what is reported of it, and an answer that lists commits.\<close>

type_synonym commit = "string \<times> string \<times> string \<times> string"

fun commit_json :: "commit \<Rightarrow> json" where
  "commit_json (h, m, a, d) = JObj [(''sha'', JStr h), (''commit'', JObj [(''message'', JStr m),
     (''author'', JObj [(''name'', JStr a), (''date'', JStr d)])])]"

fun update_json :: "string \<Rightarrow> commit \<Rightarrow> json" where
  "update_json repo (h, m, a, d) = JObj [(''repo'', JStr repo), (''sha'', JStr (take 7 h)),
     (''message'', JStr (hd (split_on (CHR 0x0A) m))), (''author'', JStr a), (''date'', JStr d)]"

definition answers :: "env \<Rightarrow> json list \<Rightarrow> bool" where
  "answers env cs \<longleftrightarrow> e_http env = (\<lambda>_. Inr (True, 200, utf8_encode (dumps True (JList cs))))"

text \<open>The hashes in the store, as the monitor writes them.\<close>

definition known_shas :: "call list \<Rightarrow> string \<Rightarrow> string list \<Rightarrow> bool" where
  "known_shas h repo ks \<longleftrightarrow> store_of h (state_key repo) = Some (utf8_encode (dumps True (JList (map JStr ks)))) \<or>
     store_of h (state_key repo) = None \<and> ks = []"

lemma state_key_ne [simp]: "state_key repo \<noteq> []"
  by (simp add: state_key_def)

lemma wf_shas: "wf_json (JList (map JStr ks))"
  by simp

lemma describe_commit: "describe_commit repo (commit_json c) s = (Inr (update_json repo c), s)"
  by (cases c) (simp add: describe_commit_def get_key_def slice7_def first_line_def lift_sum_def eff_defs)

lemma describe_commits: "mapeff (describe_commit repo) (map commit_json xs) s = (Inr (map (update_json repo) xs), s)"
  by (induction xs) (simp_all add: describe_commit eff_defs)

lemma new_commits_filter:
  "new_commits (map JStr ks) (map commit_json xs) = Inr (map commit_json (filter (\<lambda>c. fst c \<notin> set ks) xs))"
  by (induction xs) (auto simp: is_new_def get_key_def)

lemma commit_shas_map: "commit_shas (map commit_json xs) = map (JStr \<circ> fst) xs"
  by (induction xs) (auto simp: commit_shas_def)

lemma wf_commits: "wf_json (JList (map commit_json xs))"
  by (auto simp: dict_ok_def)

lemma wp_http_get:
  assumes "answers env cs" "wf_json (JList cs)"
    and "\<And>t. store_of (trace t) = store_of (trace s) \<Longrightarrow> a_core t = a_core s \<Longrightarrow> Q (JList cs) t"
  shows "wp (http_get_json (with_store env) url) Q E s"
  using assms(3)[of "emit (Http url [] JNull) s"] assms(1) loads_dumps[OF assms(2), of True]
  by (simp add: http_get_json_def wp_simps answers_def with_store_def emit_def del: dumps.simps)

lemma wp_load_known:
  assumes "a_core s = Some c" "known_shas (trace s) repo ks"
    and "\<And>t. store_of (trace t) = store_of (trace s) \<Longrightarrow> a_core t = a_core s \<Longrightarrow> Q (map JStr ks) t"
  shows "wp (load_known (with_store env) repo) Q E s"
proof -
  let ?t = "emit (rpc c None (GetArtifactRequest (state_key repo) [])) s"
  have q: "Q (map JStr ks) ?t" by (rule assms(3)) (simp_all add: rpc_def emit_def)
  have all: "list_all hashable (map JStr ks)" by (simp add: list_all_iff)
  note l = loads_dumps[OF wf_shas, of True ks]
  from assms(2) show ?thesis unfolding known_shas_def
    by (elim disjE conjE)
      (use q all l assms(1) in \<open>simp_all add: load_known_def get_core_def get_artifact_def wp_simps with_store_def
        get_answer_def rpc_def json_set_def butlast_append del: dumps.simps\<close>)
qed

lemma wp_store_state:
  assumes "\<And>v t. store_of (trace t) = (store_of (trace s))(state_key repo \<mapsto> b) \<Longrightarrow> a_core t = a_core s \<Longrightarrow> Q v t"
  shows "wp (tryc (seq (sys_store_artifact (with_store env) (state_key repo) b ct v) (ret ())) (\<lambda>_. ret ())) Q E s"
  using assms by (simp add: sys_store_artifact_def wp_simps Let_def with_store_def store_answer_def store_step_def emit_def)

lemma wp_check_repo:
  assumes "answers env cs" "wf_json (JList cs)" "a_core s = Some c" "known_shas (trace s) repo ks"
    and "new_commits (map JStr ks) cs = Inr new"
    and "\<And>t. store_of (trace t) (state_key repo) = Some (utf8_encode (dumps True (JList (commit_shas cs)))) \<Longrightarrow>
      a_core t = a_core s \<Longrightarrow> wp (mapeff (describe_commit repo) new) Q E t"
  shows "wp (check_repo (with_store env) repo) Q E s"
  unfolding check_repo_def wp_bnd
proof (rule wp_http_get[OF assms(1,2)], simp only: json.case wp_bnd, rule wp_load_known[where ks = ks], goal_cases)
  case (3 t u)
  then show ?case unfolding assms(5) wp_lift_sum sum.case wp_seq
    by (intro wp_store_state assms(6)) (simp_all del: dumps.simps)
qed (use assms(3,4) in \<open>simp_all add: known_shas_def del: dumps.simps\<close>)

lemma check_repo_new:
  assumes "answers env (map commit_json xs)" "a_core s = Some c" "known_shas (trace s) repo ks"
  shows "wp (check_repo (with_store env) repo) (\<lambda>us t. us = map (update_json repo) (filter (\<lambda>x. fst x \<notin> set ks) xs) \<and>
     known_shas (trace t) repo (map fst xs) \<and> a_core t = a_core s) (\<lambda>_ _. False) s"
  by (rule wp_check_repo[OF assms(1) wf_commits assms(2,3) new_commits_filter])
    (simp add: wp_def describe_commits known_shas_def commit_shas_map comp_def del: dumps.simps)

section \<open>Properties\<close>


text \<open>
  No commit is reported twice: as long as GitHub gives the same answer, a second check
  reports nothing, whatever the first one found.
\<close>

theorem monitor_reports_once:
  assumes "answers env (map commit_json xs)" "a_core s = Some c" "known_shas (trace s) repo ks"
  shows "result (check_repo (with_store env) repo) (final (check_repo (with_store env) repo) s) = Inr []"
proof -
  obtain us t where t: "check_repo (with_store env) repo s = (Inr us, t)" "known_shas (trace t) repo (map fst xs)" "a_core t = Some c"
    using wp_total[OF check_repo_new[OF assms]] assms(2) by auto
  have none: "filter (\<lambda>x. fst x \<notin> set (map fst xs)) xs = []" by (auto simp: filter_empty_conv)
  from wp_total[OF check_repo_new[OF assms(1) t(3,2)]] t(1) show ?thesis
    unfolding none by (auto simp: result_def final_def)
qed

definition authorless :: "string \<Rightarrow> string \<Rightarrow> json" where
  "authorless h m = JObj [(''sha'', JStr h), (''commit'', JObj [(''message'', JStr m), (''author'', JNull)])]"

lemma authorless_new:
  "new_commits (map JStr ks) [authorless h m] = Inr (if h \<in> set ks then [] else [authorless h m])"
  "commit_shas [authorless h m] = map JStr [h]" "wf_json (JList [authorless h m])"
  "describe_commit repo (authorless h m) t = (Inl (AttributeError ''object has no attribute get''), t)"
  by (simp_all add: authorless_def is_new_def get_key_def commit_shas_def dict_ok_def image_iff describe_commit_def slice7_def
      first_line_def lift_sum_def eff_defs)

text \<open>
  A commit can be lost: the hashes are stored before the report is built.  When GitHub
  names no author (\<open>null\<close>), building the report raises, the check counts as failed, and the
  next check already takes the commit for known, so it is never reported.
\<close>

theorem monitor_loses_commit:
  assumes "answers env [authorless h m]" "a_core s = Some c" "known_shas (trace s) repo []"
  shows "\<exists>e t. check_repo (with_store env) repo s = (Inl e, t) \<and> result (check_repo (with_store env) repo) t = Inr []"
proof -
  let ?P = "\<lambda>t. known_shas (trace t) repo [h] \<and> a_core t = Some c"
  have "wp (check_repo (with_store env) repo) (\<lambda>_ _. False) (\<lambda>_. ?P) s"
    by (rule wp_check_repo[OF assms(1) authorless_new(3) assms(2,3) authorless_new(1)])
      (simp add: assms(2) wp_bnd authorless_new known_shas_def wp_def del: dumps.simps)
  then obtain e t where t: "check_repo (with_store env) repo s = (Inl e, t)" "?P t"
    by (auto simp: wp_def split: prod.splits sum.splits)
  have "wp (check_repo (with_store env) repo) (\<lambda>us _. us = []) (\<lambda>_ _. False) t"
    by (rule wp_check_repo[OF assms(1) authorless_new(3) _ _ authorless_new(1)[of "[h]"]]) (use t(2) in \<open>auto simp: wp_simps\<close>)
  then have "result (check_repo (with_store env) repo) t = Inr []"
    by (auto simp: wp_def result_def split: prod.splits sum.splits)
  with t show ?thesis by blast
qed

section \<open>Examples\<close>

definition example_github :: "json list \<Rightarrow> env" where
  "example_github cs = example_env\<lparr>e_http := \<lambda>_. Inr (True, 200, utf8_encode (dumps True (JList cs)))\<rparr>"

lemma example_monitor:
  "answers (example_github cs) cs" "a_core example_tool_agent = Some (CoreClient 2)"
  "known_shas (trace example_tool_agent) ''r'' []"
  by (simp_all add: answers_def example_github_def example_tool_agent_def known_shas_def store_of_def del: dumps.simps)


theorem monitor_reports_once_witness:
  "result (check_repo (with_store (example_github (map commit_json [(''0'', ''fix'', ''bob'', ''now'')]))) ''r'')
     (final (check_repo (with_store (example_github (map commit_json [(''0'', ''fix'', ''bob'', ''now'')]))) ''r'') example_tool_agent) = Inr []"
  by (rule monitor_reports_once[OF example_monitor])

theorem monitor_loses_commit_witness:
  "\<exists>e t. check_repo (with_store (example_github [authorless ''0'' ''fix''])) ''r'' example_tool_agent = (Inl e, t) \<and>
     result (check_repo (with_store (example_github [authorless ''0'' ''fix''])) ''r'') t = Inr []"
  by (rule monitor_loses_commit[OF example_monitor])

end
