(* ===== verification/Specialists.thy ===== *)
theory Specialists
  imports Orchestrator
begin

text \<open>
  The agents that do one kind of work: \<open>WorkerAgent\<close> of \<open>worker.py\<close>, which keeps what it did
  as context for its next tasks, \<open>ArchitectAgent\<close> of \<open>architect.py\<close>, which turns an LLM answer
  into a plan that is always well formed, and \<open>CoderAgent\<close> of \<open>coder.py\<close>.  The Architect's
  plan is what the Orchestrator parses, so the last section follows it there.
\<close>

section \<open>Worker\<close>

record worker = llm_agent +
  task_memory :: "(string \<times> json) list"

fun memory_lines :: "nat \<Rightarrow> (string \<times> json) list \<Rightarrow> exn + string list" where
  "memory_lines i [] = Inr []"
| "memory_lines i ((t, out) # ms) = (case slice_text 500 out of
      Inl e \<Rightarrow> Inl e
    | Inr p \<Rightarrow> (case memory_lines (Suc i) ms of
        Inl e \<Rightarrow> Inl e
      | Inr ls \<Rightarrow> Inr ([[line_break] @ ''--- Previous task '' @ str_nat i @ '' ---'', ''Task: '' @ t, ''Result: '' @ p] @ ls)))"

definition worker_context :: "(string \<times> json) list \<Rightarrow> exn + string" where
  "worker_context ms = (if ms = [] then Inr [] else
     case memory_lines 1 ms of
       Inl e \<Rightarrow> Inl e
     | Inr ls \<Rightarrow> Inr (join [line_break] ([''You have already completed these related tasks:''] @ ls @
         [[line_break] @ ''--- Current task ---'',
          ''Use context from your previous tasks to inform this response.'' @ [line_break]])))"

definition worker_prompt :: "string \<Rightarrow> string \<Rightarrow> string" where
  "worker_prompt context description = context @
     ''Complete the following task thoroughly and concisely.'' @ [line_break, line_break] @
     ''Task: '' @ description @ [line_break, line_break] @ ''Provide a clear, well-structured response.''"

definition worker_done :: "env \<Rightarrow> pid \<Rightarrow> json \<Rightarrow> ('z worker_scheme, task_result) eff" where
  "worker_done env p r = bnd get_llm (\<lambda>c. bnd (gets (length \<circ> task_memory)) (\<lambda>n.
     let tokens = str_int (total_tokens c) in
     seq (sys_log env ''info'' (''Worker PID '' @ str_int p @ '' done ('' @ str_nat n @ '' tasks, '' @ tokens @ '' tokens)'') [])
     (seq (report_progress ''Done'' 100)
     (bnd (lift_sum (result_text r)) (\<lambda>out.
        ret (TaskResult 0 out [] [(''tokens_used'', tokens), (''tasks_completed'', str_nat n)]))))))"

definition worker_handle_task :: "env \<Rightarrow> task \<Rightarrow> ('z worker_scheme, task_result) eff" where
  "worker_handle_task env task =
     (let description = dget (tk_params task) ''subtask'' (tk_description task) in
      bnd (gets a_pid) (\<lambda>p.
      seq (sys_log env ''info'' (''Worker PID '' @ str_int p @ '' starting: '' @ take 80 description) [])
      (seq (report_progress ''Working...'' 10)
      (bnd (gets task_memory) (\<lambda>ms. bnd (lift_sum (worker_context ms)) (\<lambda>context.
       bnd (ask env (worker_prompt context description) [] 2048 ''0.7'') (\<lambda>r.
       seq (modify (\<lambda>s. s\<lparr>task_memory := task_memory s @ [(description, r)]\<rparr>))
         (worker_done env p r))))))))"

section \<open>Architect\<close>

text \<open>The doubled braces are in the prompt: only the lines with \<open>max_workers\<close> are f-strings.\<close>

definition plan_prompt :: "string \<Rightarrow> int \<Rightarrow> string" where
  "plan_prompt description mw = (let br = [line_break]; q = (\<lambda>t. [CHR 0x22] @ t @ [CHR 0x22]) in
     ''You are a strategic architect. Analyze the following task and produce a detailed, structured execution plan.'' @
     br @ br @ ''Task: '' @ description @ br @ br @ ''Produce a JSON plan with this exact structure:'' @ br @
     ''{{'' @ br @
     ''  '' @ q ''analysis'' @ '': '' @ q ''Brief analysis of the task requirements and challenges'' @ '','' @ br @
     ''  '' @ q ''approach'' @ '': '' @ q ''High-level approach chosen and why'' @ '','' @ br @
     ''  '' @ q ''groups'' @ '': ['' @ br @ ''    {{'' @ br @
     ''      '' @ q ''name'' @ '': '' @ q ''short-group-name'' @ '','' @ br @
     ''      '' @ q ''subtasks'' @ '': ['' @ q ''Detailed subtask 1'' @ '', '' @ q ''Detailed subtask 2'' @ ''],'' @ br @
     ''      '' @ q ''rationale'' @ '': '' @ q ''Why these subtasks are grouped together'' @ br @
     ''    }}'' @ br @ ''  ],'' @ br @
     ''  '' @ q ''max_workers'' @ '': '' @ str_int mw @ '','' @ br @
     ''  '' @ q ''risks'' @ '': '' @ q ''Potential failure points and mitigations'' @ '','' @ br @
     ''  '' @ q ''acceptance_criteria'' @ '': '' @ q ''How to verify the task is complete'' @ br @
     ''}}'' @ br @ br @ ''Rules:'' @ br @
     ''- Group related subtasks that benefit from shared context'' @ br @
     ''- Independent groups will run in parallel'' @ br @
     ''- Each subtask must be self-contained and actionable'' @ br @
     ''- Maximum '' @ str_int mw @ '' groups'' @ br @
     ''- Be specific and thorough in subtask descriptions'' @ br @ ''Return ONLY the JSON. No other text.'')"

definition bad_group :: "json \<Rightarrow> bool" where
  "bad_group g = (case g of JObj kvs \<Rightarrow> \<not> truthy (dget kvs ''subtasks'' JNull) | _ \<Rightarrow> True)"

text \<open>The validation: the text of the error it raises, if any.\<close>

definition plan_error :: "string \<Rightarrow> string option" where
  "plan_error text = (case loads text of
      None \<Rightarrow> Some ''Expecting value''
    | Some (JObj kvs) \<Rightarrow> (case map_of kvs ''groups'' of
        None \<Rightarrow> Some (''Plan missing '' @ [CHR 0x27] @ ''groups'' @ [CHR 0x27] @ '' field'')
      | Some (JList (g # gs)) \<Rightarrow> (case find bad_group (g # gs) of
          None \<Rightarrow> None
        | Some b \<Rightarrow> Some (''Group missing subtasks: '' @ py_str b))
      | Some _ \<Rightarrow> Some ''Plan has empty groups'')
    | Some _ \<Rightarrow> Some (''Plan missing '' @ [CHR 0x27] @ ''groups'' @ [CHR 0x27] @ '' field''))"

definition fallback_plan :: "string \<Rightarrow> int \<Rightarrow> json" where
  "fallback_plan description mw = JObj [(''analysis'', JStr ''Auto-generated fallback plan''),
     (''approach'', JStr ''Direct decomposition''),
     (''groups'', JList [JObj [(''name'', JStr ''main''), (''subtasks'', JList [JStr description])]]),
     (''max_workers'', JInt mw), (''risks'', JStr ''Fallback plan -- original planning failed''),
     (''acceptance_criteria'', JStr ''Task completed'')]"

definition choose_plan :: "env \<Rightarrow> string \<Rightarrow> int \<Rightarrow> string \<Rightarrow> ('z world_scheme, string) eff" where
  "choose_plan env description mw plan_raw = (case plan_error (unfence plan_raw) of
      None \<Rightarrow> ret (unfence plan_raw)
    | Some e \<Rightarrow> seq (sys_log env ''error'' (''Plan validation failed: '' @ e) [])
        (ret (dumps False (fallback_plan description mw))))"

definition store_plan :: "env \<Rightarrow> string \<Rightarrow> ('z world_scheme, unit) eff" where
  "store_plan env plan_text = tryc (seq (sys_store_artifact env ''architect/plan'' (utf8_encode plan_text)
     ''application/json'' 3) (ret ())) (\<lambda>_. ret ())"

definition architect_handle_task :: "env \<Rightarrow> task \<Rightarrow> ('z llm_agent_scheme, task_result) eff" where
  "architect_handle_task env task =
     (let description = dget (tk_params task) ''task'' (tk_description task) in
      bnd (of_opt (ValueError ''invalid literal for int() with base 10'') (parse_int (dget (tk_params task) ''max_workers'' ''3'')))
      (\<lambda>mw. seq (sys_log env ''info'' (''Architect analyzing: '' @ take 80 description) [])
      (seq (report_progress ''Analyzing task...'' 10) (seq (report_progress ''Designing plan...'' 30)
      (bnd (ask env (plan_prompt description mw) [] 2048 ''0.3'') (\<lambda>r.
       bnd (case r of JStr t \<Rightarrow> ret t | _ \<Rightarrow> throw (AttributeError ''object has no attribute strip'')) (\<lambda>plan_raw.
       bnd (choose_plan env description mw plan_raw) (\<lambda>plan_text.
       seq (report_progress ''Storing plan...'' 80) (seq (store_plan env plan_text)
       (seq (sys_log env ''info'' (''Architect plan complete ('' @ str_nat (length plan_text) @ '' bytes)'') [])
       (seq (report_progress ''Done'' 100)
         (ret (TaskResult 0 plan_text [] [(''plan_size'', str_nat (length plan_text))])))))))))))))"

section \<open>Coder\<close>

text \<open>\<open>\w\<close>: letters, digits and the other alphanumeric characters of Latin-1, and the underscore.\<close>

definition is_word :: "char \<Rightarrow> bool" where
  "is_word c = (let n = (of_char c :: nat) in
     48 \<le> n \<and> n \<le> 57 \<or> 65 \<le> n \<and> n \<le> 90 \<or> n = 95 \<or> 97 \<le> n \<and> n \<le> 122 \<or> n = 170 \<or> n = 178 \<or> n = 179 \<or> n = 181 \<or>
     n = 185 \<or> n = 186 \<or> 188 \<le> n \<and> n \<le> 190 \<or> 192 \<le> n \<and> n \<le> 214 \<or> 216 \<le> n \<and> n \<le> 246 \<or> 248 \<le> n)"

text \<open>
  The match of the pattern at a given place: the opening fence, a word, a line break, and
  the text up to the next fence.  The search tries every place from the left.
\<close>

definition block_at :: "string \<Rightarrow> string option" where
  "block_at s = (if \<not> startswith s fence then None
     else case dropWhile is_word (drop 3 s) of
         [] \<Rightarrow> None
       | c # body \<Rightarrow> if c = line_break then map_option (\<lambda>i. take i body) (find_sub fence body) else None)"

fun find_block :: "string \<Rightarrow> string option" where
  "find_block [] = None"
| "find_block (c # s) = (case block_at (c # s) of Some b \<Rightarrow> Some b | None \<Rightarrow> find_block s)"

definition extract_code_block :: "string \<Rightarrow> string" where
  "extract_code_block text = (case find_block text of Some b \<Rightarrow> strip b | None \<Rightarrow> strip text)"

definition key_char :: "char \<Rightarrow> bool" where
  "key_char c = (let n = (of_char c :: nat) in 97 \<le> n \<and> n \<le> 122 \<or> 48 \<le> n \<and> n \<le> 57 \<or> n = 45)"

definition code_key :: "string \<Rightarrow> string" where
  "code_key request = strip_chars ''-'' (take 40 (map (\<lambda>c. if key_char c then c else CHR ''-'') (lower request)))"

definition system_template :: "string \<Rightarrow> string" where
  "system_template language = (let br = [line_break] in
     ''You are a skilled '' @ language @ '' programmer working inside HiveKernel, a process-tree OS for LLM agents.'' @ br @
     ''Write clean, well-structured, production-quality code.'' @ br @
     ''Return ONLY the code block with brief inline comments.'' @ br @
     ''Do not include explanations outside the code unless explicitly asked.'' @ br @
     ''If the request is ambiguous, make reasonable assumptions and note them in a comment at the top.'')"

definition coder_prompt :: "string \<Rightarrow> string \<Rightarrow> string" where
  "coder_prompt request context = (let prompt = ''Task: '' @ request in
     if context = [] then prompt
     else ''Context:'' @ [line_break] @ context @ [line_break, line_break] @ prompt)"

definition deliver_code :: "env \<Rightarrow> string \<Rightarrow> string \<Rightarrow> string \<Rightarrow> ('z world_scheme, task_result) eff" where
  "deliver_code env request language response = (let code = extract_code_block response in
     seq (tryc (seq (sys_store_artifact env (''code/'' @ code_key request) (utf8_encode code) (''text/'' @ language) 3) (ret ()))
        (\<lambda>_. ret ()))
     (seq (sys_log env ''info'' (''Coder generated '' @ str_nat (length code) @ '' chars of '' @ language) [])
       (ret (TaskResult 0 code [] []))))"

definition coder_handle_task :: "env \<Rightarrow> task \<Rightarrow> ('z llm_agent_scheme, task_result) eff" where
  "coder_handle_task env task =
     (let request = dget (tk_params task) ''request'' (tk_description task);
          language = dget (tk_params task) ''language'' ''python'';
          context = dget (tk_params task) ''context'' [] in
      if strip request = [] then ret (TaskResult 1 ''Empty code request'' [] [])
      else seq (sys_log env ''info'' (''Coder: '' @ language @ '' | '' @ take 80 request) [])
       (bnd (tryc (bnd (complete env (coder_prompt request context) [] (system_template language) 2048 ''0.7'') (\<lambda>r. ret (Inr r)))
               (\<lambda>e. ret (Inl e)))
        (\<lambda>response. case response of
           Inl e \<Rightarrow> ret (TaskResult 1 (''Code generation failed: '' @ exn_str e) [] [])
         | Inr (JStr text) \<Rightarrow> deliver_code env request language text
         | Inr _ \<Rightarrow> throw (TypeError ''expected string or bytes-like object''))))"

section \<open>The worker's memory\<close>

lemma keeps_worker_log: "keeps task_memory (sys_log env l m f)" "keeps task_memory (report_progress m p)"
  "keeps task_memory (ask env pr mo mt te)"
  unfolding sys_log_def report_progress_def do_syscall_def
  by (intro keeps_rules; simp add: traceless_def llm_free_def ignores_def emit_def)+

lemma keeps_worker_done: "keeps task_memory (worker_done env p r)"
  unfolding worker_done_def Let_def
  by (intro keeps_rules keeps_worker_log; simp add: traceless_def llm_free_def ignores_def emit_def)

lemma wp_worker_done:
  "wp (worker_done env p r) (\<lambda>v t. task_memory t = task_memory s \<and> result_text r = Inr (tr_output v) \<and> tr_exit_code v = 0 \<and>
     dget (tr_metadata v) ''tasks_completed'' [] = str_nat (length (task_memory s))) (\<lambda>_ _. True) s"
proof -
  have "wp (worker_done env p r) (\<lambda>v t. result_text r = Inr (tr_output v) \<and> tr_exit_code v = 0 \<and>
     dget (tr_metadata v) ''tasks_completed'' [] = str_nat (length (task_memory s))) (\<lambda>_ _. True) s"
    unfolding worker_done_def wp_bnd get_llm_def wp_gets wp_of_opt Let_def
    by (auto simp: wp_simps TaskResult_def intro!: wp_always split: option.splits sum.splits)
  from wp_and_keeps[OF keeps_worker_done this] show ?thesis by (rule wp_mono) auto
qed

lemma wp_worker_handle_task:
  "wp (worker_handle_task env task) (\<lambda>r t. \<exists>answer. task_memory t =
      task_memory s @ [(dget (tk_params task) ''subtask'' (tk_description task), answer)] \<and>
    result_text answer = Inr (tr_output r) \<and> tr_exit_code r = 0 \<and>
    dget (tr_metadata r) ''tasks_completed'' [] = str_nat (length (task_memory s) + 1)) (\<lambda>_ _. True) s"
proof -
  let ?d = "dget (tk_params task) ''subtask'' (tk_description task)"
  let ?ok = "\<lambda>t. task_memory t = task_memory s"
  show ?thesis unfolding worker_handle_task_def Let_def wp_seq wp_bnd wp_gets
    apply (rule wp_keeps[OF keeps_worker_log(1)])
     apply (rule wp_keeps[OF keeps_worker_log(2)])
      apply (simp_all add: wp_lift_sum split: sum.split)
    apply (intro allI impI, rule wp_keeps[OF keeps_worker_log(3)])
     apply (simp_all add: wp_modify)
    apply (rule wp_mono[OF wp_worker_done])
     apply auto
    done
qed

text \<open>
  A worker remembers every task it completed: when a task returns, exactly one entry with
  its description and the LLM's answer has been added behind the earlier ones, the answer is
  the output, and the reported number of completed tasks is the length of the memory.
\<close>

theorem worker_remembers:
  assumes "result (worker_handle_task env task) s = Inr r"
  shows "\<exists>answer. task_memory (final (worker_handle_task env task) s) =
      task_memory s @ [(dget (tk_params task) ''subtask'' (tk_description task), answer)] \<and>
    result_text answer = Inr (tr_output r) \<and> tr_exit_code r = 0 \<and>
    dget (tr_metadata r) ''tasks_completed'' [] = str_nat (length (task_memory s) + 1)"
  using wp_returns[OF wp_worker_handle_task assms] by auto

definition example_worker :: "(string \<times> json) list \<Rightarrow> worker" where
  "example_worker ms = llm_agent.extend example_llm_agent \<lparr>task_memory = ms\<rparr>"

lemma example_worker_simps [simp]:
  "task_memory (example_worker ms) = ms" "llm (example_worker ms) = Some (LLMClient ''k'' [])"
  by (simp_all add: example_worker_def llm_agent.defs example_llm_agent_def worker.defs)

lemma example_worker_logs:
  assumes "\<And>t. llm t = llm s \<Longrightarrow> task_memory t = task_memory s \<Longrightarrow> Q () t"
  shows "wp (sys_log example_orch_env l m f) Q E s" "wp (report_progress x p) Q E s"
  using assms by (auto simp: sys_log_def report_progress_def wp_simps Let_def emit_def simp del: dumps.simps)

lemma example_worker_run:
  "\<exists>r. result (worker_handle_task example_orch_env example_plan_task) (example_worker []) = Inr r"
proof -
  have finish: "wp (worker_done example_orch_env p (JStr ''hello'')) (\<lambda>_ _. True) (\<lambda>_ _. False) t" if "llm t \<noteq> None" for p t
    unfolding worker_done_def get_llm_def Let_def wp_bnd wp_seq wp_gets wp_of_opt
    using that by (auto intro!: example_worker_logs simp: wp_lift_sum wp_ret result_text_def simp del: dumps.simps)
  have "wp (worker_handle_task example_orch_env example_plan_task) (\<lambda>_ _. True) (\<lambda>_ _. False) (example_worker [])"
    unfolding worker_handle_task_def Let_def wp_seq wp_bnd wp_gets
    apply (intro example_worker_logs)
    apply (simp add: wp_lift_sum worker_context_def del: dumps.simps)
    apply (rule wp_mono[OF example_ask])
      apply (auto simp: wp_modify intro!: finish simp del: dumps.simps)
    done
  then show ?thesis by (auto simp: wp_def result_def split: prod.splits sum.splits)
qed

theorem worker_remembers_witness:
  "\<exists>r answer. result (worker_handle_task example_orch_env example_plan_task) (example_worker []) = Inr r \<and>
    task_memory (final (worker_handle_task example_orch_env example_plan_task) (example_worker [])) = [(''d'', answer)] \<and>
    result_text answer = Inr (tr_output r) \<and> dget (tr_metadata r) ''tasks_completed'' [] = str_nat 1"
proof -
  obtain r where "result (worker_handle_task example_orch_env example_plan_task) (example_worker []) = Inr r"
    using example_worker_run by blast
  with worker_remembers[OF this] show ?thesis by (auto simp: example_plan_task_def simp del: dumps.simps)
qed

text \<open>
  A completion without text poisons a worker: once the LLM has answered \<open>null\<close> for a task,
  which the worker reports as completed with an empty output, every later task of this
  worker fails before the LLM is asked, because the remembered answer cannot be cut for
  the context.
\<close>

theorem worker_poisoned:
  assumes "(d, JNull) \<in> set (task_memory s)"
  shows "\<exists>e. result (worker_handle_task env task) s = Inl e \<and>
    llm (final (worker_handle_task env task) s) = llm s \<and>
    task_memory (final (worker_handle_task env task) s) = task_memory s"
proof -
  have "\<exists>e. memory_lines i ms = Inl e" if "(d, JNull) \<in> set ms" for i ms
    using that by (induction i ms rule: memory_lines.induct) (auto simp: slice_text_def split: sum.splits)
  from this[OF assms, of 1] have "\<exists>e. worker_context (task_memory s) = Inl e"
    using assms by (auto simp: worker_context_def)
  then obtain e where e: "worker_context (task_memory s) = Inl e" by blast
  let ?f = "\<lambda>t. (llm t, task_memory t)"
  have kept: "keeps ?f (sys_log env l m f)" "keeps ?f (report_progress m p)" for l m f p
    unfolding sys_log_def report_progress_def do_syscall_def
    by (intro keeps_rules; simp add: traceless_def emit_def)+
  have "wp (worker_handle_task env task) (\<lambda>_ _. False) (\<lambda>_ t. ?f t = ?f s) s"
    unfolding worker_handle_task_def Let_def wp_seq wp_bnd wp_gets
    by (rule wp_keeps[OF kept(1)], rule wp_keeps[OF kept(2)]) (auto simp: wp_lift_sum e)
  then show ?thesis by (auto simp: wp_def result_def final_def split: prod.splits sum.splits)
qed

theorem worker_poisoned_witness:
  "\<exists>e. result (worker_handle_task example_orch_env example_plan_task) (example_worker [(''a'', JNull)]) = Inl e"
  using worker_poisoned[of "''a''" "example_worker [(''a'', JNull)]" example_orch_env example_plan_task] by auto

section \<open>The Architect's plan\<close>

lemma no_fence_object [simp]: "\<not> startswith (CHR ''{'' # s) fence"
  by (simp add: fence_def)

lemma fallback_valid: "plan_error (dumps False (fallback_plan d mw)) = None"
proof -
  have "loads (dumps False (fallback_plan d mw)) = Some (fallback_plan d mw)"
    by (rule loads_dumps) (simp add: fallback_plan_def dict_ok_def)
  then show ?thesis unfolding plan_error_def by (simp add: fallback_plan_def bad_group_def del: dumps.simps)
qed

text \<open>A plan as it leaves the Architect: valid, and without white space around it.\<close>

definition plan_text_ok :: "string \<Rightarrow> bool" where
  "plan_text_ok p \<longleftrightarrow> plan_error p = None \<and> strip p = p"

lemma strip_unfence: "strip (unfence raw) = unfence raw"
  by (simp add: unfence_def Let_def)

lemma strip_fallback: "strip (dumps False (fallback_plan d mw)) = dumps False (fallback_plan d mw)"
  unfolding strip_def by (rule strip_by_id) (simp_all add: fallback_plan_def is_space_def)

lemma wp_choose_plan: "wp (choose_plan env d mw raw) (\<lambda>p _. plan_text_ok p) (\<lambda>_ _. True) s"
  unfolding choose_plan_def plan_text_ok_def
  by (auto simp: wp_simps strip_unfence strip_fallback fallback_valid intro!: wp_always split: option.splits simp del: dumps.simps)

lemma wp_architect: "wp (architect_handle_task env task) (\<lambda>r _. plan_text_ok (tr_output r)) (\<lambda>_ _. True) s"
proof -
  have finish: "wp (bnd (case r of JStr t \<Rightarrow> ret t | _ \<Rightarrow> throw (AttributeError ''object has no attribute strip''))
      (\<lambda>raw. choose_plan env d mw raw)) (\<lambda>p _. plan_text_ok p) (\<lambda>_ _. True) t" for r d mw t
    by (simp add: wp_simps wp_choose_plan split: json.split)
  show ?thesis unfolding architect_handle_task_def Let_def wp_bnd wp_seq wp_of_opt
    apply (simp split: option.split)
    apply (intro allI impI)
    apply (rule wp_skip, rule wp_skip, rule wp_skip, rule wp_skip)
    apply (rule wp_mono[OF finish[unfolded wp_bnd]])
     apply (rule wp_mono)
       apply assumption
      apply (auto simp: wp_ret TaskResult_def intro!: wp_skip)
    done
qed

lemma plan_text_object:
  assumes "plan_text_ok p"
  shows "\<exists>kvs t. loads p = Some (JObj kvs) \<and> p = CHR ''{'' # t"
proof -
  obtain kvs where kvs: "loads p = Some (JObj kvs)"
    using assms by (auto simp: plan_text_ok_def plan_error_def split: option.splits json.splits)
  from loads_object_start[OF this] obtain t where t: "skip_ws p = CHR ''{'' # t" by blast
  have "p \<noteq> []" using t by (auto simp: skip_ws_def)
  then have "\<not> is_space (hd p)" using strip_by_hd[of is_space p] assms by (auto simp: plan_text_ok_def strip_def)
  then have "skip_ws p = p" using \<open>p \<noteq> []\<close> by (cases p) (auto simp: skip_ws_def json_ws_def is_space_def)
  with kvs t show ?thesis by auto
qed

lemma enumerate_Nil: "enumerate n xs = [] \<longleftrightarrow> xs = []"
  by (metis length_0_conv length_enumerate)

lemma from_lines_object:
  assumes "strip p = p" "p = CHR ''{'' # t"
  shows "from_lines p \<noteq> []"
proof -
  obtain q qs where "split_on line_break t = q # qs" by (meson list.exhaust split_on_ne)
  then have line: "CHR ''{'' # q \<in> set (split_on line_break (strip p))" using assms by simp
  have strip: "\<exists>r. strip (CHR ''{'' # x) = CHR ''{'' # r" for x
    unfolding strip_def by (subst strip_by_Cons) (auto simp: is_space_def)
  have chars: "\<exists>r. strip_chars cs (CHR ''{'' # x) = CHR ''{'' # r" if "CHR ''{'' \<notin> set cs" for cs x
    unfolding strip_chars_def by (subst strip_by_Cons) (auto simp: that)
  have "clean_line (CHR ''{'' # q) \<noteq> []"
  proof -
    obtain a where "strip (CHR ''{'' # q) = CHR ''{'' # a" using strip by blast
    moreover obtain b where "strip_chars [CHR 0x22] (CHR ''{'' # a) = CHR ''{'' # b" using chars[of "[CHR 0x22]" a] by auto
    moreover obtain c where "strip_chars ''- '' (CHR ''{'' # b) = CHR ''{'' # c" using chars[of "''- ''" b] by auto
    moreover obtain d where "strip_chars ''0123456789.)'' (CHR ''{'' # c) = CHR ''{'' # d"
      using chars[of "''0123456789.)''" c] by auto
    ultimately show ?thesis by (simp add: clean_line_def)
  qed
  moreover have "strip (CHR ''{'' # q) \<noteq> []" "\<not> startswith (strip (CHR ''{'' # q)) fence"
    using strip[of q] by auto
  ultimately have "filter (\<lambda>s. s \<noteq> []) (map clean_line (filter (\<lambda>s. strip s \<noteq> [] \<and> \<not> startswith (strip s) fence)
       (split_on line_break (strip p)))) \<noteq> []"
    using line unfolding filter_empty_conv by auto
  then show ?thesis by (simp only: from_lines_def map_is_Nil_conv enumerate_Nil not_False_eq_True)
qed

text \<open>
  C28.  The Architect and the Orchestrator agree on plans: whatever the LLM answers, a plan that
  the Architect returns passes its validation, and the Orchestrator parses it without an
  exception into at least one and at most the allowed number of groups, so that the plan is
  always used.
\<close>

theorem architect_plan_used:
  assumes "result (architect_handle_task env task) s = Inr r" "0 < w"
  shows "plan_error (tr_output r) = None \<and>
    (\<exists>gs. parse_groups (tr_output r) w = Inr gs \<and> gs \<noteq> [] \<and> int (length gs) \<le> w)"
proof -
  have ok: "plan_text_ok (tr_output r)" using wp_returns[OF wp_architect assms(1)] .
  then obtain kvs t where p: "loads (tr_output r) = Some (JObj kvs)" "tr_output r = CHR ''{'' # t"
    using plan_text_object by blast
  have "unfence (tr_output r) = tr_output r" using ok p(2) by (simp add: unfence_def plan_text_ok_def Let_def)
  moreover have "from_lines (tr_output r) \<noteq> []" using from_lines_object[OF _ p(2)] ok by (simp add: plan_text_ok_def)
  moreover have "\<exists>gs. cap_groups g w = Inr gs \<and> gs \<noteq> [] \<and> int (length gs) \<le> w" if "g \<noteq> []" for g
    using cap_groups_ok[OF assms(2), of g] that assms(2) by (auto simp: min_def split: if_splits)
  ultimately show ?thesis using ok p(1) by (simp add: parse_groups_def plan_text_ok_def)
qed

lemma example_architect_run:
  "\<exists>r. result (architect_handle_task example_orch_env example_plan_task) example_llm_agent = Inr r"
proof -
  have "wp (architect_handle_task example_orch_env example_plan_task) (\<lambda>_ _. True) (\<lambda>_ _. False) example_llm_agent"
    unfolding architect_handle_task_def Let_def wp_seq wp_bnd wp_of_opt
    apply (simp add: example_plan_task_def[THEN arg_cong[where f = tk_params]] example_plan del: dumps.simps)
    apply (intro example_logs)
    apply (rule wp_mono[OF example_ask])
      apply (auto simp: example_llm_agent_def choose_plan_def store_plan_def wp_simps
        intro!: example_logs wp_always split: option.splits simp del: dumps.simps)
    done
  then show ?thesis by (auto simp: wp_def result_def split: prod.splits sum.splits)
qed

theorem architect_plan_used_witness:
  "\<exists>r gs. result (architect_handle_task example_orch_env example_plan_task) example_llm_agent = Inr r \<and>
     plan_error (tr_output r) = None \<and> parse_groups (tr_output r) 3 = Inr gs \<and> gs \<noteq> []"
proof -
  obtain r where r: "result (architect_handle_task example_orch_env example_plan_task) example_llm_agent = Inr r"
    using example_architect_run by blast
  from architect_plan_used[OF this, of 3] r show ?thesis by auto
qed

text \<open>
  The two validations differ: a group whose \<open>subtasks\<close> is a text and not a list passes the
  Architect's, but the Orchestrator finds no group in the plan and takes its lines as subtasks,
  so that a worker is given the JSON text of the plan.
\<close>

theorem text_subtasks_misread:
  "let p = dumps False (JObj [(''groups'', JList [JObj [(''subtasks'', JStr ''do it'')]])]) in
   plan_error p = None \<and> parse_groups p 3 = Inr [task_group 0 p]"
proof -
  define j where "j = JObj [(''groups'', JList [JObj [(''subtasks'', JStr ''do it'')]])]"
  define p where "p = dumps False j"
  have loads: "loads p = Some j"
    unfolding p_def by (rule loads_dumps) (simp add: j_def dict_ok_def)
  have lines: "from_lines p = [task_group 0 p] \<and> unfence p = p" unfolding p_def j_def by code_simp
  have "plan_error p = None" by (simp add: plan_error_def loads) (simp add: j_def bad_group_def)
  moreover have "parse_groups p 3 = Inr [task_group 0 p]"
    by (simp add: parse_groups_def loads lines) (simp add: j_def from_object_def from_list_def cap_groups_def)
  ultimately show ?thesis by (simp only: Let_def p_def j_def)
qed

section \<open>Code blocks\<close>

lemma find_block_skip:
  "(\<And>i. i < length pre \<Longrightarrow> \<not> startswith (drop i (pre @ s)) fence) \<Longrightarrow> find_block (pre @ s) = find_block s"
proof (induction pre)
  case (Cons c pre)
  have "block_at (c # pre @ s) = None" using Cons.prems[of 0] by (simp add: block_at_def)
  moreover have "find_block (pre @ s) = find_block s"
    by (rule Cons.IH) (use Cons.prems[of "Suc _"] in auto)
  ultimately show ?case by simp
qed simp

text \<open>No fence in a text that ends without a backtick, also not across its end.\<close>

definition fence_free :: "string \<Rightarrow> bool" where
  "fence_free s \<longleftrightarrow> \<not> contains fence s \<and> (s = [] \<or> last s \<noteq> CHR 0x60)"

lemma fence_free_start:
  assumes "fence_free pre" "i < length pre"
  shows "\<not> startswith (drop i (pre @ s)) fence"
proof
  assume "startswith (drop i (pre @ s)) fence"
  then obtain t where t: "drop i (pre @ s) = fence @ t" by (auto simp: startswith_iff)
  then have eq: "drop i pre @ s = fence @ t" using assms(2) by simp
  show False
  proof (cases "length (drop i pre) \<ge> 3")
    case True
    then have "take 3 (drop i pre) = fence" using arg_cong[OF eq, of "take 3"] by (simp add: fence_def)
    then have "pre = take i pre @ fence @ drop 3 (drop i pre)" by (metis append_take_drop_id)
    then show False using assms(1) by (auto simp: fence_free_def contains_iff)
  next
    case False
    let ?k = "length (drop i pre)"
    have "take ?k (fence @ t) = take ?k fence" using False by (simp only: take_append) (auto simp: fence_def)
    moreover have "take ?k (drop i pre @ s) = drop i pre" by simp
    ultimately have "drop i pre = take ?k fence" using eq by metis
    moreover have "0 < ?k" using assms(2) by simp
    ultimately have "last (drop i pre) = CHR 0x60" using False
      by (auto simp: fence_def take_Cons' split: if_splits)
    then show False using assms by (auto simp: fence_free_def last_drop)
  qed
qed

lemma find_sub_fence: "fence_free code \<Longrightarrow> find_sub fence (code @ fence @ post) = Some (length code)"
proof (induction code)
  case Nil
  then show ?case by (simp add: fence_def)
next
  case (Cons c code)
  have "\<not> startswith ((c # code) @ fence @ post) fence" using fence_free_start[OF Cons.prems, of 0] by simp
  moreover have "fence_free code" using Cons.prems by (auto simp: fence_free_def contains_def split: if_splits)
  ultimately show ?case using Cons.IH by simp
qed

text \<open>
  A fenced answer gives back its code: when the answer has a code block with any language
  tag, after text without a fence, the Coder extracts exactly the code of the block, up to
  white space around it, whatever comes after the block.
\<close>

theorem extract_code_round_trip:
  assumes "fence_free pre" "fence_free code" "list_all is_word lang"
  shows "extract_code_block (pre @ fence @ lang @ [line_break] @ code @ fence @ post) = strip code"
proof -
  have "block_at (fence @ lang @ [line_break] @ code @ fence @ post) = Some code"
  proof -
    have "dropWhile is_word (lang @ line_break # code @ fence @ post) = line_break # code @ fence @ post"
      using assms(3) by (subst dropWhile_append2) (auto simp: list_all_iff is_word_def)
    then show ?thesis using find_sub_fence[OF assms(2), of post] by (simp add: block_at_def fence_def)
  qed
  then have "find_block (fence @ lang @ [line_break] @ code @ fence @ post) = Some code"
    by (simp add: fence_def)
  moreover have "find_block (pre @ fence @ lang @ [line_break] @ code @ fence @ post) =
      find_block (fence @ lang @ [line_break] @ code @ fence @ post)"
    by (rule find_block_skip) (rule fence_free_start[OF assms(1)])
  ultimately show ?thesis by (simp add: extract_code_block_def)
qed

theorem extract_code_round_trip_witness:
  "extract_code_block (''see:'' @ fence @ ''py'' @ [line_break] @ ''x = 1'' @ fence @ '' ok'') = ''x = 1''"
proof -
  have "fence_free ''see:''" "fence_free ''x = 1''" by (simp_all add: fence_free_def contains_def fence_def)
  moreover have "list_all is_word ''py''" by (simp add: is_word_def)
  moreover have "strip ''x = 1'' = ''x = 1''" by code_simp
  ultimately show ?thesis using extract_code_round_trip[of "''see:''" "''x = 1''" "''py''" "'' ok''"] by simp
qed

lemma code_key_safe: "length (code_key request) \<le> 40 \<and> list_all key_char (code_key request)"
proof -
  let ?cs = "map (\<lambda>c. if key_char c then c else CHR ''-'') (lower request)"
  have "set (code_key request) \<subseteq> set ?cs"
    unfolding code_key_def strip_chars_def using set_strip_by set_take_subset by fast
  then have "list_all key_char (code_key request)"
    by (auto simp: list_all_iff key_char_def split: if_splits)
  moreover have "length (strip_by p s) \<le> length s" for p and s :: string
    unfolding strip_by_def by (metis length_dropWhile_le length_rev order_trans)
  then have "length (code_key request) \<le> 40"
    unfolding code_key_def strip_chars_def by (rule order_trans) simp
  ultimately show ?thesis by blast
qed

end
