(* ===== verification/Maid.thy ===== *)
theory Maid
  imports Agent PyValue
begin

text \<open>
  \<open>MaidAgent\<close> of \<open>maid.py\<close>: the scan of the process table, the detection of zombies
  and orphans, the report and the health check.  The kernel's answer to
  \<open>GetProcessInfo\<close> is a table from pids to processes (locale \<open>process_table\<close>).  The
  text of a float and of the local time are parameters (\<open>frepr\<close>, \<open>hms\<close>).
\<close>

section \<open>State and reports\<close>

record maid = agent +
  check_interval :: int
  max_pid_scan :: nat

definition MaidAgent_scan :: nat where
  "MaidAgent_scan = 200"

definition STATE_ZOMBIE :: int where "STATE_ZOMBIE = 5"
definition STATE_DEAD :: int where "STATE_DEAD = 4"

record proc =
  pr_pid :: pid
  pr_ppid :: pid
  pr_name :: string
  pr_state :: int
  pr_role :: int
  pr_tokens :: int

record report =
  rp_ts :: rat
  rp_total :: nat
  rp_zombie_count :: nat
  rp_orphan_count :: nat
  rp_zombies :: "proc list"
  rp_orphans :: "proc list"
  rp_anomalies :: "string list"
  rp_processes :: "proc list"

definition to_proc :: "proc_info \<Rightarrow> proc" where
  "to_proc i = \<lparr>pr_pid = pi_pid i, pr_ppid = pi_ppid i, pr_name = pi_name i, pr_state = pi_state i,
     pr_role = pi_role i, pr_tokens = pi_tokens_consumed i\<rparr>"

section \<open>The scan\<close>

definition probe :: "env \<Rightarrow> core_client \<Rightarrow> pid \<Rightarrow> ('z world_scheme, proc list) eff" where
  "probe env c p = tryc (bnd (get_process_info env c p) (\<lambda>i. ret [to_proc i])) (\<lambda>_. ret [])"

definition is_zombie :: "proc \<Rightarrow> bool" where
  "is_zombie p \<longleftrightarrow> pr_state p = STATE_ZOMBIE"

definition gone :: "int \<Rightarrow> bool" where
  "gone st \<longleftrightarrow> st = STATE_ZOMBIE \<or> st = STATE_DEAD"

definition pid_states :: "proc list \<Rightarrow> (pid, int) dict" where
  "pid_states ps = foldl (\<lambda>d p. dset (pr_pid p) (pr_state p) d) [] ps"

definition is_orphan :: "(pid, int) dict \<Rightarrow> proc \<Rightarrow> bool" where
  "is_orphan states p =
     (if pr_ppid p = 0 then False
      else if gone (pr_state p) then False
      else case map_of states (pr_ppid p) of None \<Rightarrow> True | Some st \<Rightarrow> gone st)"

definition describe :: "string \<Rightarrow> proc list \<Rightarrow> string list" where
  "describe what ps = (if ps = [] then []
     else [str_nat (length ps) @ '' '' @ what @ ''(s): '' @
           join '', '' (map (\<lambda>p. ''PID '' @ str_int (pr_pid p) @ '' ('' @ pr_name p @ '')'') ps)])"

definition make_report :: "rat \<Rightarrow> proc list \<Rightarrow> report" where
  "make_report ts ps =
     (let zombies = filter is_zombie ps; orphans = filter (is_orphan (pid_states ps)) ps in
      \<lparr>rp_ts = ts, rp_total = length ps, rp_zombie_count = length zombies, rp_orphan_count = length orphans,
       rp_zombies = zombies, rp_orphans = orphans,
       rp_anomalies = describe ''zombie'' zombies @ describe ''orphan'' orphans, rp_processes = ps\<rparr>)"

definition scan :: "env \<Rightarrow> ('z maid_scheme, report) eff" where
  "scan env = bnd (gets a_core) (\<lambda>c. case c of
      None \<Rightarrow> bnd (time_time env) (\<lambda>ts. ret \<lparr>rp_ts = ts, rp_total = 0, rp_zombie_count = 0,
        rp_orphan_count = 0, rp_zombies = [], rp_orphans = [], rp_anomalies = [''no core client''],
        rp_processes = []\<rparr>)
    | Some core \<Rightarrow> bnd (gets max_pid_scan) (\<lambda>n.
        bnd (mapeff (probe env core) (map int [1..<Suc n])) (\<lambda>pss.
        bnd (time_time env) (\<lambda>ts. ret (make_report ts (concat pss))))))"

section \<open>Reports as text and JSON\<close>

definition format_report :: "string \<Rightarrow> report \<Rightarrow> string" where
  "format_report now r = join [CHR 0x0A] (
     [''=== Maid Health Report ==='', ''Time: '' @ now, ''Total processes: '' @ str_nat (rp_total r),
      ''Zombies: '' @ str_nat (rp_zombie_count r), ''Orphans: '' @ str_nat (rp_orphan_count r)] @
     map (\<lambda>z. ''  ZOMBIE: PID '' @ str_int (pr_pid z) @ '' ('' @ pr_name z @ '')'') (rp_zombies r) @
     map (\<lambda>p. ''  ORPHAN: PID '' @ str_int (pr_pid p) @ '' ('' @ pr_name p @ '', ppid='' @ str_int (pr_ppid p) @ '')'')
       (rp_orphans r) @
     (if rp_anomalies r = [] then [''No anomalies detected.'']
      else ''Anomalies:'' # map (\<lambda>a. ''  - '' @ a) (rp_anomalies r)))"

definition proc_json :: "proc \<Rightarrow> json" where
  "proc_json p = JObj [(''pid'', JInt (pr_pid p)), (''ppid'', JInt (pr_ppid p)), (''name'', JStr (pr_name p)),
     (''state'', JInt (pr_state p)), (''role'', JInt (pr_role p)), (''tokens'', JInt (pr_tokens p))]"

definition report_to_json :: "(rat \<Rightarrow> string) \<Rightarrow> report \<Rightarrow> json" where
  "report_to_json frepr r = JObj [(''ts'', JFloat (frepr (rp_ts r))), (''total'', JInt (int (rp_total r))),
     (''zombie_count'', JInt (int (rp_zombie_count r))), (''orphan_count'', JInt (int (rp_orphan_count r))),
     (''zombies'', JList (map proc_json (rp_zombies r))), (''orphans'', JList (map proc_json (rp_orphans r))),
     (''anomalies'', JList (map JStr (rp_anomalies r))), (''processes'', JList (map proc_json (rp_processes r)))]"

section \<open>Handlers\<close>

definition text_report :: "env \<Rightarrow> (rat \<Rightarrow> string) \<Rightarrow> report \<Rightarrow> ('z world_scheme, string) eff" where
  "text_report env hms r = bnd (time_time env) (\<lambda>now. ret (format_report (hms now) r))"

definition maid_handle_task :: "env \<Rightarrow> (rat \<Rightarrow> string) \<Rightarrow> ('z maid_scheme, task_result) eff" where
  "maid_handle_task env hms = bnd (scan env) (\<lambda>r. bnd (text_report env hms r) (\<lambda>t.
     ret (TaskResult 0 t [] [])))"

text \<open>Reading the description for the log line: only bad JSON and a \<open>TypeError\<close> are caught.\<close>

definition cron_description :: "bytes \<Rightarrow> exn + unit" where
  "cron_description b = (case utf8_decode b of
      None \<Rightarrow> Inl (UnicodeDecodeError ''invalid start byte'')
    | Some t \<Rightarrow> (case loads t of
        None \<Rightarrow> Inr ()
      | Some (JObj _) \<Rightarrow> Inr ()
      | Some _ \<Rightarrow> Inl (AttributeError ''object has no attribute get'')))"

definition maid_handle_message :: "env \<Rightarrow> (rat \<Rightarrow> string) \<Rightarrow> message \<Rightarrow> ('z maid_scheme, message_ack) eff" where
  "maid_handle_message env hms m =
     (if ms_type m = ''cron_task'' then
        seq (lift_sum (cron_description (ms_payload m)))
        (bnd (scan env) (\<lambda>r. bnd (text_report env hms r) (\<lambda>t. bnd (gets a_core) (\<lambda>c.
         seq (case c of
                None \<Rightarrow> ret ()
              | Some core \<Rightarrow> tryc (seq (send_message env core (ms_from_pid m) [] ''cron_result'' (utf8_encode t)
                  ''normal'' False 0 (ms_message_id m)) (ret ())) (\<lambda>_. ret ()))
           (ret (MessageAck ACK_ACCEPTED))))))
      else handle_message m)"

text \<open>One round of \<open>_health_loop\<close>, between two sleeps.\<close>

definition health_check :: "env \<Rightarrow> (rat \<Rightarrow> string) \<Rightarrow> (rat \<Rightarrow> string) \<Rightarrow> ('z maid_scheme, unit) eff" where
  "health_check env frepr hms = tryc
     (bnd (scan env) (\<lambda>r. seq (text_report env hms r) (bnd (gets a_core) (\<lambda>c.
      seq (case c of
             None \<Rightarrow> ret ()
           | Some core \<Rightarrow> tryc (seq (store_artifact env core ''maid/health-report''
               (utf8_encode (dumps False (report_to_json frepr r))) ''application/json'' 3) (ret ())) (\<lambda>_. ret ()))
      (whenc (rp_anomalies r \<noteq> []) (case c of
             None \<Rightarrow> ret ()
           | Some core \<Rightarrow> tryc (seq (escalate env core (''Maid health alert: '' @ join ''; '' (rp_anomalies r))
               ''warning'' True) (ret ())) (\<lambda>_. ret ())))))))
     (\<lambda>_. ret ())"

section \<open>The process table\<close>

text \<open>What the kernel answers about a pid: the process, or a not-found error.\<close>

fun asked_pid :: "call \<Rightarrow> pid option" where
  "asked_pid (Rpc _ _ (ProcessInfoRequest p)) = Some p"
| "asked_pid _ = None"

definition info_answer :: "(pid \<rightharpoonup> proc_info) \<Rightarrow> call list \<Rightarrow> exn + proc_info" where
  "info_answer tbl h = (case asked_pid (last h) of
      None \<Rightarrow> Inl (RpcError ''unimplemented'')
    | Some p \<Rightarrow> (case tbl p of None \<Rightarrow> Inl (RpcError ''process not found'') | Some i \<Rightarrow> Inr i))"

definition with_table :: "(pid \<rightharpoonup> proc_info) \<Rightarrow> env \<Rightarrow> env" where
  "with_table tbl env = env\<lparr>e_info := info_answer tbl\<rparr>"

locale process_table =
  fixes env :: env and tbl :: "pid \<rightharpoonup> proc_info"
  assumes known: "asked_pid c = Some p \<Longrightarrow> tbl p = Some i \<Longrightarrow> e_info env (h @ [c]) = Inr i"
    and unknown: "asked_pid c = Some p \<Longrightarrow> tbl p = None \<Longrightarrow> \<exists>e. e_info env (h @ [c]) = Inl e"
begin

definition procs :: "pid list \<Rightarrow> proc list" where
  "procs ps = map to_proc (List.map_filter tbl ps)"

lemma asked_rpc: "asked_pid (rpc core None (ProcessInfoRequest p)) = Some p"
  by (simp add: rpc_def)

lemma probe_ok:
  "wp (probe env core p) (\<lambda>v t. v = (case tbl p of None \<Rightarrow> [] | Some i \<Rightarrow> [to_proc i])) E s"
  using known[OF asked_rpc[of core p]] unknown[OF asked_rpc[of core p], of "trace s"]
  by (cases "tbl p") (auto simp: probe_def get_process_info_def wp_simps)

lemma probes_ok:
  "wp (mapeff (probe env core) ps) (\<lambda>v _. concat v = procs ps) E s"
proof (induction ps arbitrary: s)
  case (Cons p ps)
  show ?case unfolding mapeff.simps wp_bnd wp_ret
    by (rule wp_mono[OF probe_ok])
      (auto intro!: wp_mono[OF Cons.IH] simp: procs_def List.map_filter_def split: option.splits)
qed (simp add: wp_simps procs_def List.map_filter_def)

lemma scan_ok:
  assumes "a_core s = Some core"
  shows "wp (scan env) (\<lambda>r _. \<exists>ts. r = make_report ts (procs (map int [1..<Suc (max_pid_scan s)]))) E s"
  unfolding scan_def wp_bnd wp_gets wp_case_option using assms
  by (simp del: upt_Suc) (rule wp_mono[OF probes_ok]; auto simp: wp_simps simp del: upt_Suc)

end

interpretation kernel_table: process_table "with_table tbl env" tbl for tbl env
  by unfold_locales (auto simp: with_table_def info_answer_def)

text \<open>The states of the scanned range, looked up by pid.\<close>

lemma pid_states_snoc: "pid_states (ps @ [p]) = dset (pr_pid p) (pr_state p) (pid_states ps)"
  by (simp add: pid_states_def)

lemma pid_states_table:
  assumes "\<And>p i. tbl p = Some i \<Longrightarrow> pi_pid i = p"
  shows "map_of (pid_states (map to_proc (List.map_filter tbl ps))) q =
         (if q \<in> set ps then map_option pi_state (tbl q) else None)"
proof (induction ps rule: rev_induct)
  case Nil
  then show ?case by (simp add: pid_states_def List.map_filter_def)
next
  case (snoc p ps)
  show ?case
  proof (cases "tbl p")
    case None
    then show ?thesis using snoc by (auto simp: List.map_filter_def)
  next
    case (Some i)
    have "map to_proc (List.map_filter tbl (ps @ [p])) = map to_proc (List.map_filter tbl ps) @ [to_proc i]"
      using Some by (simp add: List.map_filter_def)
    moreover have "pr_pid (to_proc i) = p" "pr_state (to_proc i) = pi_state i"
      using assms[OF Some] by (simp_all add: to_proc_def)
    ultimately show ?thesis using snoc Some by (simp add: pid_states_snoc)
  qed
qed

lemma probe_quiet: "\<exists>v t. probe env c p s = (Inr v, t) \<and> a_core t = a_core s"
  for s :: "'z agent_scheme"
  by (auto simp: probe_def get_process_info_def ask_env_def eff_defs emit_def split: sum.splits)

lemma probes_quiet: "\<exists>v t. mapeff (probe env c) ps s = (Inr v, t) \<and> a_core t = a_core s"
  for s :: "'z agent_scheme"
proof (induction ps arbitrary: s)
  case (Cons p ps)
  obtain v t where "probe env c p s = (Inr v, t)" "a_core t = a_core s" using probe_quiet by blast
  moreover obtain vs u where "mapeff (probe env c) ps t = (Inr vs, u)" "a_core u = a_core t" using Cons.IH by blast
  ultimately show ?case by (simp add: bnd_def ret_def)
qed (simp add: ret_def)

lemma scan_quiet: "\<exists>r t. scan env s = (Inr r, t) \<and> a_core t = a_core s"
proof (cases "a_core s")
  case None
  then show ?thesis by (simp add: scan_def bnd_def gets_def time_time_def ret_def emit_def)
next
  case (Some core)
  obtain v t where "mapeff (probe env core) (map int [1..<Suc (max_pid_scan s)]) s = (Inr v, t)" "a_core t = a_core s"
    using probes_quiet by blast
  with Some show ?thesis
    by (simp add: scan_def bnd_def gets_def time_time_def ret_def emit_def del: upt_Suc)
qed

lemma scan_result:
  assumes "a_core s = Some core"
  shows "\<exists>ts. result (scan (with_table tbl env)) s =
    Inr (make_report ts (map to_proc (List.map_filter tbl (map int [1..<Suc (max_pid_scan s)]))))"
  using kernel_table.scan_ok[OF assms, of tbl env "\<lambda>_ _. False"]
  unfolding kernel_table.procs_def by (auto simp: wp_def result_def split: prod.splits sum.splits)

lemma orphan_in_table:
  assumes "\<And>p i. tbl p = Some i \<Longrightarrow> pi_pid i = p"
  shows "is_orphan (pid_states (map to_proc (List.map_filter tbl ps))) p \<longleftrightarrow> pr_ppid p \<noteq> 0 \<and> \<not> gone (pr_state p) \<and>
       (pr_ppid p \<notin> set ps \<or> (case tbl (pr_ppid p) of None \<Rightarrow> True | Some i \<Rightarrow> gone (pi_state i)))"
  using pid_states_table[where tbl = tbl and ps = ps and q = "pr_ppid p", OF assms]
  by (auto simp: is_orphan_def split: option.splits)

section \<open>Properties\<close>


definition example_maid :: maid where
  "example_maid = \<lparr>trace = [], a_pid = 2, a_ppid = 1, a_user = ''u'', a_role = ''daemon'',
     a_config = AgentConfig, a_core = Some (CoreClient 2), a_server = True,
     pending_requests = no_futures, pending_results = [], check_interval = 60, max_pid_scan = 200\<rparr>"


text \<open>A table in which every process is filed under its pid, runs, and has a running parent.\<close>

definition healthy :: "(pid \<rightharpoonup> proc_info) \<Rightarrow> bool" where
  "healthy tbl \<longleftrightarrow> (\<forall>p i. tbl p = Some i \<longrightarrow> pi_pid i = p \<and> \<not> gone (pi_state i) \<and>
     (pi_ppid i = 0 \<or> tbl (pi_ppid i) \<noteq> None))"

text \<open>
  The scan reports a healthy process as an orphan when its parent's pid is above the
  scanned range: there is a process table in which every process is running under a
  running parent and the report still names an orphan.
\<close>

theorem maid_false_orphan:
  "\<exists>tbl r. healthy tbl \<and> result (scan (with_table tbl env)) example_maid = Inr r \<and> rp_orphans r \<noteq> []"
proof -
  let ?tbl = "[1 \<mapsto> example_proc 1 0, 5 \<mapsto> example_proc 5 300, 300 \<mapsto> example_proc 300 1] :: pid \<rightharpoonup> proc_info"
  let ?range = "map int [1..<Suc (max_pid_scan example_maid)]"
  let ?ps = "map to_proc (List.map_filter ?tbl ?range)"
  have ok: "pi_pid i = p \<and> \<not> gone (pi_state i) \<and> (pi_ppid i = 0 \<or> ?tbl (pi_ppid i) \<noteq> None)"
    if "?tbl p = Some i" for p i
    using that by (auto simp: example_proc_def gone_def STATE_ZOMBIE_def STATE_DEAD_def split: if_splits)
  have range: "set ?range = {1..200}"
    by (auto simp: example_maid_def image_int_atLeastLessThan simp del: upt_Suc)
  obtain ts where r: "result (scan (with_table ?tbl env)) example_maid = Inr (make_report ts ?ps)"
    using scan_result[of example_maid "CoreClient 2" ?tbl env] by (auto simp: example_maid_def)
  let ?p = "to_proc (example_proc 5 300)"
  have "5 \<in> set ?range" "?tbl 5 = Some (example_proc 5 300)" by (simp_all only: range) simp_all
  then have "?p \<in> set ?ps" by (force simp: List.map_filter_def simp del: upt_Suc)
  moreover have "is_orphan (pid_states ?ps) ?p"
  proof (rule iffD2[OF orphan_in_table])
    show "pi_pid i = p" if "?tbl p = Some i" for p i using ok[OF that] by blast
    show "pr_ppid ?p \<noteq> 0 \<and> \<not> gone (pr_state ?p) \<and>
      (pr_ppid ?p \<notin> set ?range \<or> (case ?tbl (pr_ppid ?p) of None \<Rightarrow> True | Some i \<Rightarrow> gone (pi_state i)))"
      unfolding range by (simp add: to_proc_def example_proc_def gone_def STATE_ZOMBIE_def STATE_DEAD_def)
  qed
  ultimately have "rp_orphans (make_report ts ?ps) \<noteq> []"
    by (auto simp: make_report_def Let_def filter_empty_conv simp del: upt_Suc)
  moreover have "healthy ?tbl" using ok unfolding healthy_def by blast
  ultimately show ?thesis using r by blast
qed

text \<open>
  A health check never raises, and after its scan it makes exactly these calls: it
  stores the report under \<open>maid/health-report\<close>, and it escalates if and only if the
  scan found anomalies, whether or not the store succeeded.
\<close>

theorem health_check_calls:
  assumes "a_core s = Some core" "result (scan env) s = Inr r"
  shows "result (health_check env frepr hms) s = Inr () \<and>
    trace (final (health_check env frepr hms) s) = trace (final (scan env) s) @
      [Clock, rpc core None (StoreArtifactRequest \<lparr>st_key = ''maid/health-report'',
         st_content = utf8_encode (dumps False (report_to_json frepr r)),
         st_content_type = ''application/json'', st_visibility = 3\<rparr>)] @
      (if rp_anomalies r = [] then []
       else [rpc core None (EscalateRequest (''Maid health alert: '' @ join ''; '' (rp_anomalies r)) 1 True)])"
proof -
  obtain t where t: "scan env s = (Inr r, t)" "a_core t = Some core"
    using scan_quiet[of env s] assms by (auto simp: result_def)
  then show ?thesis
    by (auto simp: health_check_def text_report_def time_time_def store_artifact_def escalate_def checked_def
        ask_env_def eff_defs emit_def severity_to_proto_def split: sum.splits prod.splits)
qed

theorem health_check_calls_witness:
  "result (health_check (example_env\<lparr>e_store := \<lambda>_. Inl (RpcError ''down'')\<rparr>) (\<lambda>_. ''0.0'') (\<lambda>_. ''00:00:00'')) example_maid = Inr ()"
proof -
  obtain r where "result (scan (example_env\<lparr>e_store := \<lambda>_. Inl (RpcError ''down'')\<rparr>)) example_maid = Inr r"
    using scan_quiet[of _ example_maid] by (metis fst_conv result_def)
  from health_check_calls[OF _ this, of "CoreClient 2"] show ?thesis by (simp add: example_maid_def)
qed

end
