(* ===== verification/Assistant.thy ===== *)
theory Assistant
  imports Queen
begin

text \<open>
  \<open>AssistantAgent\<close> of \<open>assistant.py\<close>: the chat agent that schedules cron jobs, has code
  written, and delegates tasks to other agents without waiting: the answer of a delegation
  arrives in the mailbox and is shown with the next reply.  Values taken from an LLM answer or
  from task parameters are JSON, and an operation on a value of the wrong kind raises what
  Python raises.  \<open>pyfloat\<close> is the number that a float's text denotes.
\<close>

section \<open>State\<close>

record delegation =
  dl_target :: string
  dl_task :: json
  dl_ts :: rat
  dl_trace_id :: string

record assistant = llm_agent +
  active_delegations :: "(string, delegation) dict"

definition DELEGATION_TIMEOUT :: rat where "DELEGATION_TIMEOUT = 600"

abbreviation brk :: string where
  "brk \<equiv> [CHR 0x0A]"

definition SYSTEM_PROMPT :: string where
  "SYSTEM_PROMPT =
     ''You are HiveKernel Assistant, a helpful AI running inside a process tree OS.'' @ brk @ ''You can:'' @ brk @
     ''- Answer questions on any topic'' @ brk @ ''- Schedule recurring tasks using cron expressions'' @ brk @
     ''- Delegate tasks to sibling agents (Queen, Coder, etc.) via IPC messaging'' @ brk @
     ''- Check GitHub repos via the GitMonitor agent'' @ brk @ brk @
     ''Delegation is ASYNC: when you delegate to another agent, the task is sent and you respond immediately. '' @
     ''Results arrive with the user'' @ [CHR 0x27] @ ''s next message.'' @ brk @ brk @
     ''Respond concisely and helpfully.'' @ brk @
     ''If the user asks to schedule something, include this JSON block in your response:'' @ brk @
     ''SCHEDULE: {'' @ quoted ''name'' @ '': '' @ quoted ''task-name'' @ '', '' @ quoted ''cron'' @ '': '' @
     quoted ''*/30 * * * *'' @ '', '' @ quoted ''target'' @ '': '' @ quoted ''github-monitor'' @ '', '' @
     quoted ''description'' @ '': '' @ quoted ''What to do'' @ '', '' @ quoted ''params'' @ '': {}}'' @ brk @
     ''If the user asks to write/generate code, include this block:'' @ brk @
     ''DELEGATE_CODE: {'' @ quoted ''request'' @ '': '' @ quoted ''what to code'' @ '', '' @ quoted ''language'' @ '': '' @
     quoted ''python'' @ ''}'' @ brk @
     ''If the user asks you to delegate a task to another agent (like Queen for research, analysis, or complex tasks), '' @
     ''include this block:'' @ brk @
     ''DELEGATE: {'' @ quoted ''to'' @ '': '' @ quoted ''<agent-name>'' @ '', '' @ quoted ''task'' @ '': '' @
     quoted ''description of what to do'' @ ''}'' @ brk @ ''Otherwise just answer the question directly.''"

section \<open>Blocks in an answer\<close>

text \<open>
  The scan for the brace that closes a block: the number of characters up to and with it.
  It counts every brace, also those inside JSON strings.
\<close>

fun block_end :: "int \<Rightarrow> string \<Rightarrow> nat option" where
  "block_end depth [] = None"
| "block_end depth (c # s) =
     (if c = CHR ''{'' then map_option Suc (block_end (depth + 1) s)
      else if c = CHR ''}'' then (if depth - 1 = 0 then Some 1 else map_option Suc (block_end (depth - 1) s))
      else map_option Suc (block_end depth s))"

text \<open>Where the block of a marker starts and ends in a text.\<close>

definition block_span :: "string \<Rightarrow> string \<Rightarrow> (nat \<times> nat) option" where
  "block_span text marker = (case find_sub marker text of
      None \<Rightarrow> None
    | Some i \<Rightarrow> (let idx = i + length marker in
        case find_sub ''{'' (drop idx text) of
          None \<Rightarrow> None
        | Some k \<Rightarrow> (case block_end 0 (drop (idx + k) text) of
            None \<Rightarrow> None
          | Some n \<Rightarrow> Some (idx + k, idx + k + n))))"

definition extract_json_block :: "string \<Rightarrow> string \<Rightarrow> json option" where
  "extract_json_block text marker = (case block_span text marker of
      None \<Rightarrow> None
    | Some (a, b) \<Rightarrow> loads (take (b - a) (drop a text)))"

text \<open>
  Taking the block out of the text: here the brace is looked for from the start of the
  marker, which gives the same place, since no marker has a brace.
\<close>

definition remove_block :: "string \<Rightarrow> string \<Rightarrow> string" where
  "remove_block marker text = (case extract_json_block text marker of
      None \<Rightarrow> text
    | Some _ \<Rightarrow> (case (find_sub marker text, block_span text marker) of
        (Some i, Some (a, b)) \<Rightarrow> take i text @ drop b text
      | _ \<Rightarrow> text))"

definition clean_response :: "string \<Rightarrow> string" where
  "clean_response response = foldl (\<lambda>t m. remove_block m t) response [''SCHEDULE:'', ''DELEGATE_CODE:'', ''DELEGATE:'']"

section \<open>Conversions\<close>

definition trunc :: "rat \<Rightarrow> int" where
  "trunc x = (if x < 0 then \<lceil>x\<rceil> else \<lfloor>x\<rfloor>)"

text \<open>\<open>int(x)\<close>, and its use as a pid.\<close>

definition py_int :: "(string \<Rightarrow> rat) \<Rightarrow> json \<Rightarrow> exn + int" where
  "py_int pyfloat j = (case j of
      JInt i \<Rightarrow> Inr i
    | JBool b \<Rightarrow> Inr (if b then 1 else 0)
    | JFloat t \<Rightarrow> Inr (trunc (pyfloat t))
    | JStr t \<Rightarrow> (case parse_int t of None \<Rightarrow> Inl (ValueError ''invalid literal for int() with base 10'') | Some i \<Rightarrow> Inr i)
    | _ \<Rightarrow> Inl (TypeError ''int() argument must be a string or a real number''))"

definition to_pid :: "(string \<Rightarrow> rat) \<Rightarrow> json \<Rightarrow> exn + pid" where
  "to_pid pyfloat j = (case py_int pyfloat j of Inl e \<Rightarrow> Inl e | Inr i \<Rightarrow> uint64 i)"

text \<open>\<open>info.get("params") or {}\<close> for a map of texts.\<close>

definition text_map :: "json \<Rightarrow> exn + params" where
  "text_map j = (if \<not> truthy j then Inr [] else case j of
      JObj kvs \<Rightarrow> (case those (map (\<lambda>(k, v). case v of JStr t \<Rightarrow> Some (k, t) | _ \<Rightarrow> None) kvs) of
        Some ps \<Rightarrow> Inr ps
      | None \<Rightarrow> Inl (TypeError ''bad argument type for built-in operation''))
    | _ \<Rightarrow> Inl (TypeError ''bad argument type for built-in operation''))"

section \<open>Finding an agent\<close>

text \<open>
  By its name, or else the first agent whose name contains the target's, case ignored; the
  result is \<open>None\<close> when there is none.
\<close>

definition find_agent :: "json \<Rightarrow> (string, json) dict \<Rightarrow> exn + json" where
  "find_agent target pids = (case target of
      JList _ \<Rightarrow> Inl (TypeError ''unhashable type: list'')
    | JObj _ \<Rightarrow> Inl (TypeError ''unhashable type: dict'')
    | JStr t \<Rightarrow> (let direct = dget pids t JNull in
        if truthy direct then Inr direct
        else case find (\<lambda>(n, _). contains (lower t) (lower n)) pids of
            Some (_, p) \<Rightarrow> Inr p
          | None \<Rightarrow> Inr direct)
    | _ \<Rightarrow> if pids = [] then Inr JNull else Inl (AttributeError ''object has no attribute lower''))"

text \<open>A sibling is known under its name and under the part of it before the host.\<close>

definition short_name :: "string \<Rightarrow> string" where
  "short_name name = hd (split_on (CHR ''@'') name)"

definition add_short :: "string \<Rightarrow> 'p \<Rightarrow> (string, 'p) dict \<Rightarrow> (string, 'p) dict" where
  "add_short name p d = (if dmem d (short_name name) then d else dset (short_name name) p d)"

definition sibling_map :: "sibling list \<Rightarrow> (string, json) dict" where
  "sibling_map ss = foldl (\<lambda>d s. add_short (sb_name s) (JInt (sb_pid s)) (dset (sb_name s) (JInt (sb_pid s)) d)) [] ss"

text \<open>\<open>{**a, **b}\<close>, and the assistant itself.\<close>

definition merge_pids :: "json \<Rightarrow> (string, json) dict \<Rightarrow> exn + (string, json) dict" where
  "merge_pids given found = (case given of
      JObj kvs \<Rightarrow> Inr (foldl (\<lambda>d (k, v). dset k v d) kvs found)
    | _ \<Rightarrow> Inl (TypeError ''object is not a mapping''))"

definition add_self :: "string \<Rightarrow> pid \<Rightarrow> (string, json) dict \<Rightarrow> (string, json) dict" where
  "add_self name p d = (if p \<noteq> 0 \<and> name \<noteq> [] then add_short name (JInt p) (dset name (JInt p) d) else d)"

section \<open>Acting on an answer\<close>

definition schedule_cron :: "env \<Rightarrow> (string \<Rightarrow> rat) \<Rightarrow> (string, json) dict \<Rightarrow> json \<Rightarrow> ('z agent_scheme, string) eff" where
  "schedule_cron env pyfloat info p = bnd get_core (\<lambda>c.
     bnd (lift_sum (to_pid pyfloat p)) (\<lambda>target_pid.
     bnd (lift_sum (result_text (dget info ''name'' (JStr ''assistant-scheduled'')))) (\<lambda>name.
     bnd (lift_sum (result_text (dget info ''cron'' (JStr ''0 * * * *'')))) (\<lambda>cron.
     bnd (lift_sum (result_text (dget info ''description'' (JStr ''Scheduled task'')))) (\<lambda>description.
     bnd (lift_sum (text_map (dget info ''params'' JNull))) (\<lambda>ps.
       add_cron env c name cron target_pid description (Some ps) ''execute''))))))"

definition handle_schedule :: "env \<Rightarrow> (string \<Rightarrow> rat) \<Rightarrow> (string, json) dict \<Rightarrow> string \<Rightarrow> ('z agent_scheme, string option) eff" where
  "handle_schedule env pyfloat pids response = (case extract_json_block response ''SCHEDULE:'' of
      Some (JObj (kv # kvs)) \<Rightarrow> (let info = kv # kvs; target = dget info ''target'' (JStr []) in
        bnd (lift_sum (find_agent target pids)) (\<lambda>p.
        if \<not> truthy p
        then ret (Some (''[Could not find agent '' @ [CHR 0x27] @ py_str target @ [CHR 0x27] @ '' to schedule]''))
        else tryc (bnd (schedule_cron env pyfloat info p) (\<lambda>cron_id.
               ret (Some (''[Scheduled: '' @ py_str (dget info ''name'' (JStr ''?'')) @ '' | cron: '' @
                 py_str (dget info ''cron'' (JStr ''?'')) @ '' | id: '' @ cron_id @ '']''))))
             (\<lambda>e. ret (Some (''[Failed to schedule: '' @ exn_str e @ '']'')))))
    | _ \<Rightarrow> ret None)"

definition handle_code_delegation :: "env \<Rightarrow> (string \<Rightarrow> rat) \<Rightarrow> (string, json) dict \<Rightarrow> string \<Rightarrow> ('z agent_scheme, string option) eff" where
  "handle_code_delegation env pyfloat pids response = (case extract_json_block response ''DELEGATE_CODE:'' of
      Some (JObj (kv # kvs)) \<Rightarrow> (let info = kv # kvs; coder_pid = dget pids ''coder'' JNull in
        if \<not> truthy coder_pid then ret (Some ''[Coder agent not available]'')
        else tryc (bnd (lift_sum (to_pid pyfloat coder_pid)) (\<lambda>p.
               bnd (lift_sum (result_text (dget info ''request'' (JStr ''Write code'')))) (\<lambda>description.
               bnd (lift_sum (text_map (JObj [(''request'', dget info ''request'' (JStr [])),
                   (''language'', dget info ''language'' (JStr ''python''))]))) (\<lambda>ps.
               bnd (sys_execute_on env p description (Some ps) 120) (\<lambda>r.
                 ret (Some (''[Code from Coder agent:]'' @ brk @ tr_output r)))))))
             (\<lambda>e. ret (Some (''[Code delegation failed: '' @ exn_str e @ '']''))))
    | _ \<Rightarrow> ret None)"

text \<open>\<open>uuid4().hex[:8]\<close>.\<close>

definition hex8 :: "string \<Rightarrow> string" where
  "hex8 u = take 8 (filter (\<lambda>c. c \<noteq> CHR ''-'') u)"

definition delegate_task :: "env \<Rightarrow> (string \<Rightarrow> rat) \<Rightarrow> string \<Rightarrow> json \<Rightarrow> json \<Rightarrow> ('z assistant_scheme, string option) eff" where
  "delegate_task env pyfloat target task p = bnd (uuid4 env) (\<lambda>u. let trace_id = ''t-'' @ hex8 u in
     bnd (lift_sum (to_pid pyfloat p)) (\<lambda>target_pid.
     bnd (send_fire_and_forget env target_pid ''task_request''
            (utf8_encode (dumps False (JObj [(''task'', task), (''trace_id'', JStr trace_id)])))) (\<lambda>request_id.
     bnd (time_time env) (\<lambda>ts.
     seq (modify (\<lambda>s. s\<lparr>active_delegations := dset request_id
            \<lparr>dl_target = target, dl_task = task, dl_ts = ts, dl_trace_id = trace_id\<rparr> (active_delegations s)\<rparr>))
       (ret (Some (''[Delegated to '' @ target @ '' -- results will appear in next message]'')))))))"

definition handle_delegation :: "env \<Rightarrow> (string \<Rightarrow> rat) \<Rightarrow> (string, json) dict \<Rightarrow> string \<Rightarrow> ('z assistant_scheme, string option) eff" where
  "handle_delegation env pyfloat pids response = (case extract_json_block response ''DELEGATE:'' of
      Some (JObj (kv # kvs)) \<Rightarrow> (let info = kv # kvs; target = dget info ''to'' (JStr []); task = dget info ''task'' (JStr []) in
        if \<not> truthy target \<or> \<not> truthy task then ret None
        else bnd (lift_sum (find_agent target pids)) (\<lambda>p.
          if \<not> truthy p
          then ret (Some (''[Could not find agent '' @ [CHR 0x27] @ py_str target @ [CHR 0x27] @ '' for delegation]''))
          else bnd (lift_sum (slice_text 80 task)) (\<lambda>preview.
            seq (sys_log env ''info'' (''Delegating (async) to '' @ py_str target @ '' (PID '' @ py_str p @ ''): '' @ preview) [])
            (tryc (delegate_task env pyfloat (py_str target) task p)
              (\<lambda>e. ret (Some (''[Delegation to '' @ py_str target @ '' failed: '' @ exn_str e @ '']'')))))))
    | _ \<Rightarrow> ret None)"

section \<open>Messages\<close>

definition announce_result :: "env \<Rightarrow> core_client \<Rightarrow> delegation \<Rightarrow> bytes \<Rightarrow> ('z agent_scheme, unit) eff" where
  "announce_result env c d payload = tryc (let text = utf8_decode_replace payload in
     bnd (case loads text of None \<Rightarrow> ret (JStr text) | Some j \<Rightarrow> lift_sum (get_key ''output'' (JStr text) j)) (\<lambda>output.
     bnd (case dl_task d of JStr t \<Rightarrow> ret t | _ \<Rightarrow> throw (AttributeError ''object has no attribute lower'')) (\<lambda>task.
     seq (store_artifact env c (''assistant/delegation-result/'' @ take 40 (replace_all '' '' ''-'' (lower task)))
            payload ''application/json'' 3)
     (bnd (lift_sum (slice_text 500 output)) (\<lambda>preview.
        core_log env c ''info'' (''Delegation result from '' @ dl_target d @ '': '' @ preview) [])))))
     (\<lambda>_. ret ())"

definition assistant_on_message :: "env \<Rightarrow> (message \<Rightarrow> ('z assistant_scheme, message_ack) eff) \<Rightarrow> message \<Rightarrow>
    ('z assistant_scheme, message_ack) eff" where
  "assistant_on_message env handle m = bnd (gets active_delegations) (\<lambda>ds.
     let is_delegation = ms_type m = ''task_response'' \<and> ms_reply_to m \<noteq> [] \<and> dmem ds (ms_reply_to m) in
     bnd (on_message handle m) (\<lambda>ack. bnd (gets a_core) (\<lambda>core. bnd (gets active_delegations) (\<lambda>ds'.
     seq (case (is_delegation, core, map_of ds' (ms_reply_to m)) of
            (True, Some c, Some d) \<Rightarrow> announce_result env c d (ms_payload m)
          | _ \<Rightarrow> ret ())
       (ret ack)))))"

text \<open>The acknowledgement, and whether a task is started for the message.\<close>

definition assistant_handle_message :: "message \<Rightarrow> message_ack \<times> bool" where
  "assistant_handle_message m = (if ms_type m = ''task_request'' \<or> ms_type m = ''cron_task''
     then (MessageAck ACK_QUEUED, True) else (MessageAck ACK_ACCEPTED, False))"

definition log_ipc_result :: "env \<Rightarrow> json \<Rightarrow> ('z agent_scheme, unit) eff" where
  "log_ipc_result env response = bnd (gets a_core) (\<lambda>core. case core of
      None \<Rightarrow> ret ()
    | Some c \<Rightarrow> bnd (lift_sum (slice_text 200 response)) (\<lambda>preview.
        core_log env c ''info'' (''IPC task result: '' @ preview) []))"

definition answer_ipc :: "env \<Rightarrow> message \<Rightarrow> ('z llm_agent_scheme, unit) eff" where
  "answer_ipc env m =
     bnd (of_opt (UnicodeDecodeError ''invalid start byte'') (utf8_decode (ms_payload m))) (\<lambda>text.
     bnd (of_opt (JSONDecodeError ''Expecting value'') (loads text)) (\<lambda>payload.
     bnd (lift_sum (get_key ''description'' (JStr []) payload)) (\<lambda>d0.
     bnd (lift_sum (get_key ''task'' d0 payload)) (\<lambda>description.
     if \<not> truthy description
     then reply_to env m (utf8_encode (dumps True (JObj [(''error'', JStr ''empty task'')]))) ''task_response''
     else seq (lift_sum (slice_text 80 description)) (bnd (gets system_prompt) (\<lambda>sys.
       bnd (chat env [JObj [(''role'', JStr ''user''), (''content'', description)]] [] sys 1024 ''0.7'') (\<lambda>response.
       seq (log_ipc_result env response)
         (reply_to env m (utf8_encode (dumps False (JObj [(''output'', response)]))) ''task_response''))))))))"

definition process_ipc_task :: "env \<Rightarrow> message \<Rightarrow> ('z llm_agent_scheme, unit) eff" where
  "process_ipc_task env m = tryc (answer_ipc env m)
     (\<lambda>e. tryc (reply_to env m (utf8_encode (dumps True (JObj [(''error'', JStr (exn_str e))]))) ''task_response'') (\<lambda>_. ret ()))"

section \<open>Tasks\<close>

definition loads_or :: "json \<Rightarrow> string \<Rightarrow> json" where
  "loads_or d raw = (if raw = [] then d else case loads raw of None \<Rightarrow> d | Some j \<Rightarrow> j)"

definition result_output :: "bytes \<Rightarrow> exn + json" where
  "result_output b = (case utf8_decode b of
      None \<Rightarrow> Inr (JStr (utf8_decode_replace b))
    | Some t \<Rightarrow> (case loads t of
        None \<Rightarrow> Inr (JStr (utf8_decode_replace b))
      | Some (JObj kvs) \<Rightarrow> Inr (dget kvs ''output'' (dget kvs ''error'' (JStr ''No output'')))
      | Some _ \<Rightarrow> Inl (AttributeError ''object has no attribute get'')))"

definition show_result :: "message \<Rightarrow> ('z assistant_scheme, string) eff" where
  "show_result m = bnd (gets (\<lambda>s. map_of (active_delegations s) (ms_reply_to m))) (\<lambda>d.
     seq (modify (\<lambda>s. s\<lparr>active_delegations := ddel (ms_reply_to m) (active_delegations s)\<rparr>))
     (bnd (lift_sum (result_output (ms_payload m))) (\<lambda>out.
       ret (''[Completed result from '' @ (case d of None \<Rightarrow> ''unknown'' | Some dl \<Rightarrow> dl_target dl) @ '':]'' @ brk @ py_str out))))"

definition is_stale :: "rat \<Rightarrow> delegation \<Rightarrow> bool" where
  "is_stale now d \<longleftrightarrow> now - dl_ts d > DELEGATION_TIMEOUT"

definition show_stale :: "string \<times> delegation \<Rightarrow> ('z assistant_scheme, string) eff" where
  "show_stale rd = (case rd of (rid, d) \<Rightarrow>
     seq (modify (\<lambda>s. s\<lparr>active_delegations := ddel rid (active_delegations s)\<rparr>))
     (bnd (lift_sum (slice_text 80 (dl_task d))) (\<lambda>preview.
       ret (''[Delegation to '' @ dl_target d @ '' timed out after 600s (task: '' @ preview @ '')]''))))"

text \<open>The mailbox and the stale delegations, as the text that goes before the answer; and the time.\<close>

definition collect_results :: "env \<Rightarrow> ('z assistant_scheme, string \<times> rat) eff" where
  "collect_results env = bnd drain_pending_results (\<lambda>rs. bnd (mapeff show_result rs) (\<lambda>completed.
     bnd (time_time env) (\<lambda>now. bnd (gets (\<lambda>s. filter (\<lambda>(_, d). is_stale now d) (active_delegations s))) (\<lambda>stale.
     bnd (mapeff show_stale stale) (\<lambda>expired. let parts = completed @ expired in
       ret (if parts = [] then [] else join (brk @ brk) parts @ brk @ brk @ ''---'' @ brk @ brk, now))))))"

text \<open>The siblings; an exception of the log call does not undo what was found.\<close>

definition discover :: "env \<Rightarrow> ('z world_scheme, sibling list) eff" where
  "discover env = bnd (tryc (bnd (sys_list_siblings env) (\<lambda>ss. ret (Some ss))) (\<lambda>_. ret None)) (\<lambda>found. case found of
      None \<Rightarrow> ret []
    | Some ss \<Rightarrow> seq (tryc (sys_log env ''info'' (''Discovered '' @ str_nat (length ss) @ '' siblings: '' @
            py_str (JList (map (JStr \<circ> sb_name) ss))) []) (\<lambda>_. ret ())) (ret ss))"

definition sibling_context :: "sibling list \<Rightarrow> string" where
  "sibling_context ss = (if ss = [] then [] else join brk (''Available sibling agents:'' #
     map (\<lambda>s. ''  - '' @ sb_name s @ '' (PID '' @ str_int (sb_pid s) @ '', role='' @ sb_role s @ '', state='' @ sb_state s @ '')'') ss)
     @ brk @ brk)"

text \<open>\<open>history[-10:]\<close>: the entries with a role and a content; a text has none.\<close>

definition history_messages :: "json \<Rightarrow> exn + json list" where
  "history_messages h = (case h of
      JList xs \<Rightarrow> Inr (concat (map (\<lambda>x. case x of
          JObj kvs \<Rightarrow> (case (map_of kvs ''role'', map_of kvs ''content'') of
              (Some r, Some c) \<Rightarrow> [JObj [(''role'', r), (''content'', c)]]
            | _ \<Rightarrow> [])
        | _ \<Rightarrow> []) (last_n 10 xs)))
    | JStr _ \<Rightarrow> Inr []
    | _ \<Rightarrow> Inl (TypeError ''object is not subscriptable''))"

definition chat_messages :: "sibling list \<Rightarrow> json list \<Rightarrow> string \<Rightarrow> json list" where
  "chat_messages ss hist message =
     [JObj [(''role'', JStr ''system''), (''content'', JStr (SYSTEM_PROMPT @
        (if sibling_context ss = [] then [] else brk @ brk @ sibling_context ss)))]] @ hist @
     [JObj [(''role'', JStr ''user''), (''content'', JStr message)]]"

definition in_flight :: "rat \<Rightarrow> (string, delegation) dict \<Rightarrow> exn + string" where
  "in_flight now ds = (if ds = [] then Inr [] else
     case those (map (\<lambda>(_, d). case slice_text 60 (dl_task d) of
        Inl _ \<Rightarrow> None
      | Inr t \<Rightarrow> Some (''  - '' @ dl_target d @ '': '' @ t @ '' ('' @ str_int (trunc (now - dl_ts d)) @ ''s ago)'')) ds) of
       None \<Rightarrow> Inl (TypeError ''object is not subscriptable'')
     | Some ls \<Rightarrow> Inr (join brk ((brk @ brk @ ''[In-flight delegations:]'') # ls)))"

definition extra_of :: "string option list \<Rightarrow> string" where
  "extra_of rs = concat (map (\<lambda>r. case r of Some t \<Rightarrow> if t = [] then [] else brk @ brk @ t | None \<Rightarrow> []) rs)"

definition finish_answer :: "env \<Rightarrow> (string \<Rightarrow> rat) \<Rightarrow> (string, json) dict \<Rightarrow> rat \<Rightarrow> string \<Rightarrow> string \<Rightarrow> ('z assistant_scheme, task_result) eff" where
  "finish_answer env pyfloat pids now prefix response =
     bnd (handle_schedule env pyfloat pids response) (\<lambda>r1.
     bnd (handle_code_delegation env pyfloat pids response) (\<lambda>r2.
     bnd (handle_delegation env pyfloat pids response) (\<lambda>r3.
     bnd (gets active_delegations) (\<lambda>ds. bnd (lift_sum (in_flight now ds)) (\<lambda>suffix.
     let text = prefix @ strip (clean_response response) @ extra_of [r1, r2, r3] @ suffix in
     seq (sys_log env ''info'' (''Assistant responded ('' @ str_nat (length text) @ '' chars)'') [])
       (ret (TaskResult 0 text [] [])))))))"

definition ask_assistant :: "env \<Rightarrow> string \<Rightarrow> json \<Rightarrow> json \<Rightarrow> ('z assistant_scheme, (string, json) dict \<times> (exn + json)) eff" where
  "ask_assistant env message given history =
     bnd (discover env) (\<lambda>ss. bnd (lift_sum (merge_pids given (sibling_map ss))) (\<lambda>merged.
     bnd (gets (\<lambda>s. add_self (ac_name (a_config s)) (a_pid s) merged)) (\<lambda>pids.
     bnd (lift_sum (history_messages history)) (\<lambda>hist.
     bnd (tryc (bnd (agent_chat env (chat_messages ss hist message) [] 1024 ''0.7'') (\<lambda>r. ret (Inr r))) (\<lambda>e. ret (Inl e)))
       (\<lambda>answer. ret (pids, answer))))))"

definition answer_task :: "env \<Rightarrow> (string \<Rightarrow> rat) \<Rightarrow> task \<Rightarrow> string \<Rightarrow> rat \<Rightarrow> ('z assistant_scheme, task_result) eff" where
  "answer_task env pyfloat task prefix now =
     (let message = dget (tk_params task) ''message'' (tk_description task);
          history = loads_or (JList []) (dget (tk_params task) ''history'' ''[]'');
          given = loads_or (JObj []) (dget (tk_params task) ''sibling_pids'' ''{}'') in
      if strip message = []
      then ret (TaskResult 0 (prefix @ ''Hello! I'' @ [CHR 0x27] @ ''m the HiveKernel Assistant. How can I help?'') [] [])
      else seq (sys_log env ''info'' (''Assistant received: '' @ take 80 message) [])
       (bnd (ask_assistant env message given history) (\<lambda>(pids, answer). case answer of
           Inl e \<Rightarrow> ret (TaskResult 1 (''LLM error: '' @ exn_str e) [] [])
         | Inr (JStr response) \<Rightarrow> finish_answer env pyfloat pids now prefix response
         | Inr _ \<Rightarrow> throw (TypeError ''argument is not iterable''))))"

definition assistant_handle_task :: "env \<Rightarrow> (string \<Rightarrow> rat) \<Rightarrow> task \<Rightarrow> ('z assistant_scheme, task_result) eff" where
  "assistant_handle_task env pyfloat task =
     bnd (collect_results env) (\<lambda>(prefix, now). answer_task env pyfloat task prefix now)"

section \<open>Blocks are found\<close>

text \<open>A text that the brace scan passes over without ending or changing its depth.\<close>

definition balanced :: "string \<Rightarrow> bool" where
  "balanced s \<longleftrightarrow> (\<forall>d r. d \<ge> 1 \<longrightarrow> block_end d (s @ r) = map_option (\<lambda>n. length s + n) (block_end d r))"

lemma balanced_Nil [simp]: "balanced []"
  by (simp add: balanced_def option.map_ident)

lemma balanced_append [intro]: "balanced a \<Longrightarrow> balanced b \<Longrightarrow> balanced (a @ b)"
  by (auto simp: balanced_def option.map_comp comp_def add.assoc)

definition no_brace :: "string \<Rightarrow> bool" where
  "no_brace s \<longleftrightarrow> CHR ''{'' \<notin> set s \<and> CHR ''}'' \<notin> set s"

lemma balanced_plain: "no_brace s \<Longrightarrow> balanced s"
proof (induction s)
  case (Cons c s)
  then have "balanced s" "c \<noteq> CHR ''{''" "c \<noteq> CHR ''}''" by (auto simp: no_brace_def)
  then show ?case by (auto simp: balanced_def option.map_comp comp_def)
qed simp

lemma balanced_braces: "balanced s \<Longrightarrow> balanced (''{'' @ s @ ''}'')"
  by (auto simp: balanced_def option.map_comp comp_def)

lemma block_end_braces: "balanced s \<Longrightarrow> block_end 0 (''{'' @ s @ ''}'' @ r) = Some (length s + 2)"
  by (auto simp: balanced_def)

lemma balanced_join: "balanced sep \<Longrightarrow> (\<And>x. x \<in> set xs \<Longrightarrow> balanced x) \<Longrightarrow> balanced (join sep xs)"
  by (induction sep xs rule: join.induct) auto

text \<open>JSON values without braces in their texts.\<close>

fun brace_free :: "json \<Rightarrow> bool" where
  "brace_free (JStr s) = no_brace s"
| "brace_free (JFloat t) = no_brace t"
| "brace_free (JList xs) = (\<forall>x \<in> set xs. brace_free x)"
| "brace_free (JObj kvs) = (\<forall>p \<in> set kvs. no_brace (fst p) \<and> brace_free (snd p))"
| "brace_free _ = True"

lemma no_brace_append [simp]: "no_brace (a @ b) \<longleftrightarrow> no_brace a \<and> no_brace b"
  by (auto simp: no_brace_def)

lemma hex_digit_no_brace: "n < 16 \<Longrightarrow> hex_digit n \<noteq> CHR ''{'' \<and> hex_digit n \<noteq> CHR ''}''"
proof -
  assume n: "n < 16"
  then have "of_char (hex_digit n) = (if n < 10 then 48 + n else 87 + n)" by (simp add: hex_digit_def)
  then have "of_char (hex_digit n) < (123 :: nat)" using n by (simp split: if_splits)
  then show ?thesis by auto
qed

lemma no_brace_json_quote: "no_brace s \<Longrightarrow> no_brace (json_quote ea s)"
proof -
  assume "no_brace s"
  have "no_brace (u_escape c)" for c
  proof -
    have "(of_char c :: nat) div 16 < 16" by (rule less_mult_imp_div_less) simp
    then show ?thesis using hex_digit_no_brace[of "of_char c div 16"] hex_digit_no_brace[of "of_char c mod 16"]
      by (auto simp: no_brace_def u_escape_def Let_def)
  qed
  then have "no_brace (json_char ea c)" if "c \<in> set s" for c
    using that \<open>no_brace s\<close> by (auto simp: json_char_def no_brace_def)
  then show ?thesis by (auto simp: json_quote_def no_brace_def)
qed

lemma no_brace_str_int: "no_brace (str_int i)"
  using str_nat_digits[of "nat i"] str_nat_digits[of "nat (- i)"]
  by (auto simp: no_brace_def str_int_def is_digit_def)

lemma balanced_dumps: "brace_free j \<Longrightarrow> balanced (dumps ea j)"
proof (induction j rule: brace_free.induct)
  case (3 xs)
  then have "balanced (join '', '' (map (dumps ea) xs))"
    by (intro balanced_join) (auto intro: balanced_plain simp: no_brace_def)
  then have "balanced (''['' @ join '', '' (map (dumps ea) xs) @ '']'')"
    using balanced_plain[of "''[''"] balanced_plain[of "'']''"] by (intro balanced_append) (auto simp: no_brace_def)
  then show ?case by simp
next
  case (4 kvs)
  then have "balanced (join '', '' (map (\<lambda>(k, v). json_quote ea k @ '': '' @ dumps ea v) kvs))"
    using balanced_plain[of "'': ''"] balanced_plain[of "'', ''"]
    by (intro balanced_join) (auto intro!: balanced_append[of "json_quote _ _"] balanced_append[of "'': ''", simplified]
      balanced_plain[OF no_brace_json_quote] simp: no_brace_def[of "'': ''"] no_brace_def[of "'', ''"])
  then show ?case using balanced_braces by simp
qed (auto intro!: balanced_plain simp: no_brace_json_quote no_brace_str_int, auto simp: no_brace_def)

lemma find_sub_first:
  "m \<noteq> [] \<Longrightarrow> \<not> contains m (pre @ butlast m) \<Longrightarrow> find_sub m (pre @ m @ r) = Some (length pre)"
proof (induction pre)
  case Nil
  then obtain c t where "m = c # t" by (cases m) auto
  then show ?case using startswith_append[of m r] by simp
next
  case (Cons c pre)
  have "\<not> startswith ((c # pre) @ m @ r) m"
  proof
    assume "startswith ((c # pre) @ m @ r) m"
    then obtain u where u: "(c # pre) @ m @ r = m @ u" by (auto simp: startswith_iff)
    have "length m \<le> length ((c # pre) @ butlast m)" using Cons.prems(1) by simp
    moreover have "(c # pre) @ m @ r = ((c # pre) @ butlast m) @ last m # r"
      using Cons.prems(1) by simp
    ultimately have "take (length m) ((c # pre) @ butlast m) = m" using u
      by (metis append_eq_conv_conj take_append diff_is_0_eq take_0 append_Nil2)
    then have "contains m ((c # pre) @ butlast m)"
      unfolding contains_iff by (metis append_Nil append_take_drop_id)
    then show False using Cons.prems(2) by simp
  qed
  moreover have "\<not> contains m (pre @ butlast m)" using Cons.prems(2) by (auto simp: contains_def split: if_splits)
  ultimately show ?case using Cons by simp
qed

lemma find_brace: "CHR ''{'' \<notin> set gap \<Longrightarrow> find_sub ''{'' (gap @ CHR ''{'' # s) = Some (length gap)"
  by (induction gap) auto

lemma block_span_found:
  assumes "m \<noteq> []" "\<not> contains m (pre @ butlast m)" "CHR ''{'' \<notin> set gap" "brace_free (JObj kvs)"
  shows "block_span (pre @ m @ gap @ dumps ea (JObj kvs) @ post) m =
    Some (length pre + length m + length gap, length pre + length m + length gap + length (dumps ea (JObj kvs)))"
proof -
  let ?s = "join '', '' (map (\<lambda>(k, v). json_quote ea k @ '': '' @ dumps ea v) kvs)"
  have "balanced ?s"
    using balanced_plain[of "'': ''"] balanced_plain[of "'', ''"] balanced_dumps assms(4)
    by (intro balanced_join) (auto intro!: balanced_append[of "json_quote _ _"] balanced_append[of "'': ''", simplified]
      balanced_plain[OF no_brace_json_quote] simp: no_brace_def[of "'': ''"] no_brace_def[of "'', ''"])
  from block_end_braces[OF this, of post] have "block_end 0 (dumps ea (JObj kvs) @ post) = Some (length (dumps ea (JObj kvs)))"
    by simp
  moreover have "find_sub ''{'' (gap @ dumps ea (JObj kvs) @ post) = Some (length gap)"
    using find_brace[OF assms(3)] by simp
  ultimately show ?thesis using find_sub_first[OF assms(1,2)]
    by (simp add: block_span_def Let_def add.assoc del: dumps.simps)
qed

lemma extract_found:
  assumes "m \<noteq> []" "\<not> contains m (pre @ butlast m)" "CHR ''{'' \<notin> set gap"
    "wf_json (JObj kvs)" "brace_free (JObj kvs)"
  shows "extract_json_block (pre @ m @ gap @ dumps ea (JObj kvs) @ post) m = Some (JObj kvs)"
  using loads_dumps[OF assms(4)]
  by (simp add: extract_json_block_def block_span_found[OF assms(1,2,3,5)] del: dumps.simps)

text \<open>
  C30.  What the LLM puts into a block is what the Assistant reads: when an answer has a marker
  followed by a JSON object whose texts have no braces, the object is extracted exactly, and
  the answer shown to the user is the text without the marker and the block.
\<close>

theorem block_round_trip:
  assumes "m \<noteq> []" "\<not> contains m (pre @ butlast m)" "CHR ''{'' \<notin> set gap"
    "wf_json (JObj kvs)" "brace_free (JObj kvs)"
  shows "extract_json_block (pre @ m @ gap @ dumps ea (JObj kvs) @ post) m = Some (JObj kvs) \<and>
    remove_block m (pre @ m @ gap @ dumps ea (JObj kvs) @ post) = pre @ post"
  using extract_found[OF assms] find_sub_first[OF assms(1,2)]
  by (simp add: remove_block_def block_span_found[OF assms(1,2,3,5)] del: dumps.simps)

theorem block_round_trip_witness:
  "extract_json_block (''ok '' @ ''DELEGATE:'' @ '' '' @ dumps True (JObj [(''to'', JStr ''queen'')]) @ ''!'') ''DELEGATE:'' =
     Some (JObj [(''to'', JStr ''queen'')])"
proof -
  have "\<not> contains ''DELEGATE:'' (''ok '' @ butlast ''DELEGATE:'')" by (simp add: contains_def)
  then show ?thesis
    using block_round_trip[of "''DELEGATE:''" "''ok ''" "'' ''" "[(''to'', JStr ''queen'')]" True "''!''"]
    by (simp add: dict_ok_def no_brace_def del: dumps.simps)
qed

section \<open>Messages are answered\<close>

definition is_reply :: "message \<Rightarrow> send_request \<Rightarrow> bool" where
  "is_reply m q \<longleftrightarrow> mq_to_pid q = ms_from_pid m \<and> mq_type q = ''task_response'' \<and> mq_reply_to q = ms_message_id m"

lemma llm_free_core: "llm_free a_core" "traceless a_core"
  by (simp_all add: llm_free_def traceless_def ignores_def emit_def)

lemma keeps_reply_core: "keeps a_core (reply_to env m b ty)"
  unfolding reply_to_def send_message_def by (intro keeps_rules llm_free_core)

lemma wp_reply:
  assumes "a_core s = Some c"
  shows "wp (reply_to env m b ''task_response'') (\<lambda>_ t. \<exists>q. is_reply m q \<and> sent t = sent s @ [q])
     (\<lambda>_ t. \<exists>q. is_reply m q \<and> sent t = sent s @ [q]) s"
proof -
  have "wp (send_message env c (ms_from_pid m) [] ''task_response'' b ''normal'' False 0 (ms_message_id m))
     (\<lambda>_ t. \<exists>q. is_reply m q \<and> sent t = sent s @ [q]) (\<lambda>_ t. \<exists>q. is_reply m q \<and> sent t = sent s @ [q]) s"
    by (rule wp_mono[OF wp_send_message]) (auto simp: is_reply_def)
  with assms show ?thesis by (simp add: reply_to_def wp_simps)
qed

text \<open>What comes before the reply neither sends nor loses the connection.\<close>

definition link :: "'z agent_scheme \<Rightarrow> send_request list \<times> core_client option" where
  "link s = (sent s, a_core s)"

lemma llm_free_link: "llm_free link"
  using llm_free_sent llm_free_core(1) by (auto simp: llm_free_def link_def ignores_def)

lemma keeps_link:
  "keeps link (chat env msgs mo sys mt te)" "keeps link (core_log env c l x f)" "keeps link (log_ipc_result env r)"
proof -
  show "keeps link (chat env msgs mo sys mt te)" by (intro keeps_rules llm_free_link)
  show log: "keeps link (core_log env c l x f)" for c l x f
    unfolding core_log_def by (intro keeps_ignored) (simp add: ignores_def link_def rpc_def emit_def sent_def)
  show "keeps link (log_ipc_result env r)"
    unfolding log_ipc_result_def by (intro keeps_rules log)
qed

lemma wp_answer_ipc:
  assumes "a_core s = Some c"
  shows "wp (answer_ipc env m) (\<lambda>_ t. \<exists>q. is_reply m q \<and> sent t = sent s @ [q])
     (\<lambda>_ t. a_core t = Some c \<and> (sent t = sent s \<or> (\<exists>q. is_reply m q \<and> sent t = sent s @ [q]))) s"
proof -
  let ?Q = "\<lambda>_ t. \<exists>q. is_reply m q \<and> sent t = sent s @ [q]"
  let ?E = "\<lambda>_ t. a_core t = Some c \<and> (sent t = sent s \<or> (\<exists>q. is_reply m q \<and> sent t = sent s @ [q]))"
  have reply: "wp (reply_to env m b ''task_response'') ?Q ?E t" if "link t = link s" for b and t :: "'a llm_agent_scheme"
    by (rule wp_mono[OF wp_and_keeps[OF keeps_reply_core wp_reply[of t c]]])
      (use that assms in \<open>auto simp: link_def\<close>)
  have err: "?E e t" if "link t = link s" for e and t :: "'a llm_agent_scheme"
    using that assms by (simp add: link_def)
  show ?thesis unfolding answer_ipc_def wp_bnd wp_of_opt wp_lift_sum wp_seq wp_if wp_gets
    using assms by (auto split: option.splits sum.splits intro!: reply err wp_keeps[OF keeps_link(1)] wp_keeps[OF keeps_link(3)]
        simp del: dumps.simps)
qed

text \<open>
  The Assistant answers every IPC task: processing a message never raises, and whatever
  the payload is and whatever the LLM and the kernel answer, it sends one or two messages,
  all of them \<open>task_response\<close>s to the sender under the id of its message.
\<close>

theorem assistant_always_replies:
  assumes "a_core s = Some c"
  shows "result (process_ipc_task env m) s = Inr () \<and>
    (\<exists>qs. sent (final (process_ipc_task env m) s) = sent s @ qs \<and> list_all (is_reply m) qs \<and>
       1 \<le> length qs \<and> length qs \<le> 2)"
proof -
  have "wp (process_ipc_task env m) (\<lambda>_ t. \<exists>qs. sent t = sent s @ qs \<and> list_all (is_reply m) qs \<and>
       1 \<le> length qs \<and> length qs \<le> 2) (\<lambda>_ _. False) s" (is "wp _ ?Q _ s")
    unfolding process_ipc_task_def wp_tryc wp_ret
  proof (rule wp_mono[OF wp_answer_ipc[OF assms]])
    fix e and t :: "'a llm_agent_scheme"
    assume t: "a_core t = Some c \<and> (sent t = sent s \<or> (\<exists>q. is_reply m q \<and> sent t = sent s @ [q]))"
    show "wp (reply_to env m (utf8_encode (dumps True (JObj [(''error'', JStr (exn_str e))]))) ''task_response'') ?Q (\<lambda>_. ?Q ()) t"
      by (rule wp_mono[OF wp_reply[of t c]]) (use t in \<open>auto intro: exI[of _ "[_]"] exI[of _ "[_, _]"]\<close>)
  qed (auto intro: exI[of _ "[_]"])
  then show ?thesis by (auto simp: wp_def result_def final_def split: prod.splits sum.splits)
qed

theorem assistant_always_replies_witness:
  "result (process_ipc_task example_env (example_message ''task_request'' [])) example_llm_agent = Inr () \<and>
   sent (final (process_ipc_task example_env (example_message ''task_request'' [])) example_llm_agent) \<noteq> []"
  using assistant_always_replies[of example_llm_agent "CoreClient 2" example_env "example_message ''task_request'' []"]
  by (auto simp: example_llm_agent_def)

section \<open>Delegations\<close>

lemma assistant_emit [simp]: "active_delegations (emit c s) = active_delegations s"
  by (simp add: emit_def)

lemma sent_update [simp]: "sent (s\<lparr>active_delegations := ds\<rparr>) = sent s"
  by (simp add: sent_def)

lemma wp_send_fire:
  fixes s :: "'z assistant_scheme"
  shows "wp (send_fire_and_forget env p ty b)
     (\<lambda>rid t. active_delegations t = active_delegations s \<and>
        (\<exists>q. sent t = sent s @ [q] \<and> mq_reply_to q = rid \<and> mq_type q = ty \<and> mq_to_pid q = p))
     (\<lambda>_ t. active_delegations t = active_delegations s) s"
  by (auto simp: send_fire_and_forget_def sys_send_def do_syscall_def send_req_def wp_simps split: sum.splits)

text \<open>
  A delegation is tracked exactly when it was sent: the attempt either records the
  delegation under the very request id it put into the message, so that the answer will be
  recognised, or it raises and records nothing.
\<close>

theorem delegation_tracked_when_sent:
  "case result (delegate_task env pyfloat target task p) s of
     Inl e \<Rightarrow> active_delegations (final (delegate_task env pyfloat target task p) s) = active_delegations s
   | Inr _ \<Rightarrow> \<exists>rid d q. active_delegations (final (delegate_task env pyfloat target task p) s) = dset rid d (active_delegations s) \<and>
       dl_target d = target \<and> dl_task d = task \<and>
       sent (final (delegate_task env pyfloat target task p) s) = sent s @ [q] \<and>
       mq_reply_to q = rid \<and> mq_type q = ''task_request'' \<and> to_pid pyfloat p = Inr (mq_to_pid q)"
proof -
  have "wp (delegate_task env pyfloat target task p) (\<lambda>_ t. \<exists>rid d q. active_delegations t = dset rid d (active_delegations s) \<and>
       dl_target d = target \<and> dl_task d = task \<and> sent t = sent s @ [q] \<and>
       mq_reply_to q = rid \<and> mq_type q = ''task_request'' \<and> to_pid pyfloat p = Inr (mq_to_pid q))
     (\<lambda>_ t. active_delegations t = active_delegations s) s"
  proof (cases "to_pid pyfloat p")
    case (Inr n)
    show ?thesis
      unfolding delegate_task_def Let_def wp_bnd wp_uuid4 wp_lift_sum Inr sum.case
    proof (rule wp_mono[OF wp_send_fire], goal_cases)
      case (1 rid t)
      then obtain q where "sent t = sent s @ [q]" "mq_reply_to q = rid" "mq_type q = ''task_request''" "mq_to_pid q = n"
        by auto
      with 1 show ?case
        by (simp add: wp_simps) (rule exI[of _ "\<lparr>dl_target = target, dl_task = task,
            dl_ts = e_time env (trace t @ [Clock]), dl_trace_id = ''t-'' @ hex8 (e_uuid env (trace s @ [Uuid]))\<rparr>"], simp)
    qed simp
  qed (simp add: delegate_task_def Let_def wp_simps)
  then show ?thesis by (auto simp: wp_def result_def final_def split: prod.splits sum.splits)
qed

section \<open>Results are shown\<close>

definition completed_text :: "(string, delegation) dict \<Rightarrow> message \<Rightarrow> json \<Rightarrow> string" where
  "completed_text ds m out = ''[Completed result from '' @
     (case map_of ds (ms_reply_to m) of None \<Rightarrow> ''unknown'' | Some d \<Rightarrow> dl_target d) @ '':]'' @ brk @ py_str out"

lemma wp_show_result:
  "wp (show_result m) Q E s = (let t = s\<lparr>active_delegations := ddel (ms_reply_to m) (active_delegations s)\<rparr> in
     case result_output (ms_payload m) of Inl e \<Rightarrow> E e t | Inr out \<Rightarrow> Q (completed_text (active_delegations s) m out) t)"
  by (simp add: show_result_def wp_simps completed_text_def split: sum.split)

lemma wp_show_results:
  "distinct (map ms_reply_to rs) \<Longrightarrow> wp (mapeff show_result rs)
     (\<lambda>ps _. list_all2 (\<lambda>p m. \<exists>out. result_output (ms_payload m) = Inr out \<and> p = completed_text (active_delegations s) m out) ps rs)
     (\<lambda>_ _. True) s"
proof (induction rs arbitrary: s)
  case Nil
  then show ?case by (simp add: wp_ret)
next
  case (Cons m rs)
  let ?t = "s\<lparr>active_delegations := ddel (ms_reply_to m) (active_delegations s)\<rparr>"
  have same: "completed_text (active_delegations ?t) m' out = completed_text (active_delegations s) m' out"
    if "m' \<in> set rs" for m' out
  proof -
    have "ms_reply_to m' \<noteq> ms_reply_to m" using that Cons.prems by (auto simp: rev_image_eqI)
    then show ?thesis by (simp add: completed_text_def)
  qed
  have "wp (mapeff show_result rs) (\<lambda>ps _. list_all2 (\<lambda>p m. \<exists>out. result_output (ms_payload m) = Inr out \<and>
      p = completed_text (active_delegations s) m out) ps rs) (\<lambda>_ _. True) ?t"
    by (rule wp_mono[OF Cons.IH[of ?t]]) (use Cons.prems same in \<open>auto elim!: list.rel_mono_strong\<close>)
  then show ?case unfolding mapeff.simps wp_bnd wp_show_result Let_def
    by (auto simp: wp_ret split: sum.split elim!: wp_mono)
qed

lemma keeps_pending_results:
  "keeps pending_results (mapeff show_result rs)" "keeps pending_results (mapeff show_stale ds)"
  unfolding show_result_def show_stale_def
  by (intro keeps_rules keeps_modify; simp split: prod.split; intro keeps_rules keeps_modify; simp)+

text \<open>What is collected from the mailbox goes into the text before the answer, and the mailbox is empty.\<close>

lemma wp_collect_results:
  assumes "distinct (map ms_reply_to (pending_results s))" "m \<in> set (pending_results s)"
    "result_output (ms_payload m) = Inr out"
  shows "wp (collect_results env) (\<lambda>(prefix, _) _. contains (completed_text (active_delegations s) m out) prefix) (\<lambda>_ _. True) s"
proof -
  let ?s = "s\<lparr>pending_results := []\<rparr>"
  have "wp (mapeff show_result (pending_results s))
     (\<lambda>ps _. completed_text (active_delegations s) m out \<in> set ps) (\<lambda>_ _. True) ?s"
    using assms by (intro wp_mono[OF wp_show_results]) (auto simp: list_all2_conv_all_nth in_set_conv_nth, metis Inr_inject)
  then show ?thesis unfolding collect_results_def drain_pending_results_def wp_simps
    by (rule wp_mono) (auto simp: wp_simps Let_def intro!: wp_skip contains_append(1) in_join)
qed

text \<open>The parts of a task after the collection keep the empty mailbox, and the text goes first.\<close>

lemma keeps_mailbox_calls:
  "keeps pending_results (sys_log env l x f)" "keeps pending_results (sys_list_siblings env)"
  "keeps pending_results (sys_execute_on env p d ps tmo)" "keeps pending_results (add_cron env c n e p d ps' a)"
  "keeps pending_results (send_fire_and_forget env p ty b)" "keeps pending_results (time_time env)"
  "keeps pending_results (uuid4 env)" "keeps pending_results get_core"
  unfolding sys_log_def sys_list_siblings_def sys_execute_on_def add_cron_def send_fire_and_forget_def sys_send_def
    do_syscall_def get_core_def
  by (intro keeps_rules; simp add: traceless_def emit_def)+

lemma keeps_block:
  "(\<And>kv kvs. keeps f (g kv kvs)) \<Longrightarrow> keeps f (case x of Some (JObj (kv # kvs)) \<Rightarrow> g kv kvs | _ \<Rightarrow> ret None)"
  by (simp add: keeps_ret split: option.split json.split list.split)

lemma llm_free_mailbox: "llm_free pending_results"
  by (simp add: llm_free_def ignores_def emit_def)

lemma keeps_mailbox:
  "keeps pending_results (handle_schedule env pyfloat pids resp)"
  "keeps pending_results (handle_code_delegation env pyfloat pids resp)"
  "keeps pending_results (handle_delegation env pyfloat pids resp)"
  "keeps pending_results (discover env)" "keeps pending_results (agent_chat env msgs mo mt te)"
  unfolding handle_schedule_def schedule_cron_def handle_code_delegation_def handle_delegation_def delegate_task_def
    discover_def agent_chat_def Let_def
  by (intro keeps_block keeps_rules keeps_mailbox_calls llm_free_mailbox keeps_modify; simp)+

lemma keeps_finish_answer: "keeps pending_results (finish_answer env pyfloat pids now prefix response)"
  unfolding finish_answer_def Let_def by (intro keeps_rules keeps_mailbox keeps_mailbox_calls)

lemma wp_finish_answer:
  "wp (finish_answer env pyfloat pids now prefix response)
     (\<lambda>r _. tr_exit_code r = 0 \<and> (\<exists>rest. tr_output r = prefix @ rest)) (\<lambda>_ _. True) s"
  unfolding finish_answer_def wp_bnd Let_def
  by (rule wp_skip, rule wp_skip, rule wp_skip, simp add: wp_gets wp_lift_sum wp_seq split: sum.split, intro allI impI)
    (rule wp_skip, simp add: wp_ret TaskResult_def)

lemma wp_collect_drains:
  "wp (collect_results env) (\<lambda>_ t. pending_results t = []) (\<lambda>_ t. pending_results t = []) s"
  unfolding collect_results_def drain_pending_results_def wp_bnd wp_seq wp_gets wp_modify wp_ret
proof (rule wp_keeps[OF keeps_pending_results(1)], goal_cases)
  case (1 ps t)
  have "keeps pending_results (bnd (time_time env) (\<lambda>now. bnd (gets (\<lambda>s. filter (\<lambda>(_, d). is_stale now d) (active_delegations s)))
      (\<lambda>stale. bnd (mapeff show_stale stale) (\<lambda>expired. let parts = ps @ expired in
       ret (if parts = [] then [] else join (brk @ brk) parts @ brk @ brk @ ''---'' @ brk @ brk, now)))))"
    unfolding Let_def by (intro keeps_rules keeps_mailbox_calls keeps_pending_results)
  from wp_keeps[OF this, of t "\<lambda>_ t. pending_results t = []" "\<lambda>_ t. pending_results t = []"] 1
  show ?case by (simp add: wp_bnd wp_gets)
qed simp

text \<open>A task that returns has either shown the collected text or reports an error of the LLM.\<close>

lemma keeps_answer_task: "keeps pending_results (answer_task env pyfloat task prefix now)"
  unfolding answer_task_def ask_assistant_def Let_def
  by (intro keeps_rules keeps_mailbox keeps_mailbox_calls)
    (simp split: prod.split sum.split json.split add: keeps_finish_answer keeps_ret keeps_throw)

lemma wp_answer_task:
  "wp (answer_task env pyfloat task prefix now)
    (\<lambda>r _. tr_exit_code r = 0 \<and> (\<exists>rest. tr_output r = prefix @ rest) \<or>
        tr_exit_code r = 1 \<and> (\<exists>e. tr_output r = ''LLM error: '' @ exn_str e)) (\<lambda>_ _. True) s"
proof -
  show ?thesis
  proof (cases "strip (dget (tk_params task) ''message'' (tk_description task)) = []")
    case True
    then show ?thesis by (simp add: answer_task_def wp_ret TaskResult_def)
  next
    case False
    show ?thesis unfolding answer_task_def Let_def if_not_P[OF False] wp_seq wp_bnd
      by (rule wp_skip, rule wp_skip)
        (auto simp: wp_ret wp_throw TaskResult_def intro!: wp_mono[OF wp_finish_answer] split: prod.split sum.split json.split)
  qed
qed

lemma wp_assistant_task:
  assumes "wp (collect_results env) (\<lambda>(prefix, _) _. P prefix) (\<lambda>_ _. True) s"
  shows "wp (assistant_handle_task env pyfloat task)
    (\<lambda>r t. pending_results t = [] \<and> (tr_exit_code r = 0 \<and> (\<exists>prefix rest. P prefix \<and> tr_output r = prefix @ rest) \<or>
        tr_exit_code r = 1 \<and> (\<exists>e. tr_output r = ''LLM error: '' @ exn_str e)))
    (\<lambda>_ t. pending_results t = []) s"
  unfolding assistant_handle_task_def wp_bnd
  by (rule wp_mono[OF wp_conj[OF assms wp_collect_drains]])
    (auto intro!: wp_mono[OF wp_and_keeps[OF keeps_answer_task wp_answer_task]])

definition example_assistant :: "message list \<Rightarrow> (string, delegation) dict \<Rightarrow> assistant" where
  "example_assistant rs ds = llm_agent.extend (example_llm_agent\<lparr>pending_results := rs\<rparr>) \<lparr>active_delegations = ds\<rparr>"

lemma example_assistant_simps [simp]:
  "pending_results (example_assistant rs ds) = rs" "active_delegations (example_assistant rs ds) = ds"
  "llm (example_assistant rs ds) = Some (LLMClient ''k'' [])"
  by (simp_all add: example_assistant_def llm_agent.defs example_llm_agent_def assistant.defs)

definition example_delegation :: delegation where
  "example_delegation = \<lparr>dl_target = ''queen'', dl_task = JStr ''t'', dl_ts = 0, dl_trace_id = []\<rparr>"

definition blank_task :: task where
  "blank_task = \<lparr>tk_task_id = ''t'', tk_description = [], tk_params = [], tk_priority = ''normal'',
     tk_timeout_seconds = 0, tk_context = [], tk_parent_task_id = []\<rparr>"

definition example_result :: message where
  "example_result = (example_message ''task_response'' ''r'')
     \<lparr>ms_payload := utf8_encode (dumps False (JObj [(''output'', JStr ''ok'')]))\<rparr>"

lemma example_result_output: "result_output (ms_payload example_result) = Inr (JStr ''ok'')"
proof -
  have "loads (dumps False (JObj [(''output'', JStr ''ok'')])) = Some (JObj [(''output'', JStr ''ok'')])"
    by (rule loads_dumps) (simp add: dict_ok_def)
  then show ?thesis by (simp add: result_output_def example_result_def del: dumps.simps)
qed

lemma example_collect:
  "wp (collect_results env) (\<lambda>_ t. llm t \<noteq> None) (\<lambda>_ _. False)
     (example_assistant [example_result] [(''r'', example_delegation)])"
  unfolding collect_results_def drain_pending_results_def wp_bnd wp_seq wp_gets wp_modify wp_ret
  by (simp add: wp_bnd wp_show_result example_result_output wp_ret wp_time_time wp_gets Let_def)
    (simp add: example_result_def example_message_def wp_simps emit_def)

text \<open>
  C29.  A finished delegation is reported: when a task of the Assistant succeeds, the text of
  every answer that was in its mailbox is in the output, under the name of the agent the
  task had been delegated to, and the mailbox is empty.
\<close>

theorem assistant_reports_results:
  assumes "distinct (map ms_reply_to (pending_results s))" "m \<in> set (pending_results s)"
    "map_of (active_delegations s) (ms_reply_to m) = Some d" "result_output (ms_payload m) = Inr out"
    "result (assistant_handle_task env pyfloat task) s = Inr r" "tr_exit_code r = 0"
  shows "contains (''[Completed result from '' @ dl_target d @ '':]'' @ brk @ py_str out) (tr_output r) \<and>
    pending_results (final (assistant_handle_task env pyfloat task) s) = []"
  using wp_returns[OF wp_assistant_task[OF wp_collect_results[OF assms(1,2,4)]] assms(5)] assms(3,6)
  by (auto simp: completed_text_def intro: contains_append(1))

theorem assistant_reports_results_witness:
  "\<exists>r. result (assistant_handle_task example_env (\<lambda>_. 0) blank_task)
      (example_assistant [example_result] [(''r'', example_delegation)]) = Inr r \<and>
    contains (''[Completed result from queen:]'' @ brk @ ''ok'') (tr_output r)"
proof -
  let ?s = "example_assistant [example_result] [(''r'', example_delegation)]"
  have "wp (assistant_handle_task example_env (\<lambda>_. 0) blank_task) (\<lambda>r _. tr_exit_code r = 0) (\<lambda>_ _. False) ?s"
    unfolding assistant_handle_task_def wp_bnd
    by (rule wp_mono[OF example_collect]) (auto simp: answer_task_def blank_task_def wp_ret TaskResult_def strip_eq_Nil)
  then obtain r where r: "result (assistant_handle_task example_env (\<lambda>_. 0) blank_task) ?s = Inr r" "tr_exit_code r = 0"
    by (auto simp: wp_def result_def split: prod.splits sum.splits)
  from assistant_reports_results[OF _ _ _ example_result_output r, of example_delegation] r(1)
  show ?thesis by (simp add: example_delegation_def example_result_def example_message_def)
qed

text \<open>
  A failed LLM call loses results: a task that returns with an exit code other than 0
  has taken every answer out of the mailbox, and shows none of them; its output is the
  error of the LLM alone.
\<close>

theorem llm_error_loses_results:
  assumes "result (assistant_handle_task env pyfloat task) s = Inr r" "tr_exit_code r \<noteq> 0"
  shows "(\<exists>e. tr_output r = ''LLM error: '' @ exn_str e) \<and>
    pending_results (final (assistant_handle_task env pyfloat task) s) = []"
  using wp_returns[OF wp_assistant_task[where P = "\<lambda>_. True"] assms(1)] assms(2)
  by (auto intro: wp_always)

definition llm_down :: env where
  "llm_down = example_env\<lparr>e_http := \<lambda>_. Inl (OSError ''down'')\<rparr>"

lemma llm_down_simps [simp]:
  "e_http llm_down h = Inl (OSError ''down'')" "e_log llm_down h = Inr ()" "e_siblings llm_down h = Inr []"
  by (simp_all add: llm_down_def example_env_def)

lemma wp_ask_down:
  assumes "llm t \<noteq> None"
  shows "wp (ask_assistant llm_down m (JObj []) (JList [])) (\<lambda>v _. \<exists>e. snd v = Inl e) (\<lambda>_ _. False) t"
proof -
  have chat: "wp (agent_chat llm_down msgs mo mt te) (\<lambda>_ _. False) (\<lambda>_ _. True) u"
    if "llm u \<noteq> None" for msgs mo mt te and u :: "'a assistant_scheme"
    using that by (auto simp: agent_chat_def chat_def completion_def do_request_def get_llm_def wp_simps emit_def)
  have discover: "wp (discover llm_down) (\<lambda>_ u. llm u \<noteq> None) (\<lambda>_ _. False) t"
    using assms by (auto simp: discover_def sys_log_def sys_list_siblings_def do_syscall_def wp_simps emit_def)
  show ?thesis unfolding ask_assistant_def wp_bnd
    by (rule wp_mono[OF discover])
      (auto simp: merge_pids_def history_messages_def wp_lift_sum wp_gets wp_tryc wp_bnd wp_ret intro!: wp_mono[OF chat])
qed

lemma wp_llm_down:
  assumes "llm t \<noteq> None"
  shows "wp (answer_task llm_down pyfloat (blank_task\<lparr>tk_description := ''hi''\<rparr>) prefix now)
    (\<lambda>r _. tr_exit_code r = 1) (\<lambda>_ _. False) t"
proof -
  let ?task = "blank_task\<lparr>tk_description := ''hi''\<rparr>"
  have "strip ''hi'' = ''hi''" "loads ''[]'' = Some (JList [])" "loads ''{}'' = Some (JObj [])" by code_simp+
  then have msg: "strip (dget (tk_params ?task) ''message'' (tk_description ?task)) \<noteq> []"
    and hist: "loads_or (JList []) (dget (tk_params ?task) ''history'' ''[]'') = JList []"
    and given: "loads_or (JObj []) (dget (tk_params ?task) ''sibling_pids'' ''{}'') = JObj []"
    by (simp_all add: blank_task_def loads_or_def)
  have log: "wp (sys_log llm_down l m f) (\<lambda>_ u. llm u \<noteq> None) (\<lambda>_ _. False) t" for l m f
    using assms by (simp add: sys_log_def do_syscall_def wp_simps emit_def)
  show ?thesis unfolding answer_task_def Let_def if_not_P[OF msg] hist given wp_seq wp_bnd
    by (rule wp_mono[OF log], rule wp_mono[OF wp_ask_down]) (auto simp: wp_ret TaskResult_def)
qed

theorem llm_error_loses_results_witness:
  "\<exists>r. result (assistant_handle_task llm_down (\<lambda>_. 0) (blank_task\<lparr>tk_description := ''hi''\<rparr>))
      (example_assistant [example_result] [(''r'', example_delegation)]) = Inr r \<and> (\<exists>e. tr_output r = ''LLM error: '' @ exn_str e)"
proof -
  let ?s = "example_assistant [example_result] [(''r'', example_delegation)]"
  have "wp (assistant_handle_task llm_down (\<lambda>_. 0) (blank_task\<lparr>tk_description := ''hi''\<rparr>)) (\<lambda>r _. tr_exit_code r = 1) (\<lambda>_ _. False) ?s"
    unfolding assistant_handle_task_def wp_bnd
    by (rule wp_mono[OF example_collect]) (auto intro: wp_llm_down)
  then obtain r where r: "result (assistant_handle_task llm_down (\<lambda>_. 0) (blank_task\<lparr>tk_description := ''hi''\<rparr>)) ?s = Inr r"
    "tr_exit_code r \<noteq> 0"
    by (auto simp: wp_def result_def split: prod.splits sum.splits)
  from llm_error_loses_results[OF r] r(1) show ?thesis by auto
qed

text \<open>
  A schedule without a target goes to the first agent: when the block has no \<open>target\<close>, the
  empty name is part of every name, so that the cron entry is created for whichever agent
  comes first, instead of being refused.
\<close>

theorem schedule_without_target:
  assumes "extract_json_block response ''SCHEDULE:'' = Some (JObj info)" "info \<noteq> []" "map_of info ''target'' = None"
    "pids = (n, JInt p) # rest" "map_of pids [] = None" "0 < p" "p < 2 ^ 64"
    "a_core s = Some c" "result (schedule_cron env pyfloat info (JInt p)) s = Inr cron_id"
  shows "\<exists>q. last (trace (final (handle_schedule env pyfloat pids response) s)) = rpc c None (AddCronRequest q) \<and> cq_target_pid q = p"
proof -
  have "contains (lower []) (lower n)" unfolding contains_iff by (intro exI[of _ "[]"] exI[of _ "lower n"]) (simp add: lower_def)
  then have agent: "find_agent (JStr []) pids = Inr (JInt p)"
    using assms(4,5,6) by (simp add: find_agent_def dget_def Let_def)
  obtain kv kvs where info: "info = kv # kvs" using assms(2) by (cases info) auto
  have "final (handle_schedule env pyfloat pids response) s = final (schedule_cron env pyfloat info (JInt p)) s"
    using assms(1,3,6,9) agent info
    by (simp add: handle_schedule_def Let_def dget_def lift_sum_def eff_defs split: prod.splits sum.splits)
  moreover have "\<exists>q. last (trace (final (schedule_cron env pyfloat info (JInt p)) s)) = rpc c None (AddCronRequest q) \<and>
      cq_target_pid q = p"
    using assms(6-9) by (auto simp: schedule_cron_def get_core_def to_pid_def py_int_def uint64_def add_cron_def
        lift_sum_def ask_env_def eff_defs split: sum.splits prod.splits if_splits)
  ultimately show ?thesis by simp
qed

theorem schedule_without_target_witness:
  "\<exists>q. last (trace (final (handle_schedule example_env (\<lambda>_. 0) [(''maid'', JInt 4)]
      (''ok '' @ ''SCHEDULE:'' @ '' '' @ dumps True (JObj [(''name'', JStr ''n'')]) @ [])) (example_assistant [] []))) =
    rpc (CoreClient 2) None (AddCronRequest q) \<and> cq_target_pid q = 4"
proof -
  have block: "extract_json_block (''ok '' @ ''SCHEDULE:'' @ '' '' @ dumps True (JObj [(''name'', JStr ''n'')]) @ []) ''SCHEDULE:'' =
      Some (JObj [(''name'', JStr ''n'')])"
    using extract_found[of "''SCHEDULE:''" "''ok ''" "'' ''" "[(''name'', JStr ''n'')]" True "[]"]
    by (simp add: contains_def dict_ok_def no_brace_def del: dumps.simps)
  have core: "a_core (example_assistant [] []) = Some (CoreClient 2)"
    by (simp add: example_assistant_def llm_agent.defs example_llm_agent_def assistant.defs)
  have "result (schedule_cron example_env (\<lambda>_. 0) [(''name'', JStr ''n'')] (JInt 4)) (example_assistant [] []) = Inr ''c''"
    using core by (simp add: schedule_cron_def get_core_def to_pid_def py_int_def uint64_def add_cron_def result_text_def
        text_map_def lift_sum_def ask_env_def eff_defs example_env_def)
  then show ?thesis using schedule_without_target[OF block _ _ _ _ _ _ core, of "[(''maid'', JInt 4)]" "''maid''" 4 "[]"]
    by simp
qed

end
