(* ===== verification/Delegation.thy ===== *)
theory Delegation
  imports Assistant
begin

text \<open>
  What joins the Queen and the Assistant: every answer the Queen sends is a JSON object that
  the Assistant can read, and a delivered answer stays in the Assistant's mailbox.  The
  metadata of a result that the kernel returns is a protobuf map, so its keys are
  distinct (\<open>exec_dicts\<close>).
\<close>

section \<open>Results of the strategies\<close>

definition exec_dicts :: "env \<Rightarrow> bool" where
  "exec_dicts env \<longleftrightarrow> (\<forall>h ok err r. e_exec env h = Inr (ok, err, r) \<longrightarrow> dict_ok (tr_metadata r))"

lemma wp_execute_meta: "exec_dicts env \<Longrightarrow> wp (execute_task env c p d ps tmo) (\<lambda>r _. dict_ok (tr_metadata r)) (\<lambda>_ _. True) s"
  by (auto simp: exec_dicts_def execute_task_def wp_simps split: sum.splits)

lemma wp_run_on_meta: "exec_dicts env \<Longrightarrow> wp (run_on env p d ps tr tmo) (\<lambda>r _. dict_ok (tr_metadata r)) (\<lambda>_ _. True) s"
  unfolding run_on_def wp_bnd by (rule wp_skip) (auto simp: wp_throw intro: wp_execute_meta split: json.splits)

lemma dict_ok_with_meta: "dict_ok (tr_metadata r) \<Longrightarrow> dict_ok (tr_metadata (with_meta kvs r))"
proof -
  have "dict_ok d \<Longrightarrow> dict_ok (foldl (\<lambda>d (k, v). dset k v d) d kvs)" for d :: params
    by (induction kvs arbitrary: d) auto
  then show "dict_ok (tr_metadata r) \<Longrightarrow> ?thesis" by (simp add: with_meta_def)
qed

lemma dict_ok_failed [simp]: "dict_ok (tr_metadata (failed w e))"
  by (simp add: failed_def TaskResult_def)

text \<open>A run on an agent, followed by steps that do not touch the result, or a failure.\<close>

lemma wp_run_meta:
  assumes "exec_dicts env" "\<And>e t. wp (h e) (\<lambda>r _. dict_ok (tr_metadata r)) (\<lambda>_ _. True) t"
  shows "wp (run_on env p d ps tr tmo) (\<lambda>r. wp (seq m (ret (with_meta kvs r))) (\<lambda>r _. dict_ok (tr_metadata r))
     (\<lambda>e. wp (h e) (\<lambda>r _. dict_ok (tr_metadata r)) (\<lambda>_ _. True))) (\<lambda>e. wp (h e) (\<lambda>r _. dict_ok (tr_metadata r)) (\<lambda>_ _. True)) s"
  unfolding wp_seq wp_ret
  by (rule wp_mono[OF wp_run_on_meta[OF assms(1)]]) (auto intro!: wp_always[where m = m] dict_ok_with_meta assms(2))

lemma wp_failed_meta: "wp (seq m (ret (failed w e))) (\<lambda>r _. dict_ok (tr_metadata r)) (\<lambda>_ _. True) s"
  unfolding wp_seq wp_ret by (rule wp_skip) simp

lemma wp_simple_meta: "exec_dicts env \<Longrightarrow> wp (handle_simple env d tr) (\<lambda>r _. dict_ok (tr_metadata r)) (\<lambda>_ _. True) s"
  unfolding handle_simple_def wp_bnd wp_tryc[of "bnd (run_on _ _ _ _ _ _) _"]
  by (rule wp_skip) (auto split: sum.split simp: wp_ret wp_tryc wp_bnd intro!: wp_run_meta wp_failed_meta)

lemma wp_complex_meta: "exec_dicts env \<Longrightarrow> wp (handle_complex env d tr) (\<lambda>r _. dict_ok (tr_metadata r)) (\<lambda>_ _. True) s"
  unfolding handle_complex_def wp_seq[of "info_log _ _ _"] wp_bnd wp_tryc wp_gets
  by (rule wp_skip, rule wp_skip) (intro wp_run_meta wp_failed_meta)

lemma wp_plan_meta: "exec_dicts env \<Longrightarrow> wp (run_plan env d tr p plan) (\<lambda>r _. dict_ok (tr_metadata r)) (\<lambda>_ _. True) s"
  unfolding run_plan_def wp_seq[of "info_log _ _ (_ @ str_nat _ @ _)"] wp_bnd wp_tryc wp_gets
  by (rule wp_skip, rule wp_skip, rule wp_run_meta, assumption, unfold wp_seq[of "info_log _ _ _"], rule wp_skip)
    (rule wp_failed_meta)

lemma wp_architect_meta: "exec_dicts env \<Longrightarrow> wp (handle_architect env d tr) (\<lambda>r _. dict_ok (tr_metadata r)) (\<lambda>_ _. True) s"
  unfolding handle_architect_def wp_seq wp_bnd wp_gets
  apply (rule wp_skip, rule wp_skip, rule wp_skip, rule wp_skip, rule wp_skip)
  apply (simp split: sum.split add: wp_plan_meta)
  apply (intro allI impI)
  apply (unfold wp_seq)
  apply (rule wp_skip)
  apply (rule wp_complex_meta, assumption)
  done

section \<open>The Queen's answer can be read\<close>

definition readable :: "bytes \<Rightarrow> bool" where
  "readable b \<longleftrightarrow> (\<exists>out. result_output b = Inr out)"

lemma readable_dumps: "wf_json (JObj kvs) \<Longrightarrow> readable (utf8_encode (dumps ea (JObj kvs)))"
  using loads_dumps[of "JObj kvs" ea] by (simp add: readable_def result_output_def del: dumps.simps)

lemma wf_params_json: "dict_ok ps \<Longrightarrow> wf_json (params_json ps)"
  by (auto simp: params_json_def dict_ok_def comp_def split_beta)

lemma wp_run_strategy_meta: "exec_dicts env \<Longrightarrow> wp (run_strategy env k d tr) (\<lambda>r _. dict_ok (tr_metadata r)) (\<lambda>_ _. True) s"
  unfolding run_strategy_def by (simp add: wp_simple_meta wp_architect_meta wp_complex_meta)

lemma wp_ipc_task_readable: "exec_dicts env \<Longrightarrow> wp (ipc_task env d tr) (\<lambda>b _. readable b) (\<lambda>_ _. True) s"
  unfolding ipc_task_def wp_seq wp_bnd wp_ret
  by (rule wp_skip, rule wp_skip, rule wp_mono, erule wp_run_strategy_meta, rule wp_skip, rule wp_skip, rule readable_dumps)
    (simp_all add: wf_params_json, simp add: dict_ok_def)

lemma wp_ipc_payload_readable: "exec_dicts env \<Longrightarrow> wp (ipc_payload env b) (\<lambda>b _. readable b) (\<lambda>_ _. True) s"
proof -
  assume env: "exec_dicts env"
  have empty: "readable (utf8_encode (dumps True (JObj [(''error'', JStr ''empty task'')])))"
    by (rule readable_dumps) (simp add: dict_ok_def)
  have bad: "wp (seq (warn_health env) (throw e)) (\<lambda>b _. readable b) (\<lambda>_ _. True) t" for e t
    unfolding wp_seq wp_throw by (rule wp_skip) simp
  show ?thesis unfolding ipc_payload_def wp_bnd
    by (rule wp_skip, rule wp_skip, rule wp_skip, rule wp_skip, rule wp_skip, rule wp_skip)
      (simp add: wp_ret wp_throw empty bad wp_ipc_task_readable[OF env] split: json.split del: dumps.simps)
qed

lemma wp_process_readable:
  assumes "exec_dicts env" "a_core s = Some core" "ms_from_pid m \<noteq> 0"
  shows "wp (process_message_task env m) (\<lambda>_ t. \<exists>q. sent t = sent s @ [q] \<and> readable (mq_payload q) \<and>
     mq_type q = ''task_response'' \<and> mq_reply_to q = ms_reply_to m) (\<lambda>_ _. True) s"
proof -
  have err: "readable (utf8_encode (dumps True (JObj [(''error'', JStr x), (''exit_code'', JInt 1)])))" for x
    by (rule readable_dumps) (simp add: dict_ok_def)
  let ?body = "tryc (ipc_payload env (ms_payload m))
        (\<lambda>e. ret (utf8_encode (dumps True (JObj [(''error'', JStr (exn_str e)), (''exit_code'', JInt 1)]))))"
  have kept: "keeps sent ?body" "keeps a_core ?body"
    by (intro keeps_rules sent_view.keeps_ipc_payload core_view.keeps_ipc_payload)+
  have "wp ?body (\<lambda>b _. readable b) (\<lambda>_ _. True) s"
    unfolding wp_tryc wp_ret by (rule wp_mono[OF wp_ipc_payload_readable[OF assms(1)]]) (auto simp: err simp del: dumps.simps)
  from wp_and_keeps[OF kept(1) wp_and_keeps[OF kept(2) this]] show ?thesis
    unfolding process_message_task_def wp_bnd[of ?body]
  proof (rule wp_mono)
    fix b and t :: "'a queen_scheme"
    assume "sent t = sent s \<and> a_core t = a_core s \<and> readable b"
    then show "wp (bnd (gets a_core) (\<lambda>c. case c of None \<Rightarrow> ret ()
      | Some core \<Rightarrow> whenc (ms_from_pid m \<noteq> 0) (tryc (seq (send_message env core (ms_from_pid m) [] ''task_response''
          b ''normal'' False 0 (ms_reply_to m)) (ret ())) (\<lambda>_. ret ()))))
       (\<lambda>_ t. \<exists>q. sent t = sent s @ [q] \<and> readable (mq_payload q) \<and>
         mq_type q = ''task_response'' \<and> mq_reply_to q = ms_reply_to m) (\<lambda>_ _. True) t"
      using assms(2,3) by (auto simp: wp_simps intro!: wp_mono[OF wp_send_message])
  qed simp
qed

section \<open>Delivery to the Assistant\<close>

lemma keeps_announce:
  "keeps (\<lambda>s. (pending_results s, active_delegations s)) (announce_result env c d b)"
proof -
  have "traceless (\<lambda>s :: 'a assistant_scheme. (pending_results s, active_delegations s))"
    by (simp add: traceless_def emit_def)
  then show ?thesis unfolding announce_result_def store_artifact_def core_log_def Let_def
    by (intro keeps_rules; simp split: option.split json.split add: keeps_rules)
qed

lemma wp_deliver_result:
  assumes "ms_type r = ''task_response''" "ms_reply_to r \<noteq> []" "map_of (awaited (pending_requests s)) (ms_reply_to r) = None"
  shows "wp (assistant_on_message env handle r)
    (\<lambda>_ t. pending_results t = pending_results s @ [r] \<and> active_delegations t = active_delegations s) (\<lambda>_ _. False) s"
proof -
  have total: "wp (announce_result env c d b) (\<lambda>_ _. True) (\<lambda>_ _. False) t" for c d b and t :: "'a assistant_scheme"
    unfolding announce_result_def wp_tryc wp_ret by (rule wp_always) simp_all
  have announce: "wp (announce_result env c d b) (\<lambda>_ u. pending_results u = pending_results t \<and>
      active_delegations u = active_delegations t) (\<lambda>_ _. False) t" for c d b and t :: "'a assistant_scheme"
    using wp_and_keeps[OF keeps_announce total] by (rule wp_mono) auto
  have "\<not> dmem (awaited (pending_requests s)) (ms_reply_to r)" using assms(3) by (simp add: dmem_map_of)
  then show ?thesis using assms(1,2)
    by (auto simp: assistant_on_message_def on_message_def wp_simps split: option.split bool.split
        intro!: wp_mono[OF announce])
qed

lemma wp_collect_one:
  assumes "pending_results t = [r]" "active_delegations t = [(ms_reply_to r, d)]" "readable (ms_payload r)"
  shows "wp (collect_results env) (\<lambda>_ _. True) (\<lambda>_ _. False) t"
proof -
  obtain out where "result_output (ms_payload r) = Inr out" using assms(3) by (auto simp: readable_def)
  then show ?thesis
    unfolding collect_results_def drain_pending_results_def wp_bnd wp_seq wp_gets wp_modify wp_ret
    using assms(1,2) by (simp add: wp_bnd wp_show_result wp_ret wp_time_time wp_gets Let_def)
qed

end
