(* ===== verification/Dashboard.thy ===== *)
theory Dashboard
  imports Llm
begin

text \<open>
  The state of the dashboard (\<open>dashboard/app.py\<close>) and how a kernel event changes it:
  \<open>record_task\<close>, \<open>record_message\<close>, \<open>proc_to_dict\<close>, \<open>apply_event\<close> and
  \<open>make_lifecycle_log\<close>.  \<open>apply_event\<close> awaits nothing, so it is atomic.  Python's
  \<open>float\<close> of a string and the text of a float are parameters (\<open>pyfloat\<close>, \<open>frepr\<close>);
  the value of a float is taken to be the rational it stands for.
\<close>

section \<open>State\<close>

text \<open>A node of the tree cache.  The share of context used is \<open>0\<close> or a float, so it is kept as JSON.\<close>

record node =
  nd_pid :: pid
  nd_ppid :: pid
  nd_name :: string
  nd_user :: string
  nd_role :: string
  nd_role_id :: int
  nd_cognitive_tier :: string
  nd_tier_id :: int
  nd_model :: string
  nd_state :: string
  nd_state_id :: int
  nd_vps :: string
  nd_tokens_consumed :: int
  nd_context_usage_percent :: json
  nd_child_count :: int
  nd_started_at :: int
  nd_current_task_id :: string
  nd_runtime_addr :: string

record task_entry =
  te_pid :: pid
  te_name :: string
  te_description :: json
  te_result :: json
  te_success :: bool
  te_error :: json
  te_duration_ms :: int
  te_timestamp :: int

text \<open>\<open>message_id\<close>, \<open>state\<close> and \<open>delivered_at\<close> are keys added after the entry was recorded.\<close>

record message_entry =
  me_from_pid :: pid
  me_to_pid :: pid
  me_from_name :: string
  me_to_name :: string
  me_type :: string
  me_reply_to :: string
  me_payload_preview :: string
  me_timestamp :: int
  me_trace_id :: string
  me_trace_span :: string
  me_message_id :: "string option"
  me_state :: "string option"
  me_delivered_at :: "int option"

record usage =
  us_tokens :: int
  us_calls :: int
  us_latency_ms :: rat

record dash = world +
  ws_clients :: "nat list"
  ws_sent :: "(nat \<times> string) list"
  tree_cache :: "(pid, node) dict"
  last_seq :: int
  task_history :: "task_entry list"
  message_log :: "message_entry list"
  trace_log :: "(string, json list) dict"
  llm_usage :: "(pid, usage) dict"

definition TASK_HISTORY_MAX :: nat where "TASK_HISTORY_MAX = 500"
definition MESSAGE_LOG_MAX :: nat where "MESSAGE_LOG_MAX = 500"
definition MAX_TRACES :: nat where "MAX_TRACES = 100"

definition dash_init :: dash where
  "dash_init = \<lparr>trace = [], ws_clients = [], ws_sent = [], tree_cache = [], last_seq = 0,
     task_history = [], message_log = [], trace_log = [], llm_usage = []\<rparr>"

text \<open>An event of the kernel's stream, with the fields the dashboard reads.\<close>

record event =
  ev_seq :: int
  ev_timestamp_ms :: int
  ev_type :: string
  ev_pid :: pid
  ev_ppid :: pid
  ev_name :: string
  ev_role :: string
  ev_tier :: string
  ev_model :: string
  ev_state :: string
  ev_old_state :: string
  ev_new_state :: string
  ev_level :: string
  ev_message :: string
  ev_fields :: "(string, string) dict"
  ev_reply_to :: string
  ev_payload_preview :: string
  ev_message_id :: string
  ev_trace_id :: string
  ev_trace_span :: string

section \<open>The logs\<close>

text \<open>\<open>int\<close> of a float cuts towards zero.\<close>

definition int_of_rat :: "rat \<Rightarrow> int" where
  "int_of_rat x = (if x < 0 then \<lceil>x\<rceil> else \<lfloor>x\<rfloor>)"

definition now_ms :: "env \<Rightarrow> ('z world_scheme, int) eff" where
  "now_ms env = bnd (time_time env) (\<lambda>t. ret (int_of_rat (t * 1000)))"

definition push_task :: "'z dash_scheme \<Rightarrow> task_entry \<Rightarrow> 'z dash_scheme" where
  "push_task s e = s\<lparr>task_history := trim_front TASK_HISTORY_MAX (task_history s @ [e])\<rparr>"

definition push_message :: "'z dash_scheme \<Rightarrow> message_entry \<Rightarrow> 'z dash_scheme" where
  "push_message s e = s\<lparr>message_log := trim_front MESSAGE_LOG_MAX (message_log s @ [e])\<rparr>"

definition record_task :: "env \<Rightarrow> pid \<Rightarrow> string \<Rightarrow> json \<Rightarrow> json \<Rightarrow> bool \<Rightarrow> json \<Rightarrow> int \<Rightarrow>
    ('z dash_scheme, unit) eff" where
  "record_task env p name description res success error duration_ms = bnd (now_ms env) (\<lambda>ts.
     modify (\<lambda>s. push_task s \<lparr>te_pid = p, te_name = name, te_description = description, te_result = res,
       te_success = success, te_error = error, te_duration_ms = duration_ms, te_timestamp = ts\<rparr>))"

definition record_message :: "env \<Rightarrow> pid \<Rightarrow> pid \<Rightarrow> string \<Rightarrow> string \<Rightarrow> string \<Rightarrow> string \<Rightarrow> string \<Rightarrow>
    string \<Rightarrow> string \<Rightarrow> ('z dash_scheme, unit) eff" where
  "record_message env from_pid to_pid from_name to_name msg_type reply payload_preview trace_id trace_span =
     bnd (now_ms env) (\<lambda>ts. modify (\<lambda>s. push_message s
       \<lparr>me_from_pid = from_pid, me_to_pid = to_pid, me_from_name = from_name, me_to_name = to_name,
        me_type = msg_type, me_reply_to = reply, me_payload_preview = take 2000 payload_preview,
        me_timestamp = ts, me_trace_id = trace_id, me_trace_span = trace_span, me_message_id = None,
        me_state = None, me_delivered_at = None\<rparr>))"

text \<open>Both logs provide the interface of a bounded log.\<close>

interpretation task_log: bounded_log push_task task_history TASK_HISTORY_MAX
  by unfold_locales (simp add: push_task_def trim_front_last_n)

interpretation msg_log: bounded_log push_message message_log MESSAGE_LOG_MAX
  by unfold_locales (simp add: push_message_def trim_front_last_n)

section \<open>Nodes\<close>

definition DASH_ROLE_NAMES :: "(int, string) dict" where
  "DASH_ROLE_NAMES = [(0, ''kernel''), (1, ''daemon''), (2, ''agent''), (3, ''architect''), (4, ''lead''),
     (5, ''worker''), (6, ''task'')]"

definition TIER_NAMES :: "(int, string) dict" where
  "TIER_NAMES = [(0, ''strategic''), (1, ''tactical''), (2, ''operational'')]"

definition STATE_NAMES :: "(int, string) dict" where
  "STATE_NAMES = [(0, ''idle''), (1, ''running''), (2, ''blocked''), (3, ''sleeping''), (4, ''dead''), (5, ''zombie'')]"

text \<open>\<open>md\<close>: the metadata of a call in the name of a pid.\<close>

abbreviation md :: "pid \<Rightarrow> (string \<times> string) list" where
  "md \<equiv> pid_metadata"

definition proc_to_dict :: "(rat \<Rightarrow> string) \<Rightarrow> proc_info \<Rightarrow> node" where
  "proc_to_dict frepr p = \<lparr>nd_pid = pi_pid p, nd_ppid = pi_ppid p, nd_name = pi_name p, nd_user = pi_user p,
     nd_role = dget DASH_ROLE_NAMES (pi_role p) (str_int (pi_role p)), nd_role_id = pi_role p,
     nd_cognitive_tier = dget TIER_NAMES (pi_cognitive_tier p) (str_int (pi_cognitive_tier p)),
     nd_tier_id = pi_cognitive_tier p, nd_model = pi_model p,
     nd_state = dget STATE_NAMES (pi_state p) (str_int (pi_state p)), nd_state_id = pi_state p,
     nd_vps = pi_vps p, nd_tokens_consumed = pi_tokens_consumed p,
     nd_context_usage_percent = JFloat (frepr (round1 (pi_context_usage_percent p))),
     nd_child_count = pi_child_count p, nd_started_at = pi_started_at p,
     nd_current_task_id = pi_current_task_id p, nd_runtime_addr = pi_runtime_addr p\<rparr>"

definition node_json :: "node \<Rightarrow> json" where
  "node_json n = JObj [(''pid'', JInt (nd_pid n)), (''ppid'', JInt (nd_ppid n)), (''name'', JStr (nd_name n)),
     (''user'', JStr (nd_user n)), (''role'', JStr (nd_role n)), (''role_id'', JInt (nd_role_id n)),
     (''cognitive_tier'', JStr (nd_cognitive_tier n)), (''tier_id'', JInt (nd_tier_id n)),
     (''model'', JStr (nd_model n)), (''state'', JStr (nd_state n)), (''state_id'', JInt (nd_state_id n)),
     (''vps'', JStr (nd_vps n)), (''tokens_consumed'', JInt (nd_tokens_consumed n)),
     (''context_usage_percent'', nd_context_usage_percent n), (''child_count'', JInt (nd_child_count n)),
     (''started_at'', JInt (nd_started_at n)), (''current_task_id'', JStr (nd_current_task_id n)),
     (''runtime_addr'', JStr (nd_runtime_addr n))]"

definition get_tree_response :: "'z dash_scheme \<Rightarrow> json" where
  "get_tree_response s = (if tree_cache s = []
     then JObj [(''ok'', JBool False), (''error'', JStr ''no data yet'')]
     else JObj [(''ok'', JBool True), (''nodes'', JList (map (node_json \<circ> snd) (tree_cache s)))])"

section \<open>Traces\<close>

definition fields_json :: "(string, string) dict \<Rightarrow> json" where
  "fields_json fs = JObj (map (\<lambda>(k, v). (k, JStr v)) fs)"

definition trace_entry :: "event \<Rightarrow> json" where
  "trace_entry ev = JObj ([(''seq'', JInt (ev_seq ev)), (''timestamp_ms'', JInt (ev_timestamp_ms ev)),
     (''type'', JStr (ev_type ev)), (''pid'', JInt (ev_pid ev)), (''ppid'', JInt (ev_ppid ev)),
     (''name'', JStr (ev_name ev)), (''trace_id'', JStr (ev_trace_id ev)), (''trace_span'', JStr (ev_trace_span ev))] @
     (if ev_type ev = ''message_sent''
      then [(''message_type'', JStr (ev_message ev)), (''reply_to'', JStr (ev_reply_to ev))]
      else if ev_type ev = ''state_changed''
      then [(''old_state'', JStr (ev_old_state ev)), (''new_state'', JStr (ev_new_state ev))]
      else if ev_type ev = ''log'' then [(''level'', JStr (ev_level ev)), (''message'', JStr (ev_message ev))]
      else if ev_type ev \<in> {''llm_call'', ''tool_call'', ''cron_executed''}
      then [(''level'', JStr (ev_level ev)), (''message'', JStr (ev_message ev)), (''fields'', fields_json (ev_fields ev))]
      else []))"

text \<open>A new trace evicts the oldest one when the log is full.\<close>

definition open_trace :: "string \<Rightarrow> (string, json list) dict \<Rightarrow> (string, json list) dict" where
  "open_trace tid lg = (if dmem lg tid then lg
     else dset tid [] (if MAX_TRACES \<le> length lg then (case lg of [] \<Rightarrow> [] | p # _ \<Rightarrow> ddel (fst p) lg) else lg))"

definition add_trace :: "event \<Rightarrow> (string, json list) dict \<Rightarrow> (string, json list) dict" where
  "add_trace ev lg = (if ev_trace_id ev = [] then lg
     else let lg1 = open_trace (ev_trace_id ev) lg in
       dset (ev_trace_id ev) (dget lg1 (ev_trace_id ev) [] @ [trace_entry ev]) lg1)"

section \<open>Process events\<close>

definition spawned_node :: "event \<Rightarrow> node" where
  "spawned_node ev = \<lparr>nd_pid = ev_pid ev, nd_ppid = ev_ppid ev, nd_name = ev_name ev, nd_user = [],
     nd_role = ev_role ev, nd_role_id = 0, nd_cognitive_tier = ev_tier ev, nd_tier_id = 0,
     nd_model = ev_model ev, nd_state = (if ev_state ev = [] then ''idle'' else ev_state ev), nd_state_id = 0,
     nd_vps = [], nd_tokens_consumed = 0, nd_context_usage_percent = JInt 0, nd_child_count = 0,
     nd_started_at = 0, nd_current_task_id = [], nd_runtime_addr = []\<rparr>"

text \<open>Nodes are objects: updating one of them is updating it in its place of the cache.\<close>

definition upd_node :: "pid \<Rightarrow> (node \<Rightarrow> node) \<Rightarrow> (pid, node) dict \<Rightarrow> (pid, node) dict" where
  "upd_node p f d = (case map_of d p of None \<Rightarrow> d | Some n \<Rightarrow> dset p (f n) d)"

definition tree_spawned :: "event \<Rightarrow> (pid, node) dict \<Rightarrow> (pid, node) dict" where
  "tree_spawned ev d = upd_node (ev_ppid ev) (\<lambda>n. n\<lparr>nd_child_count := nd_child_count n + 1\<rparr>)
     (dset (ev_pid ev) (spawned_node ev) d)"

definition tree_state_changed :: "event \<Rightarrow> (pid, node) dict \<Rightarrow> (pid, node) dict" where
  "tree_state_changed ev d = upd_node (ev_pid ev) (\<lambda>n. n\<lparr>nd_state := ev_new_state ev\<rparr>) d"

definition tree_removed :: "event \<Rightarrow> (pid, node) dict \<Rightarrow> (pid, node) dict" where
  "tree_removed ev d = (case map_of d (ev_pid ev) of
      None \<Rightarrow> d
    | Some n \<Rightarrow> upd_node (nd_ppid n) (\<lambda>q. q\<lparr>nd_child_count := max 0 (nd_child_count q - 1)\<rparr>) (ddel (ev_pid ev) d))"

definition upd_tree :: "((pid, node) dict \<Rightarrow> (pid, node) dict) \<Rightarrow> ('z dash_scheme, unit) eff" where
  "upd_tree f = modify (\<lambda>s. s\<lparr>tree_cache := f (tree_cache s)\<rparr>)"

text \<open>The delta shows the node after the parent's count was raised, which matters for a process
  that is its own parent.\<close>

definition apply_spawned :: "event \<Rightarrow> ('z dash_scheme, json option) eff" where
  "apply_spawned ev = seq (upd_tree (tree_spawned ev)) (bnd (gets tree_cache) (\<lambda>d.
     ret (Some (JObj [(''action'', JStr ''add''), (''node'', node_json (dget d (ev_pid ev) (spawned_node ev)))]))))"

definition apply_state_changed :: "event \<Rightarrow> ('z dash_scheme, json option) eff" where
  "apply_state_changed ev = bnd (gets tree_cache) (\<lambda>d.
     if dmem d (ev_pid ev) then seq (upd_tree (tree_state_changed ev))
       (ret (Some (JObj [(''action'', JStr ''update''), (''pid'', JInt (ev_pid ev)), (''state'', JStr (ev_new_state ev))])))
     else ret None)"

definition apply_removed :: "event \<Rightarrow> ('z dash_scheme, json option) eff" where
  "apply_removed ev = seq (upd_tree (tree_removed ev))
     (ret (Some (JObj [(''action'', JStr ''remove''), (''pid'', JInt (ev_pid ev))])))"

section \<open>Log events\<close>

definition event_name :: "event \<Rightarrow> (pid, node) dict \<Rightarrow> string" where
  "event_name ev d = (if ev_name ev = [] then (case map_of d (ev_pid ev) of None \<Rightarrow> [] | Some n \<Rightarrow> nd_name n)
     else ev_name ev)"

definition log_delta :: "event \<Rightarrow> string \<Rightarrow> string \<Rightarrow> string \<Rightarrow> (string \<times> json) list \<Rightarrow> json" where
  "log_delta ev name level msg extra = JObj ([(''action'', JStr ''log''), (''pid'', JInt (ev_pid ev)),
     (''name'', JStr name), (''level'', JStr level), (''message'', JStr msg), (''ts'', JInt (ev_timestamp_ms ev))] @ extra)"

definition typed_log :: "event \<Rightarrow> string \<Rightarrow> string \<Rightarrow> ('z dash_scheme, json option) eff" where
  "typed_log ev level msg = bnd (gets tree_cache) (\<lambda>d. ret (Some (log_delta ev (event_name ev d) level msg
     [(''event_type'', JStr (ev_type ev)), (''fields'', fields_json (ev_fields ev))])))"

definition apply_log :: "event \<Rightarrow> ('z dash_scheme, json option) eff" where
  "apply_log ev = bnd (gets tree_cache) (\<lambda>d. ret (Some (log_delta ev (event_name ev d) (ev_level ev) (ev_message ev)
     (if ev_fields ev = [] then [] else [(''fields'', fields_json (ev_fields ev))]))))"

definition add_usage :: "pid \<Rightarrow> int \<Rightarrow> rat \<Rightarrow> (pid, usage) dict \<Rightarrow> (pid, usage) dict" where
  "add_usage p tokens latency d = (let u = dget d p \<lparr>us_tokens = 0, us_calls = 0, us_latency_ms = 0\<rparr> in
     dset p \<lparr>us_tokens = us_tokens u + tokens, us_calls = us_calls u + 1, us_latency_ms = us_latency_ms u + latency\<rparr> d)"

text \<open>Both numbers are parsed before anything is counted.\<close>

definition apply_llm_call :: "(string \<Rightarrow> rat option) \<Rightarrow> (rat \<Rightarrow> string) \<Rightarrow> event \<Rightarrow> ('z dash_scheme, json option) eff" where
  "apply_llm_call pyfloat frepr ev =
     bnd (of_opt (ValueError ''invalid literal for int() with base 10'')
            (parse_int (dget (ev_fields ev) ''total_tokens'' ''0''))) (\<lambda>tokens.
     bnd (of_opt (ValueError ''could not convert string to float'')
            (pyfloat (dget (ev_fields ev) ''latency_ms'' ''0''))) (\<lambda>latency.
     seq (modify (\<lambda>s. s\<lparr>llm_usage := add_usage (ev_pid ev) tokens latency (llm_usage s)\<rparr>))
       (typed_log ev ''info'' (''LLM call: '' @ dget (ev_fields ev) ''model'' [] @ '' ('' @ str_int tokens @
          '' tokens, '' @ frepr latency @ ''ms)''))))"

definition apply_tool_call :: "event \<Rightarrow> ('z dash_scheme, json option) eff" where
  "apply_tool_call ev = typed_log ev ''info''
     (''Tool: '' @ dget (ev_fields ev) ''tool_name'' [] @ '' ('' @ dget (ev_fields ev) ''duration_ms'' ''0'' @ ''ms)'')"

definition apply_cron_executed :: "event \<Rightarrow> ('z dash_scheme, json option) eff" where
  "apply_cron_executed ev = typed_log ev (if ev_level ev = [] then ''info'' else ev_level ev)
     (''Cron '' @ [CHR 0x27] @ dget (ev_fields ev) ''cron_name'' [] @ [CHR 0x27] @ '' exit='' @
      dget (ev_fields ev) ''exit_code'' ''?'' @ '' ('' @ dget (ev_fields ev) ''duration_ms'' ''0'' @ ''ms)'')"

section \<open>Message events\<close>

text \<open>The newest entry with this message id is marked; an empty id matches nothing.\<close>

fun mark_first :: "string \<Rightarrow> int \<Rightarrow> message_entry list \<Rightarrow> message_entry list" where
  "mark_first mid ts [] = []"
| "mark_first mid ts (e # es) = (if me_message_id e = Some mid \<and> mid \<noteq> []
     then e\<lparr>me_delivered_at := Some ts, me_state := Some ''delivered''\<rparr> # es
     else e # mark_first mid ts es)"

definition known_message :: "string \<Rightarrow> message_entry list \<Rightarrow> bool" where
  "known_message mid es \<longleftrightarrow> mid \<noteq> [] \<and> list_ex (\<lambda>e. me_message_id e = Some mid) es"

definition apply_message_delivered :: "env \<Rightarrow> event \<Rightarrow> ('z dash_scheme, json option) eff" where
  "apply_message_delivered env ev = bnd (gets message_log) (\<lambda>es.
     seq (whenc (known_message (ev_message_id ev) es) (bnd (now_ms env) (\<lambda>ts.
            modify (\<lambda>s. s\<lparr>message_log := rev (mark_first (ev_message_id ev) ts (rev (message_log s)))\<rparr>))))
       (ret (Some (JObj [(''action'', JStr ''message_delivered''), (''message_id'', JStr (ev_message_id ev)),
          (''to_pid'', JInt (ev_pid ev)), (''from_pid'', JInt (ev_ppid ev)), (''ts'', JInt (ev_timestamp_ms ev))]))))"

text \<open>
  What a \<open>task_response\<close> leaves in the task history: the result text, whether it is a
  success, and the error.  A payload that is JSON but no object has no \<open>get\<close>.
\<close>

definition response_parts :: "string \<Rightarrow> exn + (json \<times> bool \<times> json)" where
  "response_parts preview = (case loads preview of
      None \<Rightarrow> Inr (JStr preview, True, JStr [])
    | Some (JObj kvs) \<Rightarrow> (let err = dget kvs ''error'' JNull in
        Inr (dget kvs ''output'' (dget kvs ''error'' (JStr preview)), \<not> truthy err, if truthy err then err else JStr []))
    | Some _ \<Rightarrow> Inl (AttributeError ''object has no attribute get''))"

text \<open>\<open>result_text[:4000]\<close>: a text or a list is cut, any other value raises.\<close>

definition slice_result :: "json \<Rightarrow> exn + json" where
  "slice_result j = (case j of
      JStr t \<Rightarrow> Inr (JStr (take 4000 t))
    | JList xs \<Rightarrow> Inr (JList (take 4000 xs))
    | _ \<Rightarrow> Inl (TypeError ''object is not subscriptable''))"

definition pid_or_name :: "string \<Rightarrow> pid \<Rightarrow> string" where
  "pid_or_name name p = (if name = [] then ''PID '' @ str_int p else name)"

definition record_response :: "env \<Rightarrow> event \<Rightarrow> ('z dash_scheme, unit) eff" where
  "record_response env ev = bnd (lift_sum (response_parts (ev_payload_preview ev))) (\<lambda>(res, success, error).
     bnd (lift_sum (slice_result res)) (\<lambda>text.
     record_task env (ev_ppid ev) (pid_or_name (ev_role ev) (ev_ppid ev))
       (JStr (''Async result from '' @ pid_or_name (ev_name ev) (ev_pid ev))) text success error 0))"

text \<open>The entry is the last one of the log when its \<open>message_id\<close> and \<open>state\<close> are set.\<close>

definition upd_last :: "('a \<Rightarrow> 'a) \<Rightarrow> 'a list \<Rightarrow> 'a list" where
  "upd_last f xs = (if xs = [] then [] else butlast xs @ [f (last xs)])"

definition apply_message_sent :: "env \<Rightarrow> event \<Rightarrow> ('z dash_scheme, json option) eff" where
  "apply_message_sent env ev =
     seq (record_message env (ev_pid ev) (ev_ppid ev) (ev_name ev) (ev_role ev) (ev_message ev) (ev_reply_to ev)
            (ev_payload_preview ev) (ev_trace_id ev) (ev_trace_span ev))
     (seq (modify (\<lambda>s. s\<lparr>message_log := upd_last (\<lambda>e. e\<lparr>me_message_id := Some (ev_message_id ev),
            me_state := Some ''sent''\<rparr>) (message_log s)\<rparr>))
     (seq (whenc (ev_message ev = ''task_response'' \<and> ev_payload_preview ev \<noteq> []) (record_response env ev))
     (ret (Some (JObj [(''action'', JStr ''message''), (''from_pid'', JInt (ev_pid ev)), (''to_pid'', JInt (ev_ppid ev)),
        (''from_name'', JStr (ev_name ev)), (''to_name'', JStr (ev_role ev)), (''type'', JStr (ev_message ev)),
        (''reply_to'', JStr (ev_reply_to ev)), (''payload_preview'', JStr (ev_payload_preview ev)),
        (''ts'', JInt (ev_timestamp_ms ev)), (''trace_id'', JStr (ev_trace_id ev)),
        (''trace_span'', JStr (ev_trace_span ev)), (''message_id'', JStr (ev_message_id ev))])))))"

section \<open>Applying an event\<close>

definition dispatch_event :: "env \<Rightarrow> (string \<Rightarrow> rat option) \<Rightarrow> (rat \<Rightarrow> string) \<Rightarrow> event \<Rightarrow> ('z dash_scheme, json option) eff" where
  "dispatch_event env pyfloat frepr ev =
     (if ev_type ev = ''spawned'' then apply_spawned ev
      else if ev_type ev = ''state_changed'' then apply_state_changed ev
      else if ev_type ev = ''removed'' then apply_removed ev
      else if ev_type ev = ''log'' then apply_log ev
      else if ev_type ev = ''llm_call'' then apply_llm_call pyfloat frepr ev
      else if ev_type ev = ''tool_call'' then apply_tool_call ev
      else if ev_type ev = ''cron_executed'' then apply_cron_executed ev
      else if ev_type ev = ''message_delivered'' then apply_message_delivered env ev
      else if ev_type ev = ''message_sent'' then apply_message_sent env ev
      else ret None)"

definition apply_event :: "env \<Rightarrow> (string \<Rightarrow> rat option) \<Rightarrow> (rat \<Rightarrow> string) \<Rightarrow> event \<Rightarrow> ('z dash_scheme, json option) eff" where
  "apply_event env pyfloat frepr ev =
     seq (modify (\<lambda>s. s\<lparr>last_seq := ev_seq ev, trace_log := add_trace ev (trace_log s)\<rparr>))
       (dispatch_event env pyfloat frepr ev)"

definition make_lifecycle_log :: "event \<Rightarrow> (pid, node) dict \<Rightarrow> json option" where
  "make_lifecycle_log ev d =
     (if ev_type ev = ''spawned'' then Some (log_delta ev (ev_name ev) ''info''
        (''Process spawned (role='' @ ev_role ev @ '', model='' @ ev_model ev @ '')'') [])
      else if ev_type ev = ''state_changed'' then Some (log_delta ev
        (case map_of d (ev_pid ev) of None \<Rightarrow> [] | Some n \<Rightarrow> nd_name n) ''info''
        (''State: '' @ ev_old_state ev @ '' -> '' @ ev_new_state ev) [])
      else if ev_type ev = ''removed'' then Some (log_delta ev [] ''info'' ''Process removed (reaped)'' [])
      else None)"

definition apply_events :: "env \<Rightarrow> (string \<Rightarrow> rat option) \<Rightarrow> (rat \<Rightarrow> string) \<Rightarrow> event list \<Rightarrow> 'z dash_scheme \<Rightarrow> 'z dash_scheme" where
  "apply_events env pyfloat frepr evs s = foldl (\<lambda>s ev. final (apply_event env pyfloat frepr ev) s) s evs"

section \<open>The tree under events\<close>

text \<open>What an event does to the tree alone, and to the set of live pids.\<close>

definition tree_step :: "event \<Rightarrow> (pid, node) dict \<Rightarrow> (pid, node) dict" where
  "tree_step ev d =
     (if ev_type ev = ''spawned'' then tree_spawned ev d
      else if ev_type ev = ''state_changed'' then tree_state_changed ev d
      else if ev_type ev = ''removed'' then tree_removed ev d
      else d)"

definition live_step :: "pid set \<Rightarrow> event \<Rightarrow> pid set" where
  "live_step ps ev =
     (if ev_type ev = ''spawned'' then insert (ev_pid ev) ps
      else if ev_type ev = ''removed'' then ps - {ev_pid ev}
      else ps)"

lemma traceless_dash: "traceless tree_cache" "traceless message_log" "traceless task_history" "traceless trace_log"
  "traceless last_seq" "traceless llm_usage" "traceless ws_clients" "traceless ws_sent"
  by (simp_all add: traceless_def emit_def)

lemma keeps_now_ms [keeps_rules]: "traceless f \<Longrightarrow> keeps f (now_ms env)"
  unfolding now_ms_def by (intro keeps_rules)

lemma keeps_msg_log:
  "keeps tree_cache (record_task env p n d r ok e ms)" "keeps tree_cache (record_message env f t fn tn ty rt pp ti ts)"
  "keeps message_log (record_task env p n d r ok e ms)" "keeps task_history (record_message env f t fn tn ty rt pp ti ts)"
  "keeps trace_log (record_task env p n d r ok e ms)" "keeps trace_log (record_message env f t fn tn ty rt pp ti ts)"
  "keeps last_seq (record_task env p n d r ok e ms)" "keeps last_seq (record_message env f t fn tn ty rt pp ti ts)"
  unfolding record_task_def record_message_def
  by (intro keeps_rules keeps_modify traceless_dash; simp add: push_task_def push_message_def)+

lemma keeps_response:
  "keeps tree_cache (record_response env ev)" "keeps message_log (record_response env ev)"
  "keeps trace_log (record_response env ev)" "keeps last_seq (record_response env ev)"
  unfolding record_response_def by (intro keeps_rules keeps_msg_log)+

lemma keeps_tree:
  "keeps tree_cache (apply_log ev)" "keeps tree_cache (typed_log ev l m)"
  "keeps tree_cache (apply_llm_call pyfloat frepr ev)" "keeps tree_cache (apply_tool_call ev)"
  "keeps tree_cache (apply_cron_executed ev)" "keeps tree_cache (apply_message_delivered env ev)"
  "keeps tree_cache (apply_message_sent env ev)"
  unfolding apply_log_def typed_log_def apply_llm_call_def apply_tool_call_def apply_cron_executed_def
    apply_message_delivered_def apply_message_sent_def
  by (intro keeps_rules keeps_modify keeps_msg_log keeps_response traceless_dash; simp)+

lemma upd_node_missing: "\<not> dmem d p \<Longrightarrow> upd_node p f d = d"
  by (auto simp: upd_node_def dmem_map_of split: option.splits)

lemma tree_process_events:
  "tree_cache (final (apply_spawned ev) s) = tree_spawned ev (tree_cache s)"
  "tree_cache (final (apply_state_changed ev) s) = tree_state_changed ev (tree_cache s)"
  "tree_cache (final (apply_removed ev) s) = tree_removed ev (tree_cache s)"
  by (auto simp: apply_spawned_def apply_removed_def apply_state_changed_def upd_tree_def
      tree_state_changed_def upd_node_missing eff_defs)

lemma tree_apply_event:
  "tree_cache (final (apply_event env pyfloat frepr ev) s) = tree_step ev (tree_cache s)"
proof -
  let ?s = "s\<lparr>last_seq := ev_seq ev, trace_log := add_trace ev (trace_log s)\<rparr>"
  have "tree_cache (final (dispatch_event env pyfloat frepr ev) ?s) = tree_step ev (tree_cache ?s)"
    by (simp add: dispatch_event_def tree_step_def tree_process_events keeps_tree[THEN keepsD] keeps_ret[THEN keepsD])
  then show ?thesis by (simp add: apply_event_def eff_defs)
qed

lemma tree_apply_events:
  "tree_cache (apply_events env pyfloat frepr evs s) = foldl (\<lambda>d ev. tree_step ev d) (tree_cache s) evs"
  unfolding apply_events_def by (induction evs arbitrary: s) (simp_all add: tree_apply_event)

text \<open>Every node is filed once, under its own pid.\<close>

definition tree_ok :: "(pid, node) dict \<Rightarrow> bool" where
  "tree_ok d \<longleftrightarrow> dict_ok d \<and> (\<forall>p n. map_of d p = Some n \<longrightarrow> nd_pid n = p)"

lemma upd_node_map:
  "dict_ok d \<Longrightarrow> upd_node p f d = map (\<lambda>(q, n). (q, if q = p then f n else n)) d"
proof (induction d)
  case (Cons x d)
  obtain q n where x: "x = (q, n)" by (cases x)
  have ok: "dict_ok d" "\<not> dmem d q" using Cons.prems x by (auto simp: dict_ok_def dmem_def)
  have "map (\<lambda>(q', n). (q', if q' = q then f n else n)) d = d"
    using ok(2) by (intro map_idI) (force simp: dmem_def)
  with Cons.IH[OF ok(1)] x ok(2) show ?case
    by (auto simp: upd_node_def dmem_map_of split: option.splits)
qed (simp add: upd_node_def)

lemma keys_upd_node [simp]: "fst ` set (upd_node p f d) = fst ` set d"
  by (auto simp: upd_node_def dest: map_of_SomeD split: option.splits) (force dest: map_of_SomeD)

lemma dict_ok_upd_node [simp]: "dict_ok d \<Longrightarrow> dict_ok (upd_node p f d)"
  by (auto simp: upd_node_def split: option.splits)

lemma keys_tree_step: "fst ` set (tree_step ev d) = live_step (fst ` set d) ev"
  by (auto simp: tree_step_def live_step_def tree_spawned_def tree_state_changed_def tree_removed_def
      split: option.splits dest: map_of_SomeD) (force simp: map_of_eq_None_iff)+

lemma tree_ok_upd_node: "tree_ok d \<Longrightarrow> (\<And>n. nd_pid (f n) = nd_pid n) \<Longrightarrow> tree_ok (upd_node p f d)"
  by (auto simp: tree_ok_def upd_node_def split: option.splits if_splits)

lemma tree_ok_dset: "tree_ok d \<Longrightarrow> nd_pid n = p \<Longrightarrow> tree_ok (dset p n d)"
  by (auto simp: tree_ok_def)

lemma tree_ok_ddel: "tree_ok d \<Longrightarrow> tree_ok (ddel p d)"
  by (auto simp: tree_ok_def split: if_splits)

lemma tree_ok_step: "tree_ok d \<Longrightarrow> tree_ok (tree_step ev d)"
  by (auto simp: tree_step_def tree_spawned_def tree_state_changed_def tree_removed_def spawned_node_def
      intro!: tree_ok_upd_node tree_ok_dset tree_ok_ddel split: option.splits)

text \<open>
  C33.  The tree cache follows the kernel's events: after any sequence of events, also when
  some of them raise, the pids in the cache are the ones it held at the start with each
  spawned pid added and each removed pid taken away, in the order of the events, and
  every node is filed once, under its own pid.
\<close>

theorem tree_follows_events:
  assumes "tree_ok (tree_cache s)"
  shows "fst ` set (tree_cache (apply_events env pyfloat frepr evs s)) = foldl live_step (fst ` set (tree_cache s)) evs \<and>
    tree_ok (tree_cache (apply_events env pyfloat frepr evs s))"
  unfolding tree_apply_events using assms
  by (induction evs arbitrary: s rule: rev_induct) (simp_all add: keys_tree_step tree_ok_step)

definition example_event :: "string \<Rightarrow> pid \<Rightarrow> pid \<Rightarrow> event" where
  "example_event ty p pp = \<lparr>ev_seq = 1, ev_timestamp_ms = 0, ev_type = ty, ev_pid = p, ev_ppid = pp, ev_name = ''w'',
     ev_role = ''worker'', ev_tier = ''operational'', ev_model = [], ev_state = [], ev_old_state = [], ev_new_state = [],
     ev_level = [], ev_message = [], ev_fields = [], ev_reply_to = [], ev_payload_preview = [], ev_message_id = [],
     ev_trace_id = [], ev_trace_span = []\<rparr>"

theorem tree_follows_events_witness:
  "fst ` set (tree_cache (apply_events example_env (\<lambda>_. None) (\<lambda>_. []) [example_event ''spawned'' 1 0,
      example_event ''spawned'' 2 1, example_event ''removed'' 2 1] dash_init)) = {1}"
proof -
  have "tree_ok (tree_cache dash_init)" by (simp add: tree_ok_def dash_init_def)
  from tree_follows_events[OF this, of example_env "\<lambda>_. None" "\<lambda>_. []" "[example_event ''spawned'' 1 0,
      example_event ''spawned'' 2 1, example_event ''removed'' 2 1]"] show ?thesis
    by (simp add: live_step_def example_event_def dash_init_def)
qed

section \<open>Child counts\<close>

definition children :: "(pid, node) dict \<Rightarrow> pid \<Rightarrow> nat" where
  "children d p = length (filter (\<lambda>(_, n). nd_ppid n = p) d)"

text \<open>Every node shows the number of its children in the cache.\<close>

definition counts_ok :: "(pid, node) dict \<Rightarrow> bool" where
  "counts_ok d \<longleftrightarrow> dict_ok d \<and> (\<forall>(p, n) \<in> set d. nd_child_count n = int (children d p))"

text \<open>The kernel numbers processes upwards, and a parent is older than its child.\<close>

fun kernel_pids :: "pid \<Rightarrow> event list \<Rightarrow> bool" where
  "kernel_pids newest [] = True"
| "kernel_pids newest (ev # evs) =
     (if ev_type ev = ''spawned'' then newest < ev_pid ev \<and> ev_ppid ev < ev_pid ev \<and> kernel_pids (ev_pid ev) evs
      else kernel_pids newest evs)"

definition pids_below :: "pid \<Rightarrow> (pid, node) dict \<Rightarrow> bool" where
  "pids_below newest d \<longleftrightarrow> (\<forall>(p, n) \<in> set d. p \<le> newest \<and> nd_ppid n \<le> newest)"

lemma children_append [simp]: "children (d @ [(p, n)]) q = children d q + (if nd_ppid n = q then 1 else 0)"
  by (simp add: children_def)

lemma children_map:
  "(\<And>q n. nd_ppid (f q n) = nd_ppid n) \<Longrightarrow> children (map (\<lambda>(q, n). (q, f q n)) d) p = children d p"
  by (induction d) (auto simp: children_def)

lemma children_ddel:
  "dict_ok d \<Longrightarrow> map_of d p = Some n \<Longrightarrow>
   int (children (ddel p d) q) = int (children d q) - (if nd_ppid n = q then 1 else 0)"
proof (induction d)
  case (Cons x d)
  obtain k m where x: "x = (k, m)" by (cases x)
  have ok: "dict_ok d" "map_of d k = None" using Cons.prems(1) x by (auto simp: dict_ok_def map_of_eq_None_iff)
  show ?case
  proof (cases "k = p")
    case True
    have "ddel p d = d" using ok(2) True by (simp add: delete_id map_of_eq_None_iff)
    with True Cons.prems x show ?thesis by (simp add: children_def)
  next
    case False
    with Cons.IH[OF ok(1)] Cons.prems x show ?thesis by (cases "nd_ppid n = q") (simp_all add: children_def)
  qed
qed simp

text \<open>A change of a node's count by the change in the number of its children keeps the counts right.\<close>

lemma counts_upd_node:
  assumes "dict_ok d" "\<And>n. nd_ppid (f n) = nd_ppid n"
    "\<And>p n. (p, n) \<in> set d \<Longrightarrow> (if p = q then nd_child_count (f n) else nd_child_count n) = int (children d p)"
  shows "counts_ok (upd_node q f d)"
proof -
  have "children (upd_node q f d) p = children d p" for p
    unfolding upd_node_map[OF assms(1)]
    using children_map[where f = "\<lambda>k n. if k = q then f n else n" and d = d and p = p] assms(2) by simp
  then show ?thesis unfolding counts_ok_def using assms(1) assms(3)[symmetric]
    by (auto simp: upd_node_map[OF assms(1)] dict_ok_def split_beta comp_def)
qed

lemma pids_below_upd_node:
  "dict_ok d \<Longrightarrow> pids_below newest d \<Longrightarrow> (\<And>n. nd_ppid (f n) = nd_ppid n) \<Longrightarrow> pids_below newest (upd_node q f d)"
  by (auto simp: pids_below_def upd_node_map split_beta)

lemma counts_spawned:
  assumes "counts_ok d" "pids_below newest d" "newest < ev_pid ev" "ev_ppid ev < ev_pid ev"
  shows "counts_ok (tree_spawned ev d) \<and> pids_below (ev_pid ev) (tree_spawned ev d)"
proof -
  let ?p = "ev_pid ev" and ?n = "spawned_node ev"
  have fresh: "\<not> dmem d ?p" and none: "children d ?p = 0"
    using assms(2,3) by (force simp: dmem_def pids_below_def children_def filter_empty_conv)+
  have n: "nd_ppid ?n = ev_ppid ev" "nd_child_count ?n = 0" by (simp_all add: spawned_node_def)
  have ok: "dict_ok (d @ [(?p, ?n)])" using assms(1) dset_fresh[OF fresh, of ?n] dict_ok_dset[of d ?p ?n]
    by (simp add: counts_ok_def)
  have "counts_ok (tree_spawned ev d)" unfolding tree_spawned_def dset_fresh[OF fresh]
    using assms(1,4) none n fresh by (intro counts_upd_node[OF ok]) (auto simp: counts_ok_def dmem_def)
  moreover have "pids_below ?p (d @ [(?p, ?n)])" using assms(2-4) n by (force simp: pids_below_def)
  ultimately show ?thesis unfolding tree_spawned_def dset_fresh[OF fresh]
    by (simp add: pids_below_upd_node[OF ok])
qed

lemma counts_removed:
  assumes "counts_ok d" "pids_below newest d"
  shows "counts_ok (tree_removed ev d) \<and> pids_below newest (tree_removed ev d)"
proof (cases "map_of d (ev_pid ev)")
  case (Some n)
  let ?d = "ddel (ev_pid ev) d"
  have ok: "dict_ok d" "dict_ok ?d" using assms(1) by (simp_all add: counts_ok_def)
  have sub: "set ?d \<subseteq> set d" by (auto simp: AList.delete_eq)
  have count: "nd_child_count m = int (children ?d p) + (if nd_ppid n = p then 1 else 0)" if "(p, m) \<in> set ?d" for p m
    using that sub assms(1) children_ddel[OF ok(1) Some, of p] by (auto simp: counts_ok_def)
  have "counts_ok (tree_removed ev d)" unfolding tree_removed_def using Some
    by (simp, intro counts_upd_node[OF ok(2)]) (auto dest: count)
  moreover have "pids_below newest ?d" using sub assms(2) by (auto simp: pids_below_def)
  ultimately show ?thesis using Some ok(2) by (simp add: tree_removed_def pids_below_upd_node)
qed (use assms in \<open>simp add: tree_removed_def\<close>)

lemma counts_state_changed:
  assumes "counts_ok d" "pids_below newest d"
  shows "counts_ok (tree_state_changed ev d) \<and> pids_below newest (tree_state_changed ev d)"
proof -
  have ok: "dict_ok d" using assms(1) by (simp add: counts_ok_def)
  have "counts_ok (tree_state_changed ev d)" unfolding tree_state_changed_def
    by (rule counts_upd_node[OF ok]) (use assms(1) in \<open>auto simp: counts_ok_def\<close>)
  moreover have "pids_below newest (tree_state_changed ev d)" unfolding tree_state_changed_def
    by (rule pids_below_upd_node[OF ok assms(2)]) simp
  ultimately show ?thesis ..
qed

lemma counts_events:
  "counts_ok d \<Longrightarrow> pids_below newest d \<Longrightarrow> kernel_pids newest evs \<Longrightarrow> counts_ok (foldl (\<lambda>d ev. tree_step ev d) d evs)"
proof (induction evs arbitrary: d newest)
  case (Cons ev evs)
  show ?case
  proof (cases "ev_type ev = ''spawned''")
    case True
    then have "tree_step ev d = tree_spawned ev d" by (simp add: tree_step_def)
    moreover have "newest < ev_pid ev" "ev_ppid ev < ev_pid ev" "kernel_pids (ev_pid ev) evs"
      using Cons.prems(3) True by auto
    ultimately show ?thesis using counts_spawned[OF Cons.prems(1,2)] Cons.IH by auto
  next
    case False
    with Cons.prems counts_removed counts_state_changed
    have "counts_ok (tree_step ev d) \<and> pids_below newest (tree_step ev d)" by (simp add: tree_step_def)
    moreover have "kernel_pids newest evs" using Cons.prems(3) False by simp
    ultimately show ?thesis using Cons.IH by auto
  qed
qed simp



section \<open>Bounds of the logs\<close>

definition dash_bounded :: "'z dash_scheme \<Rightarrow> bool" where
  "dash_bounded s \<longleftrightarrow> length (message_log s) \<le> MESSAGE_LOG_MAX \<and> length (task_history s) \<le> TASK_HISTORY_MAX \<and>
     length (trace_log s) \<le> MAX_TRACES"

lemma length_mark_first [simp]: "length (mark_first mid ts es) = length es"
  by (induction es) simp_all

lemma length_upd_last [simp]: "length (upd_last f xs) = length xs"
  by (simp add: upd_last_def)

lemma length_ddel_le: "length (ddel k d) \<le> length d"
  by (simp add: AList.delete_eq)

lemma add_trace_bound: "length l \<le> MAX_TRACES \<Longrightarrow> length (add_trace ev l) \<le> MAX_TRACES"
proof -
  assume le: "length l \<le> MAX_TRACES"
  have "length (open_trace t l) \<le> MAX_TRACES \<and> dmem (open_trace t l) t" for t
  proof (cases l)
    case Nil
    then show ?thesis by (simp add: open_trace_def dmem_def MAX_TRACES_def)
  next
    case (Cons p r)
    have "length (ddel (fst p) l) \<le> length r" using Cons length_ddel_le[of "fst p" r] by (cases p) simp
    then show ?thesis using le Cons
      by (auto simp: open_trace_def length_dset dmem_def simp del: AList.update.simps delete_simps)
  qed
  then show ?thesis using le by (simp add: add_trace_def Let_def length_dset)
qed

lemma keeps_trace_log:
  "keeps trace_log (dispatch_event env pyfloat frepr ev)" "keeps last_seq (dispatch_event env pyfloat frepr ev)"
  unfolding dispatch_event_def apply_log_def typed_log_def apply_llm_call_def apply_tool_call_def apply_cron_executed_def
    apply_message_delivered_def apply_message_sent_def apply_spawned_def apply_state_changed_def apply_removed_def upd_tree_def
  by (intro keeps_rules keeps_modify keeps_msg_log keeps_response traceless_dash; simp)+

text \<open>The two logs: an event that sends a message pushes onto them, no other event makes them longer.\<close>

definition logs_bounded :: "'z dash_scheme \<Rightarrow> bool" where
  "logs_bounded s \<longleftrightarrow> length (message_log s) \<le> MESSAGE_LOG_MAX \<and> length (task_history s) \<le> TASK_HISTORY_MAX"

lemma logs_bounded_push:
  "logs_bounded s \<Longrightarrow> logs_bounded (push_task s e)" "logs_bounded s \<Longrightarrow> logs_bounded (push_message s m)"
  using task_log.push_bound[of s e] msg_log.push_bound[of s m]
  by (simp_all add: logs_bounded_def push_task_def push_message_def)

lemma logs_bounded_upd [simp]:
  "logs_bounded (emit c s) = logs_bounded s" "logs_bounded (s\<lparr>tree_cache := d\<rparr>) = logs_bounded s"
  "logs_bounded (s\<lparr>llm_usage := u\<rparr>) = logs_bounded s"
  "logs_bounded (s\<lparr>message_log := upd_last f (message_log s)\<rparr>) = logs_bounded s"
  "logs_bounded (s\<lparr>message_log := rev (mark_first i ts (rev (message_log s)))\<rparr>) = logs_bounded s"
  "logs_bounded (s\<lparr>last_seq := n, trace_log := l\<rparr>) = logs_bounded s"
  by (simp_all add: logs_bounded_def emit_def)

lemma wp_logs_bounded:
  assumes "logs_bounded s"
  shows "wp (dispatch_event env pyfloat frepr ev) (\<lambda>_. logs_bounded) (\<lambda>_. logs_bounded) s"
  unfolding dispatch_event_def apply_log_def typed_log_def apply_llm_call_def apply_tool_call_def apply_cron_executed_def
    apply_message_delivered_def apply_message_sent_def apply_spawned_def apply_state_changed_def apply_removed_def
    upd_tree_def record_message_def record_response_def record_task_def now_ms_def
  using assms by (simp add: wp_simps logs_bounded_push split: option.splits sum.splits)

lemma bounded_apply_event:
  assumes "dash_bounded s"
  shows "dash_bounded (final (apply_event env pyfloat frepr ev) s)"
proof -
  let ?s = "s\<lparr>last_seq := ev_seq ev, trace_log := add_trace ev (trace_log s)\<rparr>"
  let ?t = "final (dispatch_event env pyfloat frepr ev) ?s"
  have "logs_bounded ?s" using assms by (simp add: dash_bounded_def logs_bounded_def)
  then have "logs_bounded ?t"
    using wp_logs_bounded[of ?s env pyfloat frepr ev] by (auto simp: wp_def final_def split: prod.splits sum.splits)
  moreover have "trace_log ?t = add_trace ev (trace_log s)" using keeps_trace_log(1)[THEN keepsD, of env pyfloat frepr ev ?s] by simp
  moreover have "length (add_trace ev (trace_log s)) \<le> MAX_TRACES"
    using assms add_trace_bound by (simp add: dash_bounded_def)
  ultimately show ?thesis by (simp add: dash_bounded_def logs_bounded_def apply_event_def eff_defs)
qed

lemma last_seq_apply_event: "last_seq (final (apply_event env pyfloat frepr ev) s) = ev_seq ev"
  using keeps_trace_log(2)[THEN keepsD, of env pyfloat frepr ev "s\<lparr>last_seq := ev_seq ev, trace_log := add_trace ev (trace_log s)\<rparr>"]
  by (simp add: apply_event_def eff_defs)

lemma apply_events_snoc:
  "apply_events env pyfloat frepr (evs @ [ev]) s = final (apply_event env pyfloat frepr ev) (apply_events env pyfloat frepr evs s)"
  by (simp add: apply_events_def)

text \<open>
  C35.  The dashboard's memory is bounded: after any sequence of events the message log and
  the task history hold at most 500 entries and the trace log at most 100 traces, and the
  sequence number to resume from is that of the last event, whether or not it raised.
\<close>

theorem dashboard_bounded:
  "dash_bounded (apply_events env pyfloat frepr evs dash_init) \<and>
   last_seq (apply_events env pyfloat frepr evs dash_init) = (if evs = [] then 0 else ev_seq (last evs))"
proof (induction evs rule: rev_induct)
  case Nil
  then show ?case by (simp add: apply_events_def dash_bounded_def dash_init_def)
next
  case (snoc ev evs)
  then show ?case by (simp add: apply_events_snoc bounded_apply_event last_seq_apply_event)
qed

section \<open>Messages\<close>

lemma mark_first_split:
  "mid \<noteq> [] \<Longrightarrow> Some mid \<in> me_message_id ` set es \<Longrightarrow>
   \<exists>pre e post. es = pre @ e # post \<and> me_message_id e = Some mid \<and> Some mid \<notin> me_message_id ` set pre \<and>
     mark_first mid ts es = pre @ e\<lparr>me_delivered_at := Some ts, me_state := Some ''delivered''\<rparr> # post"
proof (induction es)
  case (Cons x es)
  show ?case
  proof (cases "me_message_id x = Some mid")
    case True
    then show ?thesis using Cons.prems by (intro exI[of _ "[]"] exI[of _ x] exI[of _ es]) simp
  next
    case False
    then have "Some mid \<in> me_message_id ` set es" using Cons.prems(2) by auto
    with Cons.IH[OF Cons.prems(1)] obtain pre e post where
      "es = pre @ e # post" "me_message_id e = Some mid" "Some mid \<notin> me_message_id ` set pre"
      "mark_first mid ts es = pre @ e\<lparr>me_delivered_at := Some ts, me_state := Some ''delivered''\<rparr> # post" by blast
    with False show ?thesis by (intro exI[of _ "x # pre"] exI[of _ e] exI[of _ post]) auto
  qed
qed simp

lemma mark_last_split:
  assumes "mid \<noteq> []" "Some mid \<in> me_message_id ` set es"
  shows "\<exists>pre e post. es = pre @ e # post \<and> me_message_id e = Some mid \<and> Some mid \<notin> me_message_id ` set post \<and>
     rev (mark_first mid ts (rev es)) = pre @ e\<lparr>me_delivered_at := Some ts, me_state := Some ''delivered''\<rparr> # post"
proof -
  have "Some mid \<in> me_message_id ` set (rev es)" using assms(2) by simp
  from mark_first_split[OF assms(1) this, of ts] obtain pre e post where
    *: "rev es = pre @ e # post" "me_message_id e = Some mid" "Some mid \<notin> me_message_id ` set pre"
    "mark_first mid ts (rev es) = pre @ e\<lparr>me_delivered_at := Some ts, me_state := Some ''delivered''\<rparr> # post" by blast
  have "es = rev post @ e # rev pre" using arg_cong[OF *(1), of rev] by simp
  with * show ?thesis by (intro exI[of _ "rev post"] exI[of _ e] exI[of _ "rev pre"]) simp
qed

lemma known_message_iff: "known_message mid es \<longleftrightarrow> mid \<noteq> [] \<and> Some mid \<in> me_message_id ` set es"
  by (auto simp: known_message_def list_ex_iff image_iff) metis

text \<open>
  A delivery marks its message: a \<open>message_delivered\<close> event changes in the message log
  only the newest entry with its message id, which becomes delivered at the current time;
  an unknown or empty id changes nothing.
\<close>

theorem delivery_marks_newest:
  "if known_message (ev_message_id ev) (message_log s)
   then \<exists>pre e post. message_log s = pre @ e # post \<and> me_message_id e = Some (ev_message_id ev) \<and>
     Some (ev_message_id ev) \<notin> me_message_id ` set post \<and>
     message_log (final (apply_message_delivered env ev) s) = pre @
       e\<lparr>me_delivered_at := Some (int_of_rat (e_time env (trace s @ [Clock]) * 1000)), me_state := Some ''delivered''\<rparr> # post
   else message_log (final (apply_message_delivered env ev) s) = message_log s"
proof (cases "known_message (ev_message_id ev) (message_log s)")
  case True
  let ?ts = "int_of_rat (e_time env (trace s @ [Clock]) * 1000)"
  have "message_log (final (apply_message_delivered env ev) s) =
        rev (mark_first (ev_message_id ev) ?ts (rev (message_log s)))"
    using True by (simp add: apply_message_delivered_def now_ms_def time_time_def eff_defs emit_def)
  then show ?thesis using True mark_last_split[of "ev_message_id ev" "message_log s" ?ts]
    unfolding known_message_iff by simp
next
  case False
  then show ?thesis by (simp add: apply_message_delivered_def eff_defs)
qed

text \<open>
  A \<open>task_response\<close> whose payload is JSON but not an object makes \<open>apply_event\<close> raise
  \<open>AttributeError\<close>: only JSON errors are caught.  The message is logged before that, but
  there is no entry in the task history and no delta for the clients.
\<close>

theorem response_not_object_raises:
  assumes "ev_type ev = ''message_sent''" "ev_message ev = ''task_response''" "ev_payload_preview ev \<noteq> []"
    "loads (ev_payload_preview ev) = Some j" "\<not> is_JObj j"
  shows "result (apply_event env pyfloat frepr ev) s = Inl (AttributeError ''object has no attribute get'') \<and>
    task_history (final (apply_event env pyfloat frepr ev) s) = task_history s \<and>
    (\<exists>e. last (message_log (final (apply_event env pyfloat frepr ev) s)) = e \<and> me_message_id e = Some (ev_message_id ev))"
proof -
  have "response_parts (ev_payload_preview ev) = Inl (AttributeError ''object has no attribute get'')"
    using assms(4,5) by (cases j) (simp_all add: response_parts_def)
  with assms(1-3) show ?thesis
    by (simp add: apply_event_def dispatch_event_def apply_message_sent_def record_response_def record_message_def
        now_ms_def time_time_def lift_sum_def push_message_def upd_last_def trim_front_last_n MESSAGE_LOG_MAX_def
        last_n_snoc eff_defs emit_def)
qed

theorem response_not_object_raises_witness:
  "result (apply_event example_env (\<lambda>_. None) (\<lambda>_. []) ((example_event ''message_sent'' 2 3)
     \<lparr>ev_message := ''task_response'', ev_payload_preview := ''5''\<rparr>)) dash_init =
   Inl (AttributeError ''object has no attribute get'')"
proof -
  have "loads ''5'' = Some (JInt 5)" by code_simp
  then show ?thesis
    by (intro response_not_object_raises[THEN conjunct1, of _ "JInt 5"]) (simp_all add: example_event_def)
qed

end
