(* ===== verification/DashboardSync.thy ===== *)
theory DashboardSync
  imports Dashboard
begin

text \<open>
  How the dashboard keeps its cache and its clients up to date: \<open>full_resync\<close>,
  \<open>broadcast_delta\<close>, one round of \<open>event_listener\<close> and of \<open>safety_resync\<close>.  A send to a
  websocket awaits, so other tasks run in between: \<open>others\<close> says what they do to the set
  of clients, given the sends so far, and \<open>sock\<close> whether the last send was accepted.
  Python's iteration over a set checks before every item, and before its end, that the
  set has the size it had at the start.  The kernel's event stream is the parameter
  \<open>feed\<close>: the events it delivers for a sequence number, and how it ends.
\<close>

type_synonym sends = "(nat \<times> string) list"

section \<open>Resynchronisation\<close>

definition king_call :: call where
  "king_call = Rpc (md 1) (Some 5) (ProcessInfoRequest 1)"

definition children_call :: call where
  "children_call = Rpc (md 1) (Some 5) (ListChildrenRequest True)"

definition build_cache :: "(rat \<Rightarrow> string) \<Rightarrow> proc_info list \<Rightarrow> (pid, node) dict" where
  "build_cache frepr ps = foldl (\<lambda>d p. dset (pi_pid p) (proc_to_dict frepr p) d) [] ps"

definition full_resync :: "env \<Rightarrow> (rat \<Rightarrow> string) \<Rightarrow> ('z dash_scheme, bool) eff" where
  "full_resync env frepr = tryc
     (bnd (ask_env (e_info env) king_call) (\<lambda>king. bnd (ask_env (e_children env) children_call) (\<lambda>cs.
      seq (upd_tree (\<lambda>_. build_cache frepr (king # cs))) (ret True))))
     (\<lambda>_. ret False)"

section \<open>Clients\<close>

fun send_each :: "(sends \<Rightarrow> bool) \<Rightarrow> (sends \<Rightarrow> nat list \<Rightarrow> nat list) \<Rightarrow> nat \<Rightarrow> string \<Rightarrow> nat list \<Rightarrow> nat list \<Rightarrow>
    ('z dash_scheme, nat list) eff" where
  "send_each sock others n msg [] dead = bnd (gets ws_clients) (\<lambda>cs.
     if length cs \<noteq> n then throw (RuntimeError ''Set changed size during iteration'') else ret dead)"
| "send_each sock others n msg (w # ws) dead = bnd (gets ws_clients) (\<lambda>cs.
     if length cs \<noteq> n then throw (RuntimeError ''Set changed size during iteration'')
     else seq (modify (\<lambda>s. s\<lparr>ws_sent := ws_sent s @ [(w, msg)],
                         ws_clients := others (ws_sent s @ [(w, msg)]) (ws_clients s)\<rparr>))
       (bnd (gets ws_sent) (\<lambda>h. send_each sock others n msg ws (if sock h then dead else dead @ [w]))))"

definition send_all :: "(sends \<Rightarrow> bool) \<Rightarrow> (sends \<Rightarrow> nat list \<Rightarrow> nat list) \<Rightarrow> string \<Rightarrow> ('z dash_scheme, unit) eff" where
  "send_all sock others msg = bnd (gets ws_clients) (\<lambda>cs. bnd (send_each sock others (length cs) msg cs []) (\<lambda>dead.
     modify (\<lambda>s. s\<lparr>ws_clients := filter (\<lambda>w. w \<notin> set dead) (ws_clients s)\<rparr>)))"

definition broadcast_delta :: "(sends \<Rightarrow> bool) \<Rightarrow> (sends \<Rightarrow> nat list \<Rightarrow> nat list) \<Rightarrow> json \<Rightarrow> ('z dash_scheme, unit) eff" where
  "broadcast_delta sock others delta =
     send_all sock others (dumps True (JObj [(''type'', JStr ''delta''), (''data'', delta)]))"

section \<open>The event listener\<close>

definition handle_event :: "env \<Rightarrow> (string \<Rightarrow> rat option) \<Rightarrow> (rat \<Rightarrow> string) \<Rightarrow> (sends \<Rightarrow> bool) \<Rightarrow>
    (sends \<Rightarrow> nat list \<Rightarrow> nat list) \<Rightarrow> event \<Rightarrow> ('z dash_scheme, unit) eff" where
  "handle_event env pyfloat frepr sock others ev = bnd (apply_event env pyfloat frepr ev) (\<lambda>delta.
     seq (case delta of None \<Rightarrow> ret () | Some d \<Rightarrow> broadcast_delta sock others d)
     (whenc (ev_type ev \<in> {''spawned'', ''state_changed'', ''removed''}) (bnd (gets tree_cache) (\<lambda>d.
        case make_lifecycle_log ev d of None \<Rightarrow> ret () | Some l \<Rightarrow> broadcast_delta sock others l))))"

definition listener_round :: "env \<Rightarrow> (string \<Rightarrow> rat option) \<Rightarrow> (rat \<Rightarrow> string) \<Rightarrow> (sends \<Rightarrow> bool) \<Rightarrow>
    (sends \<Rightarrow> nat list \<Rightarrow> nat list) \<Rightarrow> (int \<Rightarrow> event list \<times> exn option) \<Rightarrow> ('z dash_scheme, unit) eff" where
  "listener_round env pyfloat frepr sock others feed = tryc
     (seq (full_resync env frepr) (bnd (gets last_seq) (\<lambda>n.
      seq (foreach (handle_event env pyfloat frepr sock others) (fst (feed n)))
        (case snd (feed n) of None \<Rightarrow> ret () | Some e \<Rightarrow> throw e))))
     (\<lambda>_. ret ())"

section \<open>The safety net\<close>

definition safety_round :: "env \<Rightarrow> (rat \<Rightarrow> string) \<Rightarrow> (sends \<Rightarrow> bool) \<Rightarrow> (sends \<Rightarrow> nat list \<Rightarrow> nat list) \<Rightarrow>
    ('z dash_scheme, unit) eff" where
  "safety_round env frepr sock others = bnd (gets tree_cache) (\<lambda>d. if d = [] then ret ()
     else tryc (seq (ask_env (e_info env) king_call) (bnd (ask_env (e_children env) children_call) (\<lambda>cs.
       bnd (gets tree_cache) (\<lambda>d.
       if insert 1 (pi_pid ` set cs) \<noteq> fst ` set d
       then seq (full_resync env frepr) (bnd (gets get_tree_response) (\<lambda>r.
         send_all sock others (dumps True (JObj [(''type'', JStr ''tree''), (''data'', r)]))))
       else ret ()))))
       (\<lambda>_. ret ()))"

section \<open>What a broadcast does\<close>

text \<open>A send touches the clients and the record of sends, nothing else.\<close>

definition ws_free :: "('z dash_scheme \<Rightarrow> 'x) \<Rightarrow> bool" where
  "ws_free f \<longleftrightarrow> (\<forall>s h c. f (s\<lparr>ws_sent := h, ws_clients := c\<rparr>) = f s) \<and> (\<forall>s c. f (s\<lparr>ws_clients := c\<rparr>) = f s)"

lemma ws_free_dash: "ws_free tree_cache" "ws_free last_seq" "ws_free message_log" "ws_free task_history"
  by (simp_all add: ws_free_def)

lemma keeps_send_each [keeps_rules]: "ws_free f \<Longrightarrow> keeps f (send_each sock others n msg ws dead)"
  unfolding ws_free_def
proof (induction ws arbitrary: dead)
  case (Cons w ws)
  then show ?case unfolding send_each.simps by (intro keeps_rules keeps_modify) auto
qed (simp add: keeps_rules)

lemma keeps_send_all [keeps_rules]: "ws_free f \<Longrightarrow> keeps f (send_all sock others msg)"
  unfolding send_all_def by (intro keeps_rules keeps_modify) (auto simp: ws_free_def)

lemma keeps_broadcast [keeps_rules]: "ws_free f \<Longrightarrow> keeps f (broadcast_delta sock others d)"
  unfolding broadcast_delta_def by (intro keeps_rules)

lemma wp_send_each_quiet:
  "length (ws_clients s) = n \<Longrightarrow>
   wp (send_each (\<lambda>h. up (fst (last h))) (\<lambda>_ cs. cs) n msg ws dead)
     (\<lambda>v t. v = dead @ filter (\<lambda>w. \<not> up w) ws \<and> ws_clients t = ws_clients s \<and>
        ws_sent t = ws_sent s @ map (\<lambda>w. (w, msg)) ws) (\<lambda>_ _. False) s"
proof (induction ws arbitrary: s dead)
  case (Cons w ws)
  let ?s = "s\<lparr>ws_sent := ws_sent s @ [(w, msg)], ws_clients := ws_clients s\<rparr>"
  have "length (ws_clients ?s) = n" using Cons.prems by simp
  from Cons.IH[OF this, of "if up w then dead else dead @ [w]"] Cons.prems show ?case
    by (cases "up w") (simp_all add: wp_simps)
qed (simp add: wp_simps)

lemma wp_send_all_quiet:
  "wp (send_all (\<lambda>h. up (fst (last h))) (\<lambda>_ cs. cs) msg)
     (\<lambda>_ t. ws_clients t = filter up (ws_clients s) \<and> ws_sent t = ws_sent s @ map (\<lambda>w. (w, msg)) (ws_clients s))
     (\<lambda>_ _. False) s"
  unfolding send_all_def wp_bnd wp_gets wp_modify
  by (rule wp_mono[OF wp_send_each_quiet]) (auto intro!: filter_cong)

text \<open>
  A broadcast that no connect or disconnect interrupts sends its text to every client
  once, never raises, and drops exactly the clients whose socket refused it.
\<close>

theorem broadcast_drops_dead:
  "let m = broadcast_delta (\<lambda>h. up (fst (last h))) (\<lambda>_ cs. cs) delta;
       text = dumps True (JObj [(''type'', JStr ''delta''), (''data'', delta)]) in
   result m s = Inr () \<and> ws_clients (final m s) = filter up (ws_clients s) \<and>
   ws_sent (final m s) = ws_sent s @ map (\<lambda>w. (w, text)) (ws_clients s) \<and>
   tree_cache (final m s) = tree_cache s \<and> last_seq (final m s) = last_seq s"
proof -
  let ?text = "dumps True (JObj [(''type'', JStr ''delta''), (''data'', delta)])"
  let ?m = "broadcast_delta (\<lambda>h. up (fst (last h))) (\<lambda>_ cs. cs) delta"
  have "result ?m s = Inr () \<and> ws_clients (final ?m s) = filter up (ws_clients s) \<and>
      ws_sent (final ?m s) = ws_sent s @ map (\<lambda>w. (w, ?text)) (ws_clients s)"
    using wp_send_all_quiet[of up ?text s] unfolding broadcast_delta_def
    by (auto simp: wp_def result_def final_def split: prod.splits sum.splits)
  moreover have "tree_cache (final ?m s) = tree_cache s" "last_seq (final ?m s) = last_seq s"
    by (intro keepsD keeps_rules ws_free_dash)+
  ultimately show ?thesis unfolding Let_def by blast
qed

text \<open>
  A client that connects while a broadcast waits for a socket makes the broadcast raise
  \<open>RuntimeError\<close> at its next step: the clients that come after in the iteration do not
  get the text, and the ones that refused it are not dropped.
\<close>

theorem broadcast_join_raises:
  assumes "ws_clients s = w # ws" "others (ws_sent s @ [(w, msg)]) (w # ws) = new # w # ws"
  shows "result (send_all sock others msg) s = Inl (RuntimeError ''Set changed size during iteration'') \<and>
    ws_sent (final (send_all sock others msg) s) = ws_sent s @ [(w, msg)] \<and>
    ws_clients (final (send_all sock others msg) s) = new # w # ws"
  using assms by (cases ws) (simp_all add: send_all_def eff_defs)

theorem broadcast_join_raises_witness:
  "result (send_all (\<lambda>_. True) (\<lambda>h cs. if length h = 1 then 9 # cs else cs) ''hi'') (dash_init\<lparr>ws_clients := [3, 4]\<rparr>) =
     Inl (RuntimeError ''Set changed size during iteration'')"
  by (rule broadcast_join_raises[where w = 3 and ws = "[4]" and new = 9, THEN conjunct1])
    (simp_all add: dash_init_def)

section \<open>What a round of the listener does\<close>

text \<open>Whether applying an event raises depends on the event alone.\<close>

definition event_raises :: "(string \<Rightarrow> rat option) \<Rightarrow> event \<Rightarrow> bool" where
  "event_raises pyfloat ev \<longleftrightarrow>
     ev_type ev = ''llm_call'' \<and> (parse_int (dget (ev_fields ev) ''total_tokens'' ''0'') = None \<or>
        pyfloat (dget (ev_fields ev) ''latency_ms'' ''0'') = None) \<or>
     ev_type ev = ''message_sent'' \<and> ev_message ev = ''task_response'' \<and> ev_payload_preview ev \<noteq> [] \<and>
        (case response_parts (ev_payload_preview ev) of Inl _ \<Rightarrow> True
         | Inr (res, _, _) \<Rightarrow> (case slice_result res of Inl _ \<Rightarrow> True | Inr _ \<Rightarrow> False))"

lemma wp_response:
  "wp (record_response env ev) (\<lambda>_ _. \<not> event_raises pyfloat ev) (\<lambda>_ _. event_raises pyfloat ev) s"
  if "ev_type ev = ''message_sent''" "ev_message ev = ''task_response''" "ev_payload_preview ev \<noteq> []"
  using that unfolding record_response_def record_task_def now_ms_def event_raises_def
  by (auto simp: wp_simps split: sum.splits)

lemma wp_event_raises:
  "wp (apply_event env pyfloat frepr ev) (\<lambda>_ _. \<not> event_raises pyfloat ev) (\<lambda>_ _. event_raises pyfloat ev) s"
proof (cases "ev_type ev = ''message_sent''")
  case True
  show ?thesis
  proof (cases "ev_message ev = ''task_response'' \<and> ev_payload_preview ev \<noteq> []")
    case resp: True
    show ?thesis using True resp wp_response[of ev env pyfloat]
      by (simp add: apply_event_def dispatch_event_def apply_message_sent_def record_message_def now_ms_def wp_simps)
  next
    case False
    then have "\<not> event_raises pyfloat ev" using True by (auto simp: event_raises_def)
    then show ?thesis using True False
      by (auto simp: apply_event_def dispatch_event_def apply_message_sent_def record_message_def now_ms_def wp_simps)
  qed
next
  case False
  then show ?thesis
    unfolding apply_event_def dispatch_event_def apply_log_def typed_log_def apply_llm_call_def apply_tool_call_def
      apply_cron_executed_def apply_message_delivered_def apply_spawned_def apply_state_changed_def apply_removed_def
      upd_tree_def now_ms_def
    by (auto simp: wp_simps event_raises_def split: option.splits)
qed

lemma wp_send_each_calm:
  "length (ws_clients s) = n \<Longrightarrow> wp (send_each sock (\<lambda>_ cs. cs) n msg ws dead) (\<lambda>_ _. True) (\<lambda>_ _. False) s"
  by (induction ws arbitrary: s dead) (simp_all add: wp_simps)

lemma wp_broadcast_calm: "wp (broadcast_delta sock (\<lambda>_ cs. cs) d) (\<lambda>_ _. True) (\<lambda>_ _. False) s"
  unfolding broadcast_delta_def send_all_def wp_bnd wp_gets wp_modify by (rule wp_send_each_calm) simp

text \<open>The tree and the sequence number, which are what a round of the listener is about.\<close>

definition position :: "'z dash_scheme \<Rightarrow> (pid, node) dict \<times> int" where
  "position s = (tree_cache s, last_seq s)"

lemma ws_free_position: "ws_free position"
  by (simp add: ws_free_def position_def)

lemma wp_broadcast_position:
  "wp (broadcast_delta sock (\<lambda>_ cs. cs) d) (\<lambda>_ t. position t = position s) (\<lambda>_ _. False) s"
  using wp_conj[OF wp_broadcast_calm[of sock d s] wp_keeps[OF keeps_broadcast[OF ws_free_position], of s "\<lambda>_ t. position t = position s" "\<lambda>_ _. True"]]
  by (rule wp_mono) auto

definition event_step :: "(pid, node) dict \<times> int \<Rightarrow> event \<Rightarrow> (pid, node) dict \<times> int" where
  "event_step x ev = (tree_step ev (fst x), ev_seq ev)"

lemma wp_apply_event_position:
  "wp (apply_event env pyfloat frepr ev)
     (\<lambda>_ t. \<not> event_raises pyfloat ev \<and> position t = event_step (position s) ev)
     (\<lambda>_ t. event_raises pyfloat ev \<and> position t = event_step (position s) ev) s"
  using wp_event_raises[of env pyfloat frepr ev s] tree_apply_event[of env pyfloat frepr ev s]
    last_seq_apply_event[of env pyfloat frepr ev s]
  by (auto simp: wp_def final_def position_def event_step_def split: prod.splits sum.splits)

lemma wp_maybe_broadcast:
  "wp (case x of None \<Rightarrow> ret () | Some d \<Rightarrow> broadcast_delta sock (\<lambda>_ cs. cs) d)
     (\<lambda>_ t. position t = position s) (\<lambda>_ _. False) s"
  by (cases x) (simp_all add: wp_simps wp_broadcast_position)

lemma wp_handle_event:
  "wp (handle_event env pyfloat frepr sock (\<lambda>_ cs. cs) ev)
     (\<lambda>_ t. \<not> event_raises pyfloat ev \<and> position t = event_step (position s) ev)
     (\<lambda>_ t. event_raises pyfloat ev \<and> position t = event_step (position s) ev) s"
  for s :: "'z dash_scheme"
  unfolding handle_event_def wp_bnd
proof (rule wp_mono[OF wp_apply_event_position])
  fix v and t :: "'z dash_scheme"
  assume t: "\<not> event_raises pyfloat ev \<and> position t = event_step (position s) ev"
  show "wp (seq (case v of None \<Rightarrow> ret () | Some d \<Rightarrow> broadcast_delta sock (\<lambda>_ cs. cs) d)
      (whenc (ev_type ev \<in> {''spawned'', ''state_changed'', ''removed''}) (bnd (gets tree_cache) (\<lambda>d.
         case make_lifecycle_log ev d of None \<Rightarrow> ret () | Some l \<Rightarrow> broadcast_delta sock (\<lambda>_ cs. cs) l))))
      (\<lambda>_ t. \<not> event_raises pyfloat ev \<and> position t = event_step (position s) ev)
      (\<lambda>_ t. event_raises pyfloat ev \<and> position t = event_step (position s) ev) t"
    unfolding wp_seq
    by (rule wp_mono[OF wp_maybe_broadcast])
      (use t in \<open>auto simp: whenc_def wp_ret wp_bnd wp_gets intro!: wp_mono[OF wp_maybe_broadcast]\<close>)
qed auto

text \<open>The events that a round applies: all up to the first one that raises, and that one.\<close>

definition applied :: "(string \<Rightarrow> rat option) \<Rightarrow> event list \<Rightarrow> event list" where
  "applied pyfloat evs = takeWhile (\<lambda>ev. \<not> event_raises pyfloat ev) evs @
     take 1 (dropWhile (\<lambda>ev. \<not> event_raises pyfloat ev) evs)"

lemma applied_simps [simp]:
  "applied pyfloat [] = []"
  "applied pyfloat (ev # evs) = ev # (if event_raises pyfloat ev then [] else applied pyfloat evs)"
  by (simp_all add: applied_def)

lemma wp_handle_events:
  "wp (foreach (handle_event env pyfloat frepr sock (\<lambda>_ cs. cs)) evs)
     (\<lambda>_ t. position t = foldl event_step (position s) (applied pyfloat evs))
     (\<lambda>_ t. position t = foldl event_step (position s) (applied pyfloat evs)) s"
  for s :: "'z dash_scheme"
proof (induction evs arbitrary: s)
  case (Cons ev evs)
  show ?case unfolding foreach.simps wp_seq
  proof (rule wp_mono[OF wp_handle_event])
    fix v and t :: "'z dash_scheme"
    assume t: "\<not> event_raises pyfloat ev \<and> position t = event_step (position s) ev"
    show "wp (foreach (handle_event env pyfloat frepr sock (\<lambda>_ cs. cs)) evs)
        (\<lambda>_ u. position u = foldl event_step (position s) (applied pyfloat (ev # evs)))
        (\<lambda>_ u. position u = foldl event_step (position s) (applied pyfloat (ev # evs))) t"
      using Cons.IH[of t] t by simp
  qed auto
qed (simp add: wp_simps)

lemma foldl_event_step:
  "foldl event_step (d, n) evs = (foldl (\<lambda>d ev. tree_step ev d) d evs, if evs = [] then n else ev_seq (last evs))"
  by (induction evs rule: rev_induct) (simp_all add: event_step_def)

lemma keeps_resync: "keeps last_seq (full_resync env frepr)" "keeps ws_clients (full_resync env frepr)"
  unfolding full_resync_def upd_tree_def by (intro keeps_rules keeps_modify traceless_dash; simp)+

lemma resync_total: "\<exists>b t. full_resync env frepr s = (Inr b, t)"
  by (auto simp: full_resync_def eff_defs ask_env_def split: sum.splits prod.splits)

lemma listener_position:
  "result (listener_round env pyfloat frepr sock (\<lambda>_ cs. cs) feed) s = Inr ()"
  "tree_cache (final (listener_round env pyfloat frepr sock (\<lambda>_ cs. cs) feed) s) =
     foldl (\<lambda>d ev. tree_step ev d) (tree_cache (final (full_resync env frepr) s)) (applied pyfloat (fst (feed (last_seq s))))"
  "last_seq (final (listener_round env pyfloat frepr sock (\<lambda>_ cs. cs) feed) s) =
     (if applied pyfloat (fst (feed (last_seq s))) = [] then last_seq s
      else ev_seq (last (applied pyfloat (fst (feed (last_seq s))))))"
proof -
  let ?m = "listener_round env pyfloat frepr sock (\<lambda>_ cs. cs) feed" and ?evs = "applied pyfloat (fst (feed (last_seq s)))"
  obtain b r where r: "full_resync env frepr s = (Inr b, r)" using resync_total by blast
  have seq_r: "last_seq r = last_seq s" using keeps_snd[OF keeps_resync(1) r] .
  have "wp ?m (\<lambda>_ t. position t = foldl event_step (position r) ?evs) (\<lambda>_ _. False) s"
    using r seq_r wp_handle_events[of env pyfloat frepr sock "fst (feed (last_seq s))" r]
    by (auto simp: listener_round_def wp_simps wp_def[of "full_resync env frepr"] intro!: wp_mono split: option.splits)
  then have "result ?m s = Inr () \<and> tree_cache (final ?m s) = foldl (\<lambda>d ev. tree_step ev d) (tree_cache r) ?evs \<and>
      last_seq (final ?m s) = (if ?evs = [] then last_seq s else ev_seq (last ?evs))"
    using seq_r by (auto simp: wp_def result_def final_def position_def foldl_event_step split: prod.splits sum.splits)
  then show "result ?m s = Inr ()" "last_seq (final ?m s) = (if ?evs = [] then last_seq s else ev_seq (last ?evs))"
    "tree_cache (final ?m s) = foldl (\<lambda>d ev. tree_step ev d) (tree_cache (final (full_resync env frepr) s)) ?evs"
    using r by (simp_all add: final_def)
qed


section \<open>Resynchronisation against the kernel\<close>

lemma build_cache_snoc: "build_cache frepr (ps @ [p]) = dset (pi_pid p) (proc_to_dict frepr p) (build_cache frepr ps)"
  by (simp add: build_cache_def)

lemma keys_build_cache: "fst ` set (build_cache frepr ps) = pi_pid ` set ps"
proof (induction ps rule: rev_induct)
  case (snoc p ps)
  then show ?case by (simp add: build_cache_snoc)
qed (simp add: build_cache_def)

lemma map_of_build_cache:
  "pi_pid k \<notin> pi_pid ` set cs \<Longrightarrow> map_of (build_cache frepr (k # cs)) (pi_pid k) = Some (proc_to_dict frepr k)"
proof (induction cs rule: rev_induct)
  case (snoc c cs)
  then show ?case using build_cache_snoc[of frepr "k # cs" c] by auto
qed (simp add: build_cache_def)

lemma full_resync_ok:
  assumes "\<And>h. e_info env h = Inr king" "\<And>h. e_children env h = Inr cs"
  shows "wp (full_resync env frepr) (\<lambda>b t. b \<and> tree_cache t = build_cache frepr (king # cs)) (\<lambda>_ _. False) s"
  using assms by (simp add: full_resync_def upd_tree_def wp_simps)

text \<open>
  The safety net repairs drift: when the kernel answers with the king under pid 1 and its
  descendants, a round of \<open>safety_resync\<close> on a non-empty cache never raises and ends with
  exactly the kernel's pids in the cache, whatever happens on the websockets.
\<close>

theorem safety_resync_repairs:
  assumes "\<And>h. e_info env h = Inr king" "pi_pid king = 1" "\<And>h. e_children env h = Inr cs" "tree_cache s \<noteq> []"
  shows "result (safety_round env frepr sock others) s = Inr () \<and>
    fst ` set (tree_cache (final (safety_round env frepr sock others) s)) = insert 1 (pi_pid ` set cs)"
proof -
  let ?truth = "insert 1 (pi_pid ` set cs)"
  let ?Q = "\<lambda>t. fst ` set (tree_cache t) = ?truth"
  have send: "wp (bnd (gets get_tree_response) (\<lambda>r. send_all sock others (g r))) (\<lambda>_. ?Q) (\<lambda>_. ?Q) t"
    if "?Q t" for t :: "'a dash_scheme" and g
    by (rule wp_keeps[of tree_cache]) (use that in \<open>auto intro!: keeps_rules ws_free_dash\<close>)
  have resync: "wp (full_resync env frepr) (\<lambda>_. ?Q) (\<lambda>_ _. False) t" for t :: "'a dash_scheme"
    by (rule wp_mono[OF full_resync_ok[OF assms(1,3)]])
      (auto simp: keys_build_cache assms(2) image_iff)
  have "wp (safety_round env frepr sock others) (\<lambda>_. ?Q) (\<lambda>_ _. False) s"
  proof (cases "fst ` set (tree_cache s) = ?truth")
    case True
    then show ?thesis using assms by (simp add: safety_round_def wp_simps emit_def)
  next
    case False
    have "wp (full_resync env frepr) (\<lambda>_. wp (bnd (gets get_tree_response) (\<lambda>r. send_all sock others
        (dumps True (JObj [(''type'', JStr ''tree''), (''data'', r)])))) (\<lambda>_. ?Q) (\<lambda>_. ?Q)) (\<lambda>_. ?Q) t"
      for t :: "'a dash_scheme"
      by (rule wp_mono[OF resync]) (use send in auto)
    then show ?thesis using False assms
      by (simp add: safety_round_def wp_simps emit_def eq_commute[of ?truth] del: dumps.simps)
  qed
  then show ?thesis by (auto simp: wp_def result_def final_def split: prod.splits sum.splits)
qed

definition example_kernel :: env where
  "example_kernel = example_env\<lparr>e_info := \<lambda>_. Inr ((example_proc 1 0)\<lparr>pi_child_count := 1\<rparr>),
     e_children := \<lambda>_. Inr [example_proc 2 1]\<rparr>"

theorem safety_resync_repairs_witness:
  "fst ` set (tree_cache (final (safety_round example_kernel (\<lambda>_. ''0.0'') (\<lambda>_. True) (\<lambda>_ cs. cs))
     (dash_init\<lparr>tree_cache := build_cache (\<lambda>_. ''0.0'') [example_proc 7 1]\<rparr>))) = {1, 2}"
  by (subst safety_resync_repairs[where king = "(example_proc 1 0)\<lparr>pi_child_count := 1\<rparr>"
        and cs = "[example_proc 2 1]", THEN conjunct2])
    (auto simp: example_kernel_def example_proc_def build_cache_def)

text \<open>
  Resynchronising before subscribing counts children twice: the listener rebuilds the
  cache from the kernel and then asks for the events since its last one, so a process
  spawned in between is in the rebuilt cache and is spawned again by the stream, and its
  parent shows one child more than the kernel counts.
\<close>

theorem replayed_spawn_counts_twice:
  assumes "\<And>h. e_info env h = Inr king" "\<And>h. e_children env h = Inr cs"
    "pi_pid king \<notin> pi_pid ` set cs" "ev_pid ev \<in> pi_pid ` set cs"
    "ev_type ev = ''spawned''" "ev_ppid ev = pi_pid king" "fst (feed (last_seq s)) = [ev]"
  shows "\<exists>n. map_of (tree_cache (final (listener_round env pyfloat frepr sock (\<lambda>_ cs. cs) feed) s)) (pi_pid king) = Some n \<and>
    nd_child_count n = pi_child_count king + 1"
proof -
  let ?d = "build_cache frepr (king # cs)"
  have d: "tree_cache (final (full_resync env frepr) s) = ?d"
    using full_resync_ok[OF assms(1,2), of frepr s] by (auto simp: wp_def final_def split: prod.splits sum.splits)
  have "applied pyfloat [ev] = [ev]" by simp
  then have "tree_cache (final (listener_round env pyfloat frepr sock (\<lambda>_ cs. cs) feed) s) = tree_spawned ev ?d"
    using listener_position[of env pyfloat frepr sock feed s] assms(5,7) d by (simp add: tree_step_def)
  moreover have "ev_pid ev \<noteq> pi_pid king" using assms(3,4) by auto
  then have "map_of (tree_spawned ev ?d) (pi_pid king) =
      Some ((proc_to_dict frepr king)\<lparr>nd_child_count := pi_child_count king + 1\<rparr>)"
    using map_of_build_cache[OF assms(3), of frepr] assms(6)
    by (simp add: tree_spawned_def upd_node_def proc_to_dict_def)
  ultimately show ?thesis by simp
qed

theorem replayed_spawn_counts_twice_witness:
  "\<exists>n. map_of (tree_cache (final (listener_round example_kernel (\<lambda>_. None) (\<lambda>_. ''0.0'') (\<lambda>_. True) (\<lambda>_ cs. cs)
      (\<lambda>_. ([example_event ''spawned'' 2 1], None))) dash_init)) 1 = Some n \<and> nd_child_count n = 2"
  using replayed_spawn_counts_twice[of example_kernel "(example_proc 1 0)\<lparr>pi_child_count := 1\<rparr>" "[example_proc 2 1]"
      "example_event ''spawned'' 2 1" "\<lambda>_. ([example_event ''spawned'' 2 1], None)" dash_init "\<lambda>_. None" "\<lambda>_. ''0.0''" "\<lambda>_. True"]
  by (simp add: example_kernel_def example_proc_def example_event_def)

end
