(* ===== verification/DashboardApi.thy ===== *)
theory DashboardApi
  imports DashboardSync Assistant BuiltinTools
begin

text \<open>
  The REST endpoints and the websocket endpoint of \<open>dashboard/app.py\<close>.  A request body is
  an association list of JSON values; an endpoint returns a status and a JSON body, or
  raises an exception, which FastAPI answers with status 500.  Calls go to the kernel
  in the name of the king (pid 1), or of the parent of the process concerned, and an error
  of the RPC itself (\<open>AioRpcError\<close>) is caught.  A value of the wrong type makes the protobuf
  constructor raise; \<open>None\<close> leaves a field unset.
\<close>

section \<open>Answers and calls\<close>

record http_reply =
  hr_status :: int
  hr_body :: json

definition ok_reply :: "(string \<times> json) list \<Rightarrow> http_reply" where
  "ok_reply kvs = \<lparr>hr_status = 200, hr_body = JObj ((''ok'', JBool True) # kvs)\<rparr>"

definition error_reply :: "int \<Rightarrow> string \<Rightarrow> (string \<times> json) list \<Rightarrow> http_reply" where
  "error_reply code msg extra =
     \<lparr>hr_status = code, hr_body = JObj ([(''ok'', JBool False), (''error'', JStr msg)] @ extra)\<rparr>"

definition stub_call :: "(call list \<Rightarrow> exn + 'a) \<Rightarrow> (string \<times> string) list \<Rightarrow> int \<Rightarrow> request \<Rightarrow> ('z world_scheme, 'a) eff" where
  "stub_call f meta tmo r = ask_env f (Rpc meta (Some tmo) r)"

text \<open>\<open>except grpc.aio.AioRpcError as e\<close>, with \<open>e.details()\<close>.\<close>

definition rpc_catch :: "('s, 'a) eff \<Rightarrow> (string \<Rightarrow> ('s, 'a) eff) \<Rightarrow> ('s, 'a) eff" where
  "rpc_catch m h = tryc m (\<lambda>e. case e of RpcError d \<Rightarrow> h d | _ \<Rightarrow> throw e)"

text \<open>Values of protobuf fields: an \<open>int32\<close>, and a map of texts.\<close>

definition int32 :: "json \<Rightarrow> exn + int" where
  "int32 j = (case j of
      JInt i \<Rightarrow> if - (2 ^ 31) \<le> i \<and> i < 2 ^ 31 then Inr i else Inl (ValueError ''Value out of range'')
    | JBool b \<Rightarrow> Inr (if b then 1 else 0)
    | _ \<Rightarrow> Inl (TypeError ''bad argument type for built-in operation''))"

definition string_map :: "json \<Rightarrow> exn + params" where
  "string_map j = (case j of
      JNull \<Rightarrow> Inr []
    | JObj kvs \<Rightarrow> (case those (map (\<lambda>(k, v). case v of JStr t \<Rightarrow> Some (k, t) | _ \<Rightarrow> None) kvs) of
          Some ps \<Rightarrow> Inr ps | None \<Rightarrow> Inl (TypeError ''bad argument type for built-in operation''))
    | _ \<Rightarrow> Inl (TypeError ''bad argument type for built-in operation''))"

text \<open>\<open>task_text.strip()\<close> needs a text.\<close>

definition needs_text :: "json \<Rightarrow> exn + string" where
  "needs_text j = (case j of JStr t \<Rightarrow> Inr t | _ \<Rightarrow> Inl (AttributeError ''object has no attribute strip''))"

definition elapsed :: "env \<Rightarrow> rat \<Rightarrow> ('z world_scheme, int) eff" where
  "elapsed env start = bnd (time_time env) (\<lambda>now. ret (int_of_rat ((now - start) * 1000)))"

section \<open>Processes\<close>

definition tree_reply :: "('z dash_scheme, http_reply) eff" where
  "tree_reply = bnd (gets get_tree_response) (\<lambda>r. ret \<lparr>hr_status = 200, hr_body = r\<rparr>)"

definition api_tree :: "env \<Rightarrow> (rat \<Rightarrow> string) \<Rightarrow> ('z dash_scheme, http_reply) eff" where
  "api_tree env frepr = bnd (gets tree_cache) (\<lambda>d. if d \<noteq> [] then tree_reply
     else seq (full_resync env frepr) tree_reply)"

definition api_process :: "env \<Rightarrow> (rat \<Rightarrow> string) \<Rightarrow> int \<Rightarrow> ('z dash_scheme, http_reply) eff" where
  "api_process env frepr pid = rpc_catch
     (bnd (lift_sum (uint64 pid)) (\<lambda>p. bnd (stub_call (e_info env) (md 1) 5 (ProcessInfoRequest p)) (\<lambda>info.
        ret (ok_reply [(''process'', node_json (proc_to_dict frepr info))]))))
     (\<lambda>d. ret (error_reply 400 d []))"

text \<open>\<open>{v: k for k, v in NAMES.items()}.get(name, default)\<close>.\<close>

definition number_of :: "(int, string) dict \<Rightarrow> int \<Rightarrow> json \<Rightarrow> exn + int" where
  "number_of names d j = (case j of
      JStr t \<Rightarrow> Inr (dget (map (\<lambda>(k, v). (v, k)) names) t d)
    | JList _ \<Rightarrow> Inl (TypeError ''unhashable type: list'')
    | JObj _ \<Rightarrow> Inl (TypeError ''unhashable type: dict'')
    | _ \<Rightarrow> Inr d)"

definition api_spawn :: "env \<Rightarrow> (string, json) dict \<Rightarrow> ('z dash_scheme, http_reply) eff" where
  "api_spawn env body = rpc_catch
     (bnd (lift_sum (number_of DASH_ROLE_NAMES 5 (dget body ''role'' (JStr ''worker'')))) (\<lambda>role.
      bnd (lift_sum (number_of TIER_NAMES 2 (dget body ''tier'' (JStr ''operational'')))) (\<lambda>tier.
      bnd (lift_sum (result_text (dget body ''name'' (JStr ''new-agent'')))) (\<lambda>name.
      bnd (lift_sum (result_text (dget body ''model'' (JStr [])))) (\<lambda>model.
      bnd (lift_sum (result_text (dget body ''system_prompt'' (JStr [])))) (\<lambda>prompt.
      bnd (lift_sum (result_text (dget body ''runtime_image'' (JStr [])))) (\<lambda>image.
      bnd (stub_call (e_spawn env) [(''x-hivekernel-pid'', py_str (dget body ''parent_pid'' (JInt 1)))] 30
         (SpawnRequest \<lparr>sq_name = name, sq_role = role, sq_cognitive_tier = tier, sq_model = model,
            sq_system_prompt = prompt, sq_tools = [], sq_limits = None, sq_initial_task = [],
            sq_runtime_type = runtime_to_proto ''python'', sq_runtime_image = image\<rparr>)) (\<lambda>(ok, err, p).
        ret (if ok then ok_reply [(''child_pid'', JInt p)] else error_reply 400 err [])))))))))
     (\<lambda>d. ret (error_reply 500 d []))"

text \<open>The target's parent is looked up, and the kill is made in its name.\<close>

definition api_kill :: "env \<Rightarrow> int \<Rightarrow> ('z dash_scheme, http_reply) eff" where
  "api_kill env pid = rpc_catch
     (bnd (lift_sum (uint64 pid)) (\<lambda>p. bnd (stub_call (e_info env) (md 1) 5 (ProcessInfoRequest p)) (\<lambda>info.
      bnd (stub_call (e_kill env) (md (pi_ppid info)) 10 (KillRequest p True)) (\<lambda>(ok, err, ps).
        ret (if ok then ok_reply [(''killed_pids'', JList (map JInt ps))] else error_reply 400 err [])))))
     (\<lambda>d. ret (error_reply 500 d []))"

section \<open>Tasks\<close>

text \<open>
  What the three endpoints that run a task share: the task is executed on a process, and the
  outcome, a result, a refusal or an error of the RPC, is recorded in the task history with
  the time it took.  \<open>shown\<close> is the body for a result, \<open>extra\<close> is added to an error.
\<close>

definition run_recorded :: "env \<Rightarrow> pid \<Rightarrow> string \<Rightarrow> json \<Rightarrow> (exn + exec_request) \<Rightarrow> int \<Rightarrow>
    (task_result \<Rightarrow> (string \<times> json) list) \<Rightarrow> (string \<times> json) list \<Rightarrow> string \<Rightarrow> ('z dash_scheme, http_reply) eff" where
  "run_recorded env p name description req slack shown extra prefix = bnd (time_time env) (\<lambda>start. rpc_catch
     (bnd (lift_sum req) (\<lambda>q. bnd (stub_call (e_exec env) (md 1) (xq_timeout_seconds q + slack) (ExecuteRequest q)) (\<lambda>(ok, err, r).
      bnd (elapsed env start) (\<lambda>ms.
        if ok then seq (record_task env p name description (JStr (tr_output r)) True (JStr []) ms) (ret (ok_reply (shown r)))
        else seq (record_task env p name description (JStr []) False (JStr err) ms) (ret (error_reply 400 err extra))))))
     (\<lambda>d. bnd (elapsed env start) (\<lambda>ms.
        seq (record_task env p name description (JStr []) False (JStr d) ms) (ret (error_reply 500 (prefix @ d) extra)))))"

definition new_trace_id :: "env \<Rightarrow> ('z world_scheme, string) eff" where
  "new_trace_id env = bnd (uuid4 env) (\<lambda>u. ret (''t-'' @ hex8 u))"

text \<open>\<open>params\<close> gets a trace id unless it has one; what is no dict cannot take it.\<close>

definition traced_params :: "env \<Rightarrow> json \<Rightarrow> ('z world_scheme, json) eff" where
  "traced_params env j = (case j of
      JObj kvs \<Rightarrow> if dmem kvs ''trace_id'' then ret j
        else bnd (new_trace_id env) (\<lambda>t. ret (JObj (dset ''trace_id'' (JStr t) kvs)))
    | _ \<Rightarrow> throw (TypeError ''object does not support item assignment''))"

definition execute_request :: "int \<Rightarrow> json \<Rightarrow> json \<Rightarrow> json \<Rightarrow> exn + exec_request" where
  "execute_request pid description params timeout = (case uint64 pid of Inl e \<Rightarrow> Inl e | Inr p \<Rightarrow>
     (case result_text description of Inl e \<Rightarrow> Inl e | Inr d \<Rightarrow>
     (case string_map params of Inl e \<Rightarrow> Inl e | Inr ps \<Rightarrow>
     (case int32 timeout of Inl e \<Rightarrow> Inl e | Inr t \<Rightarrow>
        Inr \<lparr>xq_target_pid = p, xq_description = d, xq_params = ps, xq_timeout_seconds = t\<rparr>))))"

definition node_name :: "pid \<Rightarrow> string \<Rightarrow> 'z dash_scheme \<Rightarrow> string" where
  "node_name p d s = (case map_of (tree_cache s) p of None \<Rightarrow> d | Some n \<Rightarrow> nd_name n)"

definition api_execute :: "env \<Rightarrow> int \<Rightarrow> (string, json) dict \<Rightarrow> ('z dash_scheme, http_reply) eff" where
  "api_execute env pid body = (let description = dget body ''description'' (JStr ''Dashboard task'') in
     bnd (gets (node_name pid [])) (\<lambda>name. bnd (traced_params env (dget body ''params'' (JObj []))) (\<lambda>params.
     run_recorded env pid name description (execute_request pid description params (dget body ''timeout'' (JInt 60))) 10
       (\<lambda>r. [(''result'', task_result_json r)]) [] [])))"

text \<open>The Queen is a daemon child of the king; the Assistant is found by the start of its name.\<close>

definition find_queen_pid :: "(pid, node) dict \<Rightarrow> pid option" where
  "find_queen_pid d = map_option fst (find (\<lambda>(p, n). nd_ppid n = 1 \<and> nd_role n = ''daemon'' \<and> startswith (nd_name n) ''queen@'') d)"

definition find_agent_pid :: "string \<Rightarrow> (pid, node) dict \<Rightarrow> pid option" where
  "find_agent_pid name_prefix d = map_option fst (find (\<lambda>(p, n). startswith (nd_name n) name_prefix) d)"

definition get_sibling_pids :: "(pid, node) dict \<Rightarrow> (string, json) dict" where
  "get_sibling_pids d = foldl (\<lambda>r (p, n). if nd_role n = ''daemon'' \<and> nd_name n \<noteq> [] then dset (nd_name n) (JInt p) r else r) [] d"

definition run_task_request :: "pid \<Rightarrow> string \<Rightarrow> string \<Rightarrow> string \<Rightarrow> json \<Rightarrow> exn + exec_request" where
  "run_task_request p task mw trace_id timeout = execute_request p (JStr task)
     (JObj [(''task'', JStr task), (''max_workers'', JStr mw), (''trace_id'', JStr trace_id)]) timeout"

definition api_run_task :: "env \<Rightarrow> (string, json) dict \<Rightarrow> ('z dash_scheme, http_reply) eff" where
  "api_run_task env body = bnd (lift_sum (needs_text (dget body ''task'' (JStr [])))) (\<lambda>task.
     if strip task = [] then ret (error_reply 400 ''Task description is empty'' [])
     else bnd (gets tree_cache) (\<lambda>d. case find_queen_pid d of
         None \<Rightarrow> ret (error_reply 503 ''Queen not found in process tree'' [])
       | Some q \<Rightarrow> bnd (gets (node_name q ''queen'')) (\<lambda>name. bnd (new_trace_id env) (\<lambda>tid.
           run_recorded env q name (JStr task)
             (run_task_request q task (py_str (dget body ''max_workers'' (JInt 3))) tid (dget body ''timeout'' (JInt 300))) 30
             (\<lambda>r. [(''queen_pid'', JInt q), (''result'', task_result_json r)]) [(''queen_pid'', JInt q)] ''Execute error: ''))))"

definition chat_request :: "pid \<Rightarrow> string \<Rightarrow> json \<Rightarrow> (string, json) dict \<Rightarrow> string \<Rightarrow> exn + exec_request" where
  "chat_request p message history siblings trace_id = execute_request p (JStr message)
     (JObj [(''message'', JStr message), (''history'', JStr (dumps False history)),
        (''sibling_pids'', JStr (dumps True (JObj siblings))), (''trace_id'', JStr trace_id)]) (JInt 60)"

definition api_chat :: "env \<Rightarrow> (string, json) dict \<Rightarrow> ('z dash_scheme, http_reply) eff" where
  "api_chat env body = bnd (lift_sum (needs_text (dget body ''message'' (JStr [])))) (\<lambda>message.
     if strip message = [] then ret (error_reply 400 ''Empty message'' [])
     else bnd (gets tree_cache) (\<lambda>d. case find_agent_pid ''assistant'' d of
         None \<Rightarrow> ret (error_reply 503 ''Assistant agent not found'' [])
       | Some p \<Rightarrow> bnd (new_trace_id env) (\<lambda>tid.
           run_recorded env p ''assistant'' (JStr message)
             (chat_request p message (dget body ''history'' (JList [])) (get_sibling_pids d) tid) 10
             (\<lambda>r. [(''response'', JStr (tr_output r)), (''exit_code'', JInt (tr_exit_code r))]) [] [])))"

section \<open>Usage and logs\<close>

definition usage_json :: "(rat \<Rightarrow> string) \<Rightarrow> (pid, node) dict \<Rightarrow> pid \<times> usage \<Rightarrow> json" where
  "usage_json frepr d = (\<lambda>(p, u). JObj [(''pid'', JInt p),
     (''name'', JStr (case map_of d p of None \<Rightarrow> ''PID '' @ str_int p | Some n \<Rightarrow> nd_name n)),
     (''tokens'', JInt (us_tokens u)), (''calls'', JInt (us_calls u)),
     (''latency_ms'', JFloat (frepr (round1 (us_latency_ms u)))),
     (''avg_latency_ms'', JFloat (frepr (round1 (us_latency_ms u / of_int (max (us_calls u) 1)))))])"

text \<open>\<open>sort\<close> with \<open>reverse=True\<close> keeps the order of equal elements.\<close>

definition usage_entries :: "(pid, usage) dict \<Rightarrow> (pid \<times> usage) list" where
  "usage_entries us = sort_key (\<lambda>(p, u). - us_tokens u) us"

definition api_llm_usage :: "(rat \<Rightarrow> string) \<Rightarrow> ('z dash_scheme, http_reply) eff" where
  "api_llm_usage frepr = bnd (gets llm_usage) (\<lambda>us. bnd (gets tree_cache) (\<lambda>d.
     ret (ok_reply [(''entries'', JList (map (usage_json frepr d) (usage_entries us))),
       (''total_tokens'', JInt (\<Sum>(p, u)\<leftarrow>us. us_tokens u)), (''total_calls'', JInt (\<Sum>(p, u)\<leftarrow>us. us_calls u))])))"

definition task_entry_json :: "task_entry \<Rightarrow> json" where
  "task_entry_json e = JObj [(''pid'', JInt (te_pid e)), (''name'', JStr (te_name e)), (''description'', te_description e),
     (''result'', te_result e), (''success'', JBool (te_success e)), (''error'', te_error e),
     (''duration_ms'', JInt (te_duration_ms e)), (''timestamp'', JInt (te_timestamp e))]"

text \<open>\<open>list(reversed(filtered[-limit:]))\<close>.\<close>

definition recent :: "int \<Rightarrow> 'a list \<Rightarrow> 'a list" where
  "recent limit xs = rev (slice_from (- limit) xs)"

definition api_task_history :: "int \<Rightarrow> int \<Rightarrow> ('z dash_scheme, http_reply) eff" where
  "api_task_history limit pid = bnd (gets task_history) (\<lambda>es.
     let filtered = (if pid > 0 then filter (\<lambda>t. te_pid t = pid) es else es) in
     ret (ok_reply [(''entries'', JList (map task_entry_json (recent limit filtered)))]))"

text \<open>The keys that were added to an entry come after the ones it was recorded with.\<close>

definition message_entry_json :: "message_entry \<Rightarrow> json" where
  "message_entry_json e = JObj ([(''from_pid'', JInt (me_from_pid e)), (''to_pid'', JInt (me_to_pid e)),
     (''from_name'', JStr (me_from_name e)), (''to_name'', JStr (me_to_name e)), (''type'', JStr (me_type e)),
     (''reply_to'', JStr (me_reply_to e)), (''payload_preview'', JStr (me_payload_preview e)),
     (''timestamp'', JInt (me_timestamp e)), (''trace_id'', JStr (me_trace_id e)), (''trace_span'', JStr (me_trace_span e))] @
     (case me_message_id e of None \<Rightarrow> [] | Some i \<Rightarrow> [(''message_id'', JStr i)]) @
     (case me_state e of None \<Rightarrow> [] | Some x \<Rightarrow> [(''state'', JStr x)]) @
     (case me_delivered_at e of None \<Rightarrow> [] | Some t \<Rightarrow> [(''delivered_at'', JInt t)]))"

definition api_messages :: "int \<Rightarrow> int \<Rightarrow> ('z dash_scheme, http_reply) eff" where
  "api_messages pid limit = bnd (gets message_log) (\<lambda>es.
     let filtered = (if pid > 0 then filter (\<lambda>m. me_from_pid m = pid \<or> me_to_pid m = pid) es else es) in
     ret (ok_reply [(''entries'', JList (map message_entry_json (recent limit filtered)))]))"

text \<open>\<open>e.get(k, 0)\<close> of an entry of the trace log, as a number.\<close>

definition entry_int :: "string \<Rightarrow> json \<Rightarrow> int" where
  "entry_int k e = (case e of JObj kvs \<Rightarrow> (case dget kvs k (JInt 0) of JInt i \<Rightarrow> i | _ \<Rightarrow> 0) | _ \<Rightarrow> 0)"

definition summary_json :: "string \<times> json list \<Rightarrow> json" where
  "summary_json = (\<lambda>(tid, evs). JObj [(''trace_id'', JStr tid), (''event_count'', JInt (int (length evs))),
     (''first_ts'', JInt (entry_int ''timestamp_ms'' (hd evs))), (''last_ts'', JInt (entry_int ''timestamp_ms'' (last evs))),
     (''initiator_pid'', JInt (entry_int ''pid'' (hd evs)))])"

definition trace_summaries :: "(string, json list) dict \<Rightarrow> (string \<times> json list) list" where
  "trace_summaries lg = sort_key (\<lambda>(tid, evs). - entry_int ''timestamp_ms'' (last evs)) (filter (\<lambda>(tid, evs). evs \<noteq> []) lg)"

definition api_traces :: "('z dash_scheme, http_reply) eff" where
  "api_traces = bnd (gets trace_log) (\<lambda>lg. ret (ok_reply [(''traces'', JList (map summary_json (trace_summaries lg)))]))"

definition api_trace_detail :: "string \<Rightarrow> ('z dash_scheme, http_reply) eff" where
  "api_trace_detail trace_id = bnd (gets trace_log) (\<lambda>lg. ret (case map_of lg trace_id of
      None \<Rightarrow> error_reply 404 ''trace not found'' []
    | Some evs \<Rightarrow> ok_reply [(''trace_id'', JStr trace_id), (''events'', JList (sort_key (entry_int ''timestamp_ms'') evs))]))"

section \<open>Cron entries, messages, artifacts\<close>

definition cron_json :: "cron_entry \<Rightarrow> json" where
  "cron_json e = JObj [(''id'', JStr (ce_id e)), (''name'', JStr (ce_name e)), (''cron_expression'', JStr (ce_cron_expression e)),
     (''action'', JStr (ce_action e)), (''target_pid'', JInt (ce_target_pid e)),
     (''execute_description'', JStr (ce_execute_description e)), (''enabled'', JBool (ce_enabled e)),
     (''last_run_ms'', JInt (ce_last_run_ms e)), (''next_run_ms'', JInt (ce_next_run_ms e)),
     (''last_exit_code'', JInt (ce_last_exit_code e)), (''last_output'', JStr (ce_last_output e)),
     (''last_duration_ms'', JInt (ce_last_duration_ms e))]"

definition api_cron_list :: "env \<Rightarrow> ('z dash_scheme, http_reply) eff" where
  "api_cron_list env = rpc_catch (bnd (stub_call (e_list_cron env) (md 1) 5 ListCronRequest) (\<lambda>es.
     ret (ok_reply [(''entries'', JList (map cron_json es))])))
     (\<lambda>d. ret (error_reply 500 d []))"

definition api_cron_add :: "env \<Rightarrow> (string, json) dict \<Rightarrow> ('z dash_scheme, http_reply) eff" where
  "api_cron_add env body = rpc_catch
     (bnd (lift_sum (result_text (dget body ''name'' (JStr [])))) (\<lambda>name.
      bnd (lift_sum (result_text (dget body ''cron_expression'' (JStr [])))) (\<lambda>expr.
      bnd (lift_sum (result_text (dget body ''action'' (JStr ''execute'')))) (\<lambda>action.
      bnd (lift_sum (result_pid (dget body ''target_pid'' (JInt 0)))) (\<lambda>target.
      bnd (lift_sum (result_text (dget body ''description'' (JStr [])))) (\<lambda>description.
      bnd (lift_sum (string_map (dget body ''params'' (JObj [])))) (\<lambda>params.
      bnd (stub_call (e_add_cron env) (md 1) 5 (AddCronRequest \<lparr>cq_name = name, cq_cron_expression = expr, cq_action = action,
          cq_target_pid = target, cq_execute_description = description, cq_execute_params = params\<rparr>)) (\<lambda>(err, cron_id).
        ret (if err \<noteq> [] then error_reply 400 err [] else ok_reply [(''cron_id'', JStr cron_id)])))))))))
     (\<lambda>d. ret (error_reply 500 d []))"

definition api_cron_remove :: "env \<Rightarrow> string \<Rightarrow> ('z dash_scheme, http_reply) eff" where
  "api_cron_remove env cron_id = rpc_catch (bnd (stub_call (e_remove_cron env) (md 1) 5 (RemoveCronRequest cron_id)) (\<lambda>(err, ok).
     ret (if err \<noteq> [] then error_reply 400 err [] else ok_reply [])))
     (\<lambda>d. ret (error_reply 500 d []))"

text \<open>The payload of a message: a text is encoded, \<open>None\<close> leaves it empty.\<close>

definition payload_bytes :: "json \<Rightarrow> exn + bytes" where
  "payload_bytes j = (case j of
      JStr t \<Rightarrow> Inr (utf8_encode t)
    | JNull \<Rightarrow> Inr []
    | _ \<Rightarrow> Inl (TypeError ''bad argument type for built-in operation''))"

definition api_send_message :: "env \<Rightarrow> (string, json) dict \<Rightarrow> ('z dash_scheme, http_reply) eff" where
  "api_send_message env body = (let to_pid = dget body ''to_pid'' (JInt 0) in
     if \<not> truthy to_pid then ret (error_reply 400 ''to_pid is required'' [])
     else rpc_catch
       (bnd (lift_sum (result_pid to_pid)) (\<lambda>p.
        bnd (lift_sum (result_text (dget body ''type'' (JStr ''task_request'')))) (\<lambda>msg_type.
        bnd (lift_sum (payload_bytes (dget body ''payload'' (JStr [])))) (\<lambda>payload.
        bnd (stub_call (e_send env) (md 1) 10 (SendMessageRequest \<lparr>mq_to_pid = p, mq_to_queue = [], mq_type = msg_type,
            mq_priority = priority_to_proto ''normal'', mq_payload = payload, mq_requires_ack = False, mq_ttl_seconds = 0,
            mq_reply_to = []\<rparr>)) (\<lambda>(ok, err, mid).
          ret (if ok then ok_reply [(''message_id'', JStr mid)] else error_reply 400 err []))))))
       (\<lambda>d. ret (error_reply 500 d [])))"

definition inbox_json :: "inbox_message \<Rightarrow> json" where
  "inbox_json m = JObj [(''message_id'', JStr (im_message_id m)), (''from_pid'', JInt (im_from_pid m)),
     (''from_name'', JStr (im_from_name m)), (''type'', JStr (im_type m)), (''priority'', JInt (im_priority m)),
     (''payload_preview'', JStr (utf8_decode_replace (take 200 (im_payload m)))),
     (''requires_ack'', JBool (im_requires_ack m)), (''reply_to'', JStr (im_reply_to m))]"

definition api_inbox :: "env \<Rightarrow> int \<Rightarrow> ('z dash_scheme, http_reply) eff" where
  "api_inbox env pid = rpc_catch
     (bnd (lift_sum (uint64 pid)) (\<lambda>p. bnd (stub_call (e_inbox env) (md 1) 5 (ListInboxRequest p)) (\<lambda>(ms, n).
        ret (ok_reply [(''messages'', JList (map inbox_json ms)), (''total'', JInt n)]))))
     (\<lambda>d. ret (error_reply 500 d []))"

definition artifact_json :: "artifact_meta \<Rightarrow> json" where
  "artifact_json a = JObj [(''artifact_id'', JStr (am_artifact_id a)), (''key'', JStr (am_key a)),
     (''content_type'', JStr (am_content_type a)), (''size_bytes'', JInt (am_size_bytes a)),
     (''stored_by_pid'', JInt (am_stored_by_pid a)), (''stored_at'', JInt (am_stored_at a))]"

definition api_artifacts :: "env \<Rightarrow> ('z dash_scheme, http_reply) eff" where
  "api_artifacts env = rpc_catch (bnd (stub_call (e_artifacts env) (md 1) 5 (ListArtifactsRequest [])) (\<lambda>as.
     ret (ok_reply [(''artifacts'', JList (map artifact_json as))])))
     (\<lambda>d. ret (error_reply 500 d []))"

section \<open>The websocket endpoint\<close>

text \<open>
  \<open>sock\<close> gives the exception of the last send, if it failed.  The client sends the texts of
  a list and then disconnects.
\<close>

definition ws_send_tree :: "(sends \<Rightarrow> exn option) \<Rightarrow> nat \<Rightarrow> ('z dash_scheme, unit) eff" where
  "ws_send_tree sock w = bnd (gets get_tree_response) (\<lambda>r.
     let text = dumps True (JObj [(''type'', JStr ''tree''), (''data'', r)]) in
     seq (modify (\<lambda>s. s\<lparr>ws_sent := ws_sent s @ [(w, text)]\<rparr>))
     (bnd (gets ws_sent) (\<lambda>h. case sock h of None \<Rightarrow> ret () | Some e \<Rightarrow> throw e)))"

definition ws_refresh :: "env \<Rightarrow> (rat \<Rightarrow> string) \<Rightarrow> (sends \<Rightarrow> exn option) \<Rightarrow> nat \<Rightarrow> ('z dash_scheme, unit) eff" where
  "ws_refresh env frepr sock w = seq (full_resync env frepr) (ws_send_tree sock w)"

definition ws_receive :: "env \<Rightarrow> (rat \<Rightarrow> string) \<Rightarrow> (sends \<Rightarrow> exn option) \<Rightarrow> nat \<Rightarrow> string \<Rightarrow> ('z dash_scheme, unit) eff" where
  "ws_receive env frepr sock w data = (case loads data of
      None \<Rightarrow> ret ()
    | Some msg \<Rightarrow> bnd (lift_sum (get_key ''type'' JNull msg)) (\<lambda>t. whenc (t = JStr ''refresh'') (ws_refresh env frepr sock w)))"

definition websocket_endpoint :: "env \<Rightarrow> (rat \<Rightarrow> string) \<Rightarrow> (sends \<Rightarrow> exn option) \<Rightarrow> nat \<Rightarrow> string list \<Rightarrow> ('z dash_scheme, unit) eff" where
  "websocket_endpoint env frepr sock w datas =
     seq (modify (\<lambda>s. s\<lparr>ws_clients := List.insert w (ws_clients s)\<rparr>))
     (finallyc
       (tryc
         (seq (bnd (gets tree_cache) (\<lambda>d. if d \<noteq> [] then ws_send_tree sock w else ws_refresh env frepr sock w))
           (seq (foreach (ws_receive env frepr sock w) datas) (throw WebSocketDisconnect)))
         (\<lambda>e. if e = WebSocketDisconnect then ret () else throw e))
       (modify (\<lambda>s. s\<lparr>ws_clients := filter (\<lambda>c. c \<noteq> w) (ws_clients s)\<rparr>)))"

section \<open>Tasks run and tasks recorded\<close>

fun executed_task :: "call \<Rightarrow> exec_request list" where
  "executed_task (Rpc _ _ (ExecuteRequest q)) = [q]"
| "executed_task _ = []"

definition executed :: "'z world_scheme \<Rightarrow> exec_request list" where
  "executed s = concat (map executed_task (trace s))"

lemma executed_emit [simp]: "executed (emit c s) = executed s @ executed_task c"
  by (simp add: executed_def)

lemma executed_push [simp]: "executed (push_task s e) = executed s"
  by (simp add: executed_def push_task_def)

lemma push_task_history [simp]: "task_history (push_task s e) = last_n TASK_HISTORY_MAX (task_history s @ [e])"
  by (simp add: push_task_def trim_front_last_n)

lemma wp_rpc_catch [wp_simps]:
  "wp (rpc_catch m h) Q E = wp m Q (\<lambda>e. case e of RpcError d \<Rightarrow> wp (h d) Q E | _ \<Rightarrow> E e)"
  unfolding rpc_catch_def wp_tryc by (intro arg_cong[where f = "wp m Q"] ext) (auto simp: wp_throw split: exn.split)

lemma wp_api_calls [wp_simps]:
  "wp (stub_call f meta tmo r) Q E = wp (ask_env f (Rpc meta (Some tmo) r)) Q E"
  "wp (elapsed env start) R E = wp (time_time env) (\<lambda>now. R (int_of_rat ((now - start) * 1000))) E"
  "wp (new_trace_id env) T E = wp (uuid4 env) (\<lambda>u. T (''t-'' @ hex8 u)) E"
  "wp (record_task env p name d res ok err ms) U F = wp (time_time env) (\<lambda>now t. U () (push_task t
     \<lparr>te_pid = p, te_name = name, te_description = d, te_result = res, te_success = ok, te_error = err, te_duration_ms = ms,
       te_timestamp = int_of_rat (now * 1000)\<rparr>)) F"
  unfolding stub_call_def elapsed_def new_trace_id_def record_task_def now_ms_def
  by (simp_all add: wp_simps)

text \<open>The one execution of a task, its one entry in the history, and the status of the answer.\<close>

definition ran_once :: "pid \<Rightarrow> json \<Rightarrow> 'z dash_scheme \<Rightarrow> http_reply \<Rightarrow> 'z dash_scheme \<Rightarrow> bool" where
  "ran_once p description s r t \<longleftrightarrow> (\<exists>q e. executed t = executed s @ [q] \<and> xq_target_pid q = p \<and>
     task_history t = last_n TASK_HISTORY_MAX (task_history s @ [e]) \<and> te_pid e = p \<and> te_description e = description \<and>
     (te_success e \<longleftrightarrow> hr_status r = 200) \<and> hr_status r \<in> {200, 400, 500})"

lemma ran_onceI:
  "\<lbrakk>executed t = executed s @ [q]; xq_target_pid q = p; task_history t = last_n TASK_HISTORY_MAX (task_history s @ [e]);
    te_pid e = p; te_description e = d; te_success e \<longleftrightarrow> hr_status r = 200; hr_status r \<in> {200, 400, 500}\<rbrakk> \<Longrightarrow> ran_once p d s r t"
  unfolding ran_once_def by blast

lemma dash_emit [simp]: "task_history (emit c s) = task_history s" "tree_cache (emit c s) = tree_cache s"
  by (simp_all add: emit_def)

lemma ran_once_emit: "executed_task c = [] \<Longrightarrow> ran_once p d (emit c s) r t \<longleftrightarrow> ran_once p d s r t"
  by (simp add: ran_once_def)

text \<open>A request that can be built goes to its target, and building it raises no RPC error.\<close>

definition goes_to :: "pid \<Rightarrow> exn + exec_request \<Rightarrow> bool" where
  "goes_to p req \<longleftrightarrow> (case req of Inl e \<Rightarrow> (\<forall>d. e \<noteq> RpcError d) | Inr q \<Rightarrow> xq_target_pid q = p)"

lemma goes_to_execute: "goes_to pid (execute_request pid d ps tmo)"
  by (auto simp: goes_to_def execute_request_def uint64_def result_text_def string_map_def int32_def split: sum.splits json.splits option.splits if_splits)

lemma wp_run_recorded:
  assumes "goes_to p req"
  shows "wp (run_recorded env p name d req slack shown extra prefix) (ran_once p d s) (\<lambda>_ _. True) s"
  using assms unfolding run_recorded_def goes_to_def
  by (cases req) (auto simp: wp_simps ok_reply_def error_reply_def split: sum.split exn.split intro!: ran_onceI)

lemma wp_api_execute:
  "wp (api_execute env pid body) (\<lambda>r t. \<exists>d. ran_once pid d s r t) (\<lambda>_ _. True) s"
proof -
  have run: "wp (run_recorded env pid name d (execute_request pid d ps tmo) slack shown extra prefix)
      (\<lambda>r t. \<exists>d. ran_once pid d s r t) (\<lambda>_ _. True) u"
    if "u = s \<or> (\<exists>c. u = emit c s \<and> executed_task c = [])" for u name d ps tmo slack shown extra prefix
    using that by (intro wp_mono[OF wp_run_recorded[OF goes_to_execute]]) (auto simp: ran_once_emit)
  show ?thesis unfolding api_execute_def Let_def
    by (auto simp: wp_simps traced_params_def split: json.split intro!: run)
qed

definition refused :: "'z dash_scheme \<Rightarrow> http_reply \<Rightarrow> 'z dash_scheme \<Rightarrow> bool" where
  "refused s r t \<longleftrightarrow> t = s \<and> (hr_status r = 400 \<or> hr_status r = 503)"

lemma wp_api_found:
  "wp (api_run_task env body) (\<lambda>r t. refused s r t \<or> (\<exists>q d. find_queen_pid (tree_cache s) = Some q \<and> ran_once q d s r t)) (\<lambda>_ _. True) s"
  "wp (api_chat env body) (\<lambda>r t. refused s r t \<or> (\<exists>p d. find_agent_pid ''assistant'' (tree_cache s) = Some p \<and> ran_once p d s r t)) (\<lambda>_ _. True) s"
proof -
  have run: "wp (run_recorded env q name d (execute_request q d' ps tmo) slack shown extra prefix)
      (\<lambda>r t. refused s r t \<or> (\<exists>d. ran_once q d s r t)) (\<lambda>_ _. True) (emit Uuid s)"
    for q name d d' ps tmo slack shown extra prefix
    by (intro wp_mono[OF wp_run_recorded[OF goes_to_execute]]) (auto simp: ran_once_emit)
  show "wp (api_run_task env body) (\<lambda>r t. refused s r t \<or> (\<exists>q d. find_queen_pid (tree_cache s) = Some q \<and> ran_once q d s r t)) (\<lambda>_ _. True) s"
    unfolding api_run_task_def run_task_request_def
    by (auto simp: wp_simps refused_def error_reply_def run[unfolded refused_def] split: option.split sum.split)
  show "wp (api_chat env body) (\<lambda>r t. refused s r t \<or> (\<exists>p d. find_agent_pid ''assistant'' (tree_cache s) = Some p \<and> ran_once p d s r t)) (\<lambda>_ _. True) s"
    unfolding api_chat_def chat_request_def
    by (auto simp: wp_simps refused_def error_reply_def run[unfolded refused_def] split: option.split sum.split)
qed

text \<open>
  C38.  Every task the dashboard runs is in its history, exactly once: when one of the three
  endpoints answers, then either it has refused the request without calling the kernel, and
  the history is as before, or it has executed one task, and the history has one new
  entry for the same process, marked as a success if and only if the answer has status 200;
  the history keeps the 500 newest entries.
\<close>

theorem tasks_recorded_once:
  assumes "m \<in> {api_execute env pid body, api_run_task env body, api_chat env body}" "m s = (Inr r, t)"
  shows "executed t = executed s \<and> task_history t = task_history s \<and> hr_status r \<in> {400, 503} \<or>
    (\<exists>q e. executed t = executed s @ [q] \<and> task_history t = last_n TASK_HISTORY_MAX (task_history s @ [e]) \<and>
       te_pid e = xq_target_pid q \<and> (te_success e \<longleftrightarrow> hr_status r = 200))"
proof -
  have "refused s r t \<or> (\<exists>p d. ran_once p d s r t)"
    using assms wp_api_execute[of env pid body s] wp_api_found[of env body s] by (auto simp: wp_def)
  then show ?thesis by (auto simp: refused_def ran_once_def)
qed

theorem tasks_recorded_once_witness:
  "\<exists>r t e. api_execute example_env 7 [] dash_init = (Inr r, t) \<and> hr_status r = 200 \<and> task_history t = [e] \<and> te_success e"
proof -
  obtain r t where run: "api_execute example_env 7 [] dash_init = (Inr r, t)" "hr_status r = 200"
    by (simp add: api_execute_def run_recorded_def execute_request_def traced_params_def new_trace_id_def string_map_def
        stub_call_def elapsed_def record_task_def now_ms_def ask_env_def time_time_def uuid4_def rpc_catch_def lift_sum_def
        uint64_def result_text_def int32_def example_env_def ok_reply_def eff_defs dset_fresh Let_def dmem_def)
  have "executed dash_init = []" "task_history dash_init = []" by (simp_all add: executed_def dash_init_def)
  with tasks_recorded_once[of "api_execute example_env 7 []" example_env 7 "[]" dash_init r t] run show ?thesis
    by (auto simp: last_n_def TASK_HISTORY_MAX_def)
qed

section \<open>Pages of the logs\<close>

lemma recent_take: "0 < limit \<Longrightarrow> recent limit xs = take (nat limit) (rev xs)"
  by (cases "nat limit \<le> length xs") (simp_all add: recent_def slice_from_last_n last_n_def rev_drop)

text \<open>
  C32.  The two log endpoints answer a query: for a positive limit the entries are the newest ones,
  newest first, at most so many, of those that concern the process asked for; nothing is
  changed.
\<close>

theorem log_pages:
  assumes "0 < limit"
  shows "api_task_history limit pid s = (Inr (ok_reply [(''entries'', JList (map task_entry_json
        (take (nat limit) (filter (\<lambda>e. pid > 0 \<longrightarrow> te_pid e = pid) (rev (task_history s))))))]), s) \<and>
    api_messages pid limit s = (Inr (ok_reply [(''entries'', JList (map message_entry_json
        (take (nat limit) (filter (\<lambda>e. pid > 0 \<longrightarrow> me_from_pid e = pid \<or> me_to_pid e = pid) (rev (message_log s))))))]), s)"
  using assms by (auto simp: api_task_history_def api_messages_def recent_take rev_filter eff_defs Let_def)

theorem log_pages_witness:
  "api_task_history 2 0 dash_init = (Inr (ok_reply [(''entries'', JList [])]), dash_init)"
  using log_pages[of 2 0 dash_init] by (simp add: dash_init_def)

text \<open>But a limit of 0 gives the whole log instead of nothing, since \<open>-0\<close> is \<open>0\<close>.\<close>

theorem log_limit_zero:
  "api_task_history 0 0 s = (Inr (ok_reply [(''entries'', JList (map task_entry_json (rev (task_history s))))]), s)"
  by (simp add: api_task_history_def recent_def slice_from_def eff_defs Let_def)

section \<open>Traces\<close>

text \<open>
  The list of traces has each trace with events once, the one with the latest event first;
  and the detail of a trace has exactly its events, in the order of their time stamps,
  those with equal stamps in the order of their arrival.
\<close>

theorem traces_sorted:
  "(\<exists>ts. api_traces s = (Inr (ok_reply [(''traces'', JList (map summary_json ts))]), s) \<and>
     mset ts = filter_mset (\<lambda>x. snd x \<noteq> []) (mset (trace_log s)) \<and>
     sorted_wrt (\<lambda>x y. entry_int ''timestamp_ms'' (last (snd x)) \<ge> entry_int ''timestamp_ms'' (last (snd y))) ts) \<and>
   (case map_of (trace_log s) tid of
      None \<Rightarrow> api_trace_detail tid s = (Inr (error_reply 404 ''trace not found'' []), s)
    | Some evs \<Rightarrow> \<exists>es. api_trace_detail tid s = (Inr (ok_reply [(''trace_id'', JStr tid), (''events'', JList es)]), s) \<and>
        mset es = mset evs \<and> sorted (map (entry_int ''timestamp_ms'') es) \<and>
        (\<forall>k. filter (\<lambda>e. entry_int ''timestamp_ms'' e = k) es = filter (\<lambda>e. entry_int ''timestamp_ms'' e = k) evs))"
proof (intro conjI exI[of _ "trace_summaries (trace_log s)"])
  let ?f = "\<lambda>x :: string \<times> json list. - entry_int ''timestamp_ms'' (last (snd x))"
  have ts: "trace_summaries (trace_log s) = sort_key ?f (filter (\<lambda>x. snd x \<noteq> []) (trace_log s))"
    by (simp add: trace_summaries_def case_prod_beta')
  show "api_traces s = (Inr (ok_reply [(''traces'', JList (map summary_json (trace_summaries (trace_log s))))]), s)"
    by (simp add: api_traces_def eff_defs)
  show "mset (trace_summaries (trace_log s)) = filter_mset (\<lambda>x. snd x \<noteq> []) (mset (trace_log s))"
    unfolding ts by simp
  have "sorted (map ?f (trace_summaries (trace_log s)))" unfolding ts by (rule sorted_sort_key)
  then show "sorted_wrt (\<lambda>x y. entry_int ''timestamp_ms'' (last (snd x)) \<ge> entry_int ''timestamp_ms'' (last (snd y)))
      (trace_summaries (trace_log s))"
    by (simp add: sorted_map)
  show "case map_of (trace_log s) tid of
      None \<Rightarrow> api_trace_detail tid s = (Inr (error_reply 404 ''trace not found'' []), s)
    | Some evs \<Rightarrow> \<exists>es. api_trace_detail tid s = (Inr (ok_reply [(''trace_id'', JStr tid), (''events'', JList es)]), s) \<and>
        mset es = mset evs \<and> sorted (map (entry_int ''timestamp_ms'') es) \<and>
        (\<forall>k. filter (\<lambda>e. entry_int ''timestamp_ms'' e = k) es = filter (\<lambda>e. entry_int ''timestamp_ms'' e = k) evs)"
    by (auto simp: api_trace_detail_def eff_defs sort_key_stable split: option.split)
qed

section \<open>From the chat window to the Assistant\<close>

lemma siblings_snoc: "get_sibling_pids (d @ [(p, n)]) =
    (if nd_role n = ''daemon'' \<and> nd_name n \<noteq> [] then dset (nd_name n) (JInt p) (get_sibling_pids d) else get_sibling_pids d)"
  by (simp add: get_sibling_pids_def)

lemma wf_siblings: "wf_json (JObj (get_sibling_pids d))"
proof (induction d rule: rev_induct)
  case (snoc x d)
  then show ?case by (cases x) (auto simp: siblings_snoc dest!: subsetD[OF set_dset])
qed (simp add: get_sibling_pids_def)

lemma map_of_siblings: "map_of (get_sibling_pids d) name =
    map_option (JInt \<circ> fst) (find (\<lambda>(p, n). nd_role n = ''daemon'' \<and> nd_name n = name \<and> name \<noteq> []) (rev d))"
proof (induction d rule: rev_induct)
  case (snoc x d)
  then show ?case by (cases x) (auto simp: siblings_snoc map_of_dset)
qed (simp add: get_sibling_pids_def)

lemma wp_run_executes:
  "wp (run_recorded env p name d (Inr q) slack shown extra prefix) (\<lambda>_ t. executed t = executed s @ [q]) (\<lambda>_ t. executed t = executed s @ [q]) s"
  unfolding run_recorded_def by (auto simp: wp_simps split: sum.split exn.split)

text \<open>
  C39.  What the user types into the chat window is what the Assistant reads: a message that is
  not blank is executed once, as a task of the process found as the Assistant, and the
  values the Assistant decodes from its parameters are the message, the history of the
  request, and a map from the name of each daemon to the pid of the last daemon in the
  cache with this name.
\<close>

theorem chat_reaches_assistant:
  assumes "dget body ''message'' (JStr []) = JStr msg" "strip msg \<noteq> []" "wf_json (dget body ''history'' (JList []))"
    and "find_agent_pid ''assistant'' (tree_cache s) = Some p" "0 \<le> p" "p < 2 ^ 64"
  shows "\<exists>q siblings. executed (final (api_chat env body) s) = executed s @ [q] \<and> xq_target_pid q = p \<and>
    dget (xq_params q) ''message'' [] = msg \<and>
    loads_or (JList []) (dget (xq_params q) ''history'' ''[]'') = dget body ''history'' (JList []) \<and>
    loads_or (JObj []) (dget (xq_params q) ''sibling_pids'' ''{}'') = JObj siblings \<and>
    (\<forall>name. map_of siblings name =
      map_option (JInt \<circ> fst) (find (\<lambda>(p, n). nd_role n = ''daemon'' \<and> nd_name n = name \<and> name \<noteq> []) (rev (tree_cache s))))"
proof -
  let ?sib = "get_sibling_pids (tree_cache s)" and ?h = "dget body ''history'' (JList [])"
  have req: "\<exists>q. chat_request p msg ?h ?sib tid = Inr q \<and> xq_target_pid q = p \<and> xq_params q =
      [(''message'', msg), (''history'', dumps False ?h), (''sibling_pids'', dumps True (JObj ?sib)), (''trace_id'', tid)]" for tid
    using assms(5,6) by (simp add: chat_request_def execute_request_def uint64_def result_text_def string_map_def int32_def del: dumps.simps)
  have "wp (api_chat env body) (\<lambda>_ t. \<exists>tid q. chat_request p msg ?h ?sib tid = Inr q \<and> executed t = executed s @ [q])
      (\<lambda>_ t. \<exists>tid q. chat_request p msg ?h ?sib tid = Inr q \<and> executed t = executed s @ [q]) s"
  proof -
    let ?tid = "''t-'' @ hex8 (e_uuid env (trace s @ [Uuid]))"
    obtain q where q: "chat_request p msg ?h ?sib ?tid = Inr q" using req by blast
    have "wp (run_recorded env p ''assistant'' (JStr msg) (chat_request p msg ?h ?sib ?tid) 10
        (\<lambda>r. [(''response'', JStr (tr_output r)), (''exit_code'', JInt (tr_exit_code r))]) [] [])
        (\<lambda>_ t. \<exists>tid q. chat_request p msg ?h ?sib tid = Inr q \<and> executed t = executed s @ [q])
        (\<lambda>_ t. \<exists>tid q. chat_request p msg ?h ?sib tid = Inr q \<and> executed t = executed s @ [q]) (emit Uuid s)"
      unfolding q by (rule wp_mono[OF wp_run_executes]) (use q in auto)
    then show ?thesis using assms(1,2,4) by (simp add: api_chat_def needs_text_def wp_simps)
  qed
  then obtain tid q where q: "chat_request p msg ?h ?sib tid = Inr q" "executed (final (api_chat env body) s) = executed s @ [q]"
    by (auto simp: wp_def final_def split: prod.splits sum.splits)
  have "loads [] = None" by code_simp
  then have ne: "dumps ea j \<noteq> []" if "wf_json j" for ea j
    using loads_dumps[OF that, of ea] by fastforce
  show ?thesis using req[of tid] q wf_siblings[of "tree_cache s"] assms(3)
    by (intro exI[of _ q] exI[of _ ?sib]) (auto simp: loads_or_def ne loads_dumps map_of_siblings simp del: dumps.simps wf_json.simps)
qed

definition example_dash :: dash where
  "example_dash = dash_init\<lparr>tree_cache := [(4, (proc_to_dict (\<lambda>_. []) (example_proc 4 1))\<lparr>nd_name := ''assistant'', nd_role := ''daemon''\<rparr>)]\<rparr>"

theorem chat_reaches_assistant_witness:
  "\<exists>q. executed (final (api_chat example_env [(''message'', JStr ''hi'')]) example_dash) = [q] \<and> xq_target_pid q = 4 \<and>
     dget (xq_params q) ''message'' [] = ''hi''"
proof -
  have "find_agent_pid ''assistant'' (tree_cache example_dash) = Some 4" "executed example_dash = []"
    by (simp_all add: example_dash_def find_agent_pid_def executed_def dash_init_def)
  moreover have "strip ''hi'' \<noteq> []" by code_simp
  ultimately show ?thesis
    using chat_reaches_assistant[of "[(''message'', JStr ''hi'')]" "''hi''" example_dash 4 example_env]
    by (fastforce simp: dget_def)
qed

section \<open>A websocket session\<close>

definition is_refresh :: "string \<Rightarrow> bool" where
  "is_refresh data \<longleftrightarrow> (case loads data of Some (JObj kvs) \<Rightarrow> dget kvs ''type'' JNull = JStr ''refresh'' | _ \<Rightarrow> False)"

definition no_bare_value :: "string \<Rightarrow> bool" where
  "no_bare_value data \<longleftrightarrow> (case loads data of None \<Rightarrow> True | Some (JObj _) \<Rightarrow> True | Some _ \<Rightarrow> False)"

text \<open>The texts sent to a client since a state, and the clients meanwhile.\<close>

definition told :: "nat \<Rightarrow> nat \<Rightarrow> 'z dash_scheme \<Rightarrow> 'z dash_scheme \<Rightarrow> bool" where
  "told w n s t \<longleftrightarrow> ws_clients t = ws_clients s \<and>
     (\<exists>ms. ws_sent t = ws_sent s @ map (\<lambda>m. (w, m)) ms \<and> length ms = n \<and>
       (\<forall>m \<in> set ms. \<exists>r. m = dumps True (JObj [(''type'', JStr ''tree''), (''data'', r)])))"

lemma told_refl [simp]: "told w 0 s s"
  by (simp add: told_def)

lemma told_trans: "told w m s t \<Longrightarrow> told w n t u \<Longrightarrow> told w (m + n) s u"
  unfolding told_def by (auto 0 3 intro: exI[of _ "_ @ _"])

definition quiet :: "(sends \<Rightarrow> exn option) \<Rightarrow> bool" where
  "quiet sock \<longleftrightarrow> (\<forall>h. sock h = None)"

lemma keeps_resync_sent: "keeps (\<lambda>s. (ws_clients s, ws_sent s)) (full_resync env frepr)"
  unfolding full_resync_def upd_tree_def by (intro keeps_rules keeps_modify) (simp_all add: traceless_def emit_def)

lemma told_one:
  "ws_clients t = ws_clients s \<Longrightarrow> ws_sent t = ws_sent s @ [(w, dumps True (JObj [(''type'', JStr ''tree''), (''data'', r)]))] \<Longrightarrow> told w 1 s t"
  unfolding told_def by (intro conjI exI[of _ "[dumps True (JObj [(''type'', JStr ''tree''), (''data'', r)])]"]) auto

lemma wp_ws_send_tree: "wp (ws_send_tree sock w) (\<lambda>_. told w 1 s) (\<lambda>_ t. told w 1 s t \<and> \<not> quiet sock) s"
proof -
  let ?s = "s\<lparr>ws_sent := ws_sent s @ [(w, dumps True (JObj [(''type'', JStr ''tree''), (''data'', get_tree_response s)]))]\<rparr>"
  have "told w 1 s ?s" by (rule told_one) simp_all
  then show ?thesis unfolding ws_send_tree_def Let_def
    by (simp add: wp_simps quiet_def del: dumps.simps split: option.split) metis
qed

lemma wp_ws_refresh: "wp (ws_refresh env frepr sock w) (\<lambda>_. told w 1 s) (\<lambda>_ t. told w 1 s t \<and> \<not> quiet sock) s"
proof -
  obtain b u where u: "full_resync env frepr s = (Inr b, u)" using resync_total by blast
  then have "(ws_clients u, ws_sent u) = (ws_clients s, ws_sent s)"
    using keeps_snd[OF keeps_resync_sent, of env frepr s] by simp
  then have "told w 1 u = told w 1 s" by (simp add: told_def fun_eq_iff)
  then show ?thesis using wp_ws_send_tree[of sock w u] u by (simp add: ws_refresh_def wp_seq) (simp add: wp_def)
qed

lemma wp_ws_receive:
  "wp (ws_receive env frepr sock w data) (\<lambda>_. told w (if is_refresh data then 1 else 0) s)
     (\<lambda>_ t. told w (if is_refresh data then 1 else 0) s t \<and> \<not> (quiet sock \<and> no_bare_value data)) s"
proof (cases "loads data")
  case (Some j)
  then show ?thesis using wp_mono[OF wp_ws_refresh[of env frepr sock w s]]
    by (cases j) (auto simp: ws_receive_def get_key_def is_refresh_def no_bare_value_def wp_simps)
qed (simp add: ws_receive_def wp_simps is_refresh_def)

lemma wp_ws_receives:
  "wp (foreach (ws_receive env frepr sock w) datas) (\<lambda>_. told w (length (filter is_refresh datas)) s)
     (\<lambda>_ t. \<exists>n \<le> length (filter is_refresh datas). told w n s t \<and> \<not> (quiet sock \<and> list_all no_bare_value datas)) s"
proof (induction datas arbitrary: s)
  case (Cons d ds)
  let ?k = "if is_refresh d then 1 else 0 :: nat"
  have more: "wp (foreach (ws_receive env frepr sock w) ds) (\<lambda>_. told w (?k + length (filter is_refresh ds)) s)
      (\<lambda>_ t. \<exists>n \<le> ?k + length (filter is_refresh ds). told w n s t \<and> \<not> (quiet sock \<and> list_all no_bare_value (d # ds))) u"
    if "told w ?k s u" for u
    by (rule wp_mono[OF Cons.IH]) (use told_trans[OF that] in \<open>auto intro: add_left_mono\<close>)
  show ?case unfolding foreach.simps wp_seq
    by (rule wp_mono[OF wp_ws_receive]) (use more in \<open>auto split: if_splits\<close>)
qed (simp add: wp_simps)

text \<open>What a session does once the client is registered; \<open>n\<close> trees have been sent when it ends.\<close>

lemma wp_ws_session:
  "wp (seq (bnd (gets tree_cache) (\<lambda>d. if d \<noteq> [] then ws_send_tree sock w else ws_refresh env frepr sock w))
        (seq (foreach (ws_receive env frepr sock w) datas) (throw WebSocketDisconnect)))
     (\<lambda>_ _. False)
     (\<lambda>e t. \<exists>n. told w n s t \<and> 1 \<le> n \<and> n \<le> 1 + length (filter is_refresh datas) \<and>
        (quiet sock \<and> list_all no_bare_value datas \<longrightarrow> e = WebSocketDisconnect \<and> n = 1 + length (filter is_refresh datas))) s"
  (is "wp _ _ ?E s")
proof -
  have rest: "wp (seq (foreach (ws_receive env frepr sock w) datas) (throw WebSocketDisconnect)) (\<lambda>_ _. False) ?E u"
    if "told w 1 s u" for u
    unfolding wp_seq wp_throw
    by (rule wp_mono[OF wp_ws_receives]) (use told_trans[OF that] in force)+
  have first: "wp (bnd (gets tree_cache) (\<lambda>d. if d \<noteq> [] then ws_send_tree sock w else ws_refresh env frepr sock w))
      (\<lambda>_. told w 1 s) (\<lambda>_ t. told w 1 s t \<and> \<not> quiet sock) s"
    using wp_ws_send_tree[of sock w s] wp_ws_refresh[of env frepr sock w s] by (simp add: wp_simps)
  show ?thesis unfolding wp_seq[of "bnd _ _"]
    by (rule wp_mono[OF first]) (use rest in auto)
qed

text \<open>
  C27.  A websocket session leaves nothing behind: however it ends, the client is no longer
  registered and the other clients are as before; it was sent a tree when it connected
  and at most one more for each request to refresh.  When no send fails and the
  client sends no JSON value other than objects, the session ends without an exception
  and every request was answered.
\<close>

theorem websocket_session:
  "\<exists>ms t. final (websocket_endpoint env frepr sock w datas) s = t \<and>
     filter (\<lambda>c. c \<noteq> w) (ws_clients t) = filter (\<lambda>c. c \<noteq> w) (ws_clients s) \<and> w \<notin> set (ws_clients t) \<and>
     ws_sent t = ws_sent s @ map (\<lambda>m. (w, m)) ms \<and>
     1 \<le> length ms \<and> length ms \<le> 1 + length (filter is_refresh datas) \<and>
     (\<forall>m \<in> set ms. \<exists>r. m = dumps True (JObj [(''type'', JStr ''tree''), (''data'', r)])) \<and>
     (quiet sock \<and> list_all no_bare_value datas \<longrightarrow>
       result (websocket_endpoint env frepr sock w datas) s = Inr () \<and> length ms = 1 + length (filter is_refresh datas))"
proof -
  let ?m = "websocket_endpoint env frepr sock w datas" and ?s = "s\<lparr>ws_clients := List.insert w (ws_clients s)\<rparr>"
  let ?ok = "quiet sock \<and> list_all no_bare_value datas"
  let ?P = "\<lambda>t ok. \<exists>u n. told w n ?s u \<and> 1 \<le> n \<and> n \<le> 1 + length (filter is_refresh datas) \<and>
      t = u\<lparr>ws_clients := filter (\<lambda>c. c \<noteq> w) (ws_clients u)\<rparr> \<and> (?ok \<longrightarrow> ok \<and> n = 1 + length (filter is_refresh datas))"
  have "wp ?m (\<lambda>_ t. ?P t True) (\<lambda>_ t. ?P t False) s"
    unfolding websocket_endpoint_def wp_seq[of "modify _"] wp_finallyc wp_tryc wp_modify
    by (rule wp_mono[OF wp_ws_session]) (auto simp: wp_simps)
  then obtain u n where u: "told w n ?s u" "1 \<le> n" "n \<le> 1 + length (filter is_refresh datas)"
      "final ?m s = u\<lparr>ws_clients := filter (\<lambda>c. c \<noteq> w) (ws_clients u)\<rparr>"
      "?ok \<longrightarrow> result ?m s = Inr () \<and> n = 1 + length (filter is_refresh datas)"
    by (auto simp: wp_def final_def result_def split: prod.splits sum.splits)
  from u(1) obtain ms where "ws_sent u = ws_sent s @ map (\<lambda>m. (w, m)) ms" "length ms = n" "ws_clients u = List.insert w (ws_clients s)"
      "\<forall>m \<in> set ms. \<exists>r. m = dumps True (JObj [(''type'', JStr ''tree''), (''data'', r)])"
    by (auto simp: told_def)
  with u show ?thesis
    by (intro exI[of _ ms] exI[of _ "final ?m s"]) (auto simp: List.insert_def simp del: dumps.simps)
qed

theorem websocket_session_witness:
  "\<exists>t. final (websocket_endpoint example_env (\<lambda>_. []) (\<lambda>_. None) 3 [''x'']) example_dash = t \<and> 3 \<notin> set (ws_clients t) \<and> length (ws_sent t) = 1"
proof -
  have "is_refresh ''x'' = False" "no_bare_value ''x''" by code_simp+
  then show ?thesis using websocket_session[of example_env "\<lambda>_. []" "\<lambda>_. None" 3 "[''x'']" example_dash]
    by (auto simp: quiet_def example_dash_def dash_init_def simp del: dumps.simps)
qed

end
