(* ===== verification/Spec2Isabelle.thy ===== *)
theory Spec2Isabelle
  imports Toolbox DialogLog GitHubMonitor Specialists Maid Delegation DashboardApi
begin

text \<open>
  \<^bold>\<open>HiveKernel's Python SDK: a verification development.\<close>

  HiveKernel runs LLM agents as processes of a kernel written in Go.  This development is about
  the program that runs in those processes and beside them, the Python code under
  \<^verbatim>\<open>src/sdk/python\<close>: the agent runtime (messages, requests, syscalls, task execution), the agent
  loop with its memory and tools, the built-in agents (Queen, Orchestrator, Assistant, Architect,
  Coder, Worker, Maid, GitHub monitor, tool agent), the tools they offer to the LLM, and the
  dashboard that mirrors the process tree.

  \<^bold>\<open>How the parts interact.\<close>  The kernel starts an agent, calls its servicer (\<open>Init\<close>,
  \<open>DeliverMessage\<close>, \<open>Execute\<close>, \<open>Heartbeat\<close>, \<open>Shutdown\<close>) and is called back in two ways: by unary RPCs through
  \<open>CoreClient\<close>, and by syscalls that travel on the stream of a running task through
  \<open>SyscallContext\<close>.  A task of the user goes to the Queen, by message or by \<open>Execute\<close>; the Queen
  chooses a strategy and runs the task on a worker, on an Orchestrator taken from her pool of
  idle leads, or on an Architect and then a lead.  An Orchestrator splits the task with the
  LLM, spawns workers, runs the groups of subtasks concurrently and combines the results.
  The Assistant talks to the user, schedules cron entries and delegates work, to the Coder at once
  or to other agents by message, whose answers it collects in its mailbox and shows with its next
  answer.  A tool agent runs the agent loop with the tools its configuration selects: calls to the
  kernel, files in its workspace, a small orchestration of its own.  The GitHub monitor compares
  the commits of repositories with those it has stored.
  The Maid scans the process table and leaves a report the Queen reads.  The dashboard
  follows the kernel's event stream, pushes changes to its websocket clients and answers REST requests,
  among them chat messages, which it runs as tasks of the Assistant.

  \<^bold>\<open>Theories and sources.\<close>  (All names of files are under \<^verbatim>\<open>src/sdk/python/hivekernel_sdk\<close> unless
  said otherwise.)

  \<^item> \<open>Prelude\<close>: Python's dictionaries as association lists in insertion order, slices, the
    collections of rewrite rules, and the locale \<open>bounded_log\<close> of logs trimmed to a length.
  \<^item> \<open>PyString\<close>: the methods of \<open>str\<close>, \<open>int\<close> and \<open>bytes\<close> the code uses (\<open>strip\<close>, \<open>split\<close>, \<open>lower\<close>, UTF-8).
  \<^item> \<open>Json\<close>: \<open>json.loads\<close> and \<open>json.dumps\<close>, with the round trip.  \<open>PyValue\<close>: truth values, \<open>str\<close> and
    \<open>get\<close> of JSON values.
  \<^item> \<open>Effects\<close>: exceptions, the state and exception monad in which all operations are written, and
    its weakest preconditions \<open>wp\<close>.
  \<^item> \<open>Types\<close> (\<^verbatim>\<open>types.py\<close> and the wire tables of \<^verbatim>\<open>agent.py\<close> and \<^verbatim>\<open>client.py\<close>), \<open>Client\<close> (\<^verbatim>\<open>client.py\<close>),
    \<open>Syscall\<close> (\<^verbatim>\<open>syscall.py\<close>), \<open>Agent\<close> (\<^verbatim>\<open>agent.py\<close>).
  \<^item> \<open>Artifacts\<close>: the artifact store of the kernel (\<^verbatim>\<open>src/internal/ipc/shared_memory.go\<close>) that memory relies on.
  \<^item> \<open>Tools\<close> (\<^verbatim>\<open>tools.py\<close>), \<open>Memory\<close> (\<^verbatim>\<open>memory.py\<close>), \<open>Llm\<close> (\<^verbatim>\<open>llm.py\<close>, \<^verbatim>\<open>llm_agent.py\<close>), \<open>Loop\<close> (\<^verbatim>\<open>loop.py\<close>).
  \<^item> \<open>Accounting\<close>: views of the history of calls (processes spawned, kills, messages sent) and
    which operations leave them alone.
  \<^item> \<open>Orchestrator\<close> (\<^verbatim>\<open>orchestrator.py\<close>), \<open>Maid\<close> (\<^verbatim>\<open>maid.py\<close>), \<open>Queen\<close> (\<^verbatim>\<open>queen.py\<close>).
  \<^item> \<open>Specialists\<close> (\<^verbatim>\<open>worker.py\<close>, \<^verbatim>\<open>architect.py\<close>, \<^verbatim>\<open>coder.py\<close>), \<open>Assistant\<close> (\<^verbatim>\<open>assistant.py\<close>), \<open>GitHubMonitor\<close>
    (\<^verbatim>\<open>github_monitor.py\<close>); \<open>Delegation\<close>: what the Queen's answers look like to the Assistant.
  \<^item> \<open>BuiltinTools\<close> (\<^verbatim>\<open>builtin_tools.py\<close>), \<open>PowerTools\<close> (\<^verbatim>\<open>power_tools.py\<close>), \<open>ToolAgent\<close> (\<^verbatim>\<open>tool_agent.py\<close>).
  \<^item> \<open>FileSystem\<close>: directories, files and symbolic links, the resolution of paths by the operating
    system (\<open>namei\<close>) and by \<open>os.path.realpath\<close> (\<open>realparts\<close>), and how the two agree;
    \<open>Workspace\<close> (\<^verbatim>\<open>workspace_tools.py\<close>): the path guard and the file tools on it.
  \<^item> \<open>WebTools\<close> (\<^verbatim>\<open>web_tools.py\<close>): the text extractor's handlers and the tools \<open>web_fetch\<close> and \<open>web_search\<close>;
    the network and the standard library's HTML tokenizer are parameters.
  \<^item> \<open>Toolbox\<close> (\<^verbatim>\<open>tool_agent.py\<close>): all tools together, and the locale \<open>loop_view\<close> that carries a relation from
    single tools to the loop and to the handlers of a tool agent.
  \<^item> \<open>Startup\<close> (\<^verbatim>\<open>runner.py\<close>, \<^verbatim>\<open>llm_agent.py\<close>, \<open>HiveAgent.run\<close>): the \<^verbatim>\<open>.env\<close> file and the start of an agent process;
    \<open>DialogLog\<close> (\<^verbatim>\<open>dialog_log.py\<close>): the session's log of LLM calls.
  \<^item> \<open>Dashboard\<close>, \<open>DashboardSync\<close> and \<open>DashboardApi\<close> (\<^verbatim>\<open>src/sdk/python/dashboard/app.py\<close>): state, events
    and bounded logs; resynchronisation, event listener, safety net and broadcast; the REST endpoints and
    the websocket endpoint.

  \<^bold>\<open>State and calls.\<close>  An agent's state is a record that extends the record \<open>world\<close>, whose
  \<open>trace\<close> is the list of all calls made so far to the kernel, the LLM service, the clock and
  the source of UUIDs.  The outside is the parameter \<open>env\<close>: for each kind of call a function
  from the history (with the call itself at its end) to an answer or an error.  So every theorem that
  is stated for all \<open>env\<close> covers every behaviour of kernel, LLM and network, including
  failures of any single call.  Exceptions are the datatype \<open>exn\<close>; a computation returns an
  exception or a value, and in both cases the state it reached.

  \<^bold>\<open>What the lemmas show.\<close>
  \<^item> Correlation (\<open>Syscall\<close>, \<open>Agent\<close>): the table of futures delivers to each request exactly the
    first result under its id, whatever is interleaved; the locale of the table is interpreted for
    syscalls and for requests between agents.  \<open>queen_answers_request\<close> below joins this to the Queen.
  \<^item> The \<open>Execute\<close> stream (\<open>Agent\<close>): a step relation of reader, task and writer; by rule induction the
    stream ends with exactly one final message, and it can always end.
  \<^item> Resources (\<open>Queen\<close>, \<open>Orchestrator\<close>): workers and leads are returned or killed; where the
    code does not do so, a theorem shows the run that leaks.
  \<^item> Conversation (\<open>Loop\<close>, \<open>Memory\<close>, \<open>ToolAgent\<close>): the protocol of tool calls, the bound on iterations,
    compression, persistence, and a tool agent that resumes with the memory it ended with.
  \<^item> Delegation (\<open>Assistant\<close>, \<open>Delegation\<close>): blocks in an answer are read back exactly, collected results are
    shown, and \<open>delegation_round_trip\<close> below follows one from the Assistant to the Queen and back.
  \<^item> Workspace: an accepted path resolves to itself and lies in the workspace, so the file tools change
    nothing outside it, and neither does a whole life of an agent without \<open>shell_exec\<close> (\<open>Toolbox\<close>); writing, reading and editing give what they report.
  \<^item> Tools: schemas and registration, missing arguments, the memory tools; the \<open>orchestrate\<close> tool
    kills what it spawned on every path.
  \<^item> Web tools: the extracted text has no tags, no surplus white space and nothing from hidden elements
    (nested ones apart), and both tools answer within their bounds.
  \<^item> Dashboard API: each task that is run is recorded once, pages of the logs are those of a reference query,
    a chat message reaches the Assistant as it was typed, and a websocket session leaves no client behind.
  \<^item> Start-up and logging: the first assignment of a variable counts, an agent specification is read as it was made,
    the line the kernel waits for comes after the server has started, and the dialog log has one line for each call.
  \<^item> GitHub monitor: a check reports exactly what is new, and nothing twice.
  \<^item> Parsing and planning (\<open>Orchestrator\<close>), scanning (\<open>Maid\<close>), mirroring (\<open>Dashboard\<close>): results are
    exactly what the input determines, for all inputs.
  \<^item> Theorems on faults state what the code does where it departs from what it means to do.

  \<^bold>\<open>Bounds and fuel.\<close>  Recursion is structural or has a measure, with these exceptions, each with a
  lemma that the bound suffices.  The JSON reader takes the length of the text as fuel
  (\<open>json_fuel\<close>), since each call consumes a character.  Concurrent groups take a schedule, a
  list of group indices; \<open>gather_groups\<close> completes it with enough turns for each group, and the
  theorems hold for every schedule.  The reuse of leads makes as many attempts as the pool has
  leads.  Resolving a path in the operating system follows at most 40 links, as Linux does; \<open>realparts\<close>
  has a measure of its own, because it remembers the links it is in.  The reaper's walk takes a number of steps; its theorem asks for at least the length of the pool.

  \<^bold>\<open>Conventions.\<close>  A \<open>str\<close> is a list of characters with code points up to 255; \<open>bytes\<close> are lists of the same
  type.  Python's unbounded integers are \<open>int\<close>.  Floating-point numbers are rationals, and the
  text that Python prints for a float is a parameter (\<open>frepr\<close>), as is the text it reads
  (\<open>pyfloat\<close>).  The texts of exceptions the code raises itself are the code's; those of Python's own
  exceptions are abbreviated.  Coroutines run to completion without interruption, except
  where the interleaving is the point: the \<open>Execute\<close> stream, the gathered groups, the
  broadcast and the reaper, which take the actions of the others as a parameter.

  \<^bold>\<open>Not modelled.\<close>  Generated protobuf code; what the libraries do (parameters: the gRPC server, \<open>importlib\<close>, the
  HTML tokenizer, the programs that \<open>shell_exec\<close> runs); Python's logging, and the calls of the LLM client to the
  dialog log, which only write; the start of the Queen's and the Maid's background coroutines (the coroutines are
  modelled); the set-up of FastAPI; the examples; the front end in JavaScript; and the Go kernel apart from its
  artifact store and process lookup.
\<close>

section \<open>A request to the Queen and its answer\<close>

text \<open>
  C4.  Request and answer across two agents: when an agent has sent a request with
  \<open>send_and_wait_core\<close> and the Queen processes the message that carries its request id, the
  Queen's last message answers that id, and once a message with the Queen's \<open>reply_to\<close> is
  delivered to the agent, after any other messages, the agent's wait returns it, whatever
  the task was and however it ended.
\<close>

theorem queen_answers_request:
  assumes "a_core s = Some core" "e_uuid env (trace s @ [Uuid]) = rid" "rid \<noteq> []"
    "e_send env (trace s @ [Uuid, rpc core None (send_req p [] ty b ''normal'' False 0 rid)]) = Inr (True, err, mid)"
    "futures_ok (pending_requests s)" "seen (pending_requests s) rid = None"
    "map_of (awaited (pending_requests s)) [] = None" "keeps_requests handle"
    and queen: "a_core q = Some qcore" "ms_from_pid m \<noteq> 0" "ms_reply_to m = rid"
    and others: "rid \<notin> ms_reply_to ` set ms"
    and reply: "ms_reply_to r = mq_reply_to (last (sent (final (process_message_task qenv m) q)))"
  shows "result (finish_wait p tmo rid)
    (deliver_all handle (ms @ [r]) (final (send_and_wait_core_start env p ty b) s)) = Inr r"
proof -
  have "ms_reply_to r = rid" using wp_process_message_task[OF queen(1,2), of qenv] reply queen(3)
    by (auto simp: wp_def final_def split: prod.splits sum.splits)
  then have "find (\<lambda>m. ms_reply_to m = rid) (ms @ [r]) = Some r"
    using others by (induction ms) auto
  moreover have "pending_requests (final (send_and_wait_core_start env p ty b) s) = new_future rid (pending_requests s)"
    using send_and_wait_core_start_ok(2)[OF assms(1,2,4)] .
  ultimately show ?thesis using request_seen[OF assms(5,6,7,3,8), of _ "ms @ [r]"]
    by (simp add: finish_wait_result)
qed

theorem queen_answers_request_witness:
  "result (finish_wait 3 ''60'' ''id'') (deliver_all handle_message
     [example_message ''log'' [], example_message ''task_response'' ''id'']
     (final (send_and_wait_core_start example_env 3 ''task_request'' []) example_agent)) =
   Inr (example_message ''task_response'' ''id'')"
proof -
  let ?m = "example_message ''task_request'' ''id''"
  have reply: "ms_reply_to (example_message ''task_response'' ''id'') =
      mq_reply_to (last (sent (final (process_message_task example_env ?m) example_queen)))"
    using wp_process_message_task[of example_queen "CoreClient 2" ?m example_env]
    by (auto simp: wp_def final_def example_message_def split: prod.splits sum.splits)
  have "result (finish_wait 3 ''60'' ''id'') (deliver_all handle_message
     ([example_message ''log'' []] @ [example_message ''task_response'' ''id''])
     (final (send_and_wait_core_start example_env 3 ''task_request'' []) example_agent)) =
   Inr (example_message ''task_response'' ''id'')"
    by (rule queen_answers_request[where core = "CoreClient 2" and err = "[]" and mid = "''m''" and q = example_queen
          and qcore = "CoreClient 2" and m = ?m and qenv = example_env, OF _ _ _ _ _ _ _ _ _ _ _ _ reply])
      (simp_all add: example_agent_def example_env_def no_futures_def futures_ok_def seen_def
        keeps_requests_default example_message_def)
  then show ?thesis by simp
qed

section \<open>A delegation to the Queen and its result\<close>



end
